theory Spec2Isabelle
  imports Complex_Main
begin

section \<open>Numbers and typed arrays\<close>

text \<open>
  The cells of a \<^verbatim>\<open>Float32Array\<close> and the bounds of an update range are JavaScript
  numbers. They are modelled as reals (exact arithmetic, no rounding to 32 or 64 bits)
  extended with the three non-finite values the code itself produces:
  \<^verbatim>\<open>Number.POSITIVE_INFINITY\<close> and \<^verbatim>\<open>Number.NEGATIVE_INFINITY\<close> in
  \<^verbatim>\<open>Emitter.setBufferUpdateRanges\<close>, and \<^verbatim>\<open>NaN\<close>, which is what arithmetic on
  the \<^verbatim>\<open>undefined\<close> of an out-of-range read gives and what a typed array stores for it.
\<close>

datatype jsnum = NaN | NInf | PInf | Val real

fun jneg :: "jsnum \<Rightarrow> jsnum" where
  "jneg NaN = NaN"
| "jneg NInf = PInf"
| "jneg PInf = NInf"
| "jneg (Val x) = Val (- x)"

fun jadd :: "jsnum \<Rightarrow> jsnum \<Rightarrow> jsnum" where
  "jadd NaN _ = NaN"
| "jadd _ NaN = NaN"
| "jadd NInf PInf = NaN"
| "jadd PInf NInf = NaN"
| "jadd NInf _ = NInf"
| "jadd _ NInf = NInf"
| "jadd PInf _ = PInf"
| "jadd _ PInf = PInf"
| "jadd (Val x) (Val y) = Val (x + y)"

definition jsub :: "jsnum \<Rightarrow> jsnum \<Rightarrow> jsnum" where
  "jsub a b = jadd a (jneg b)"

text \<open>Multiplication by a finite factor, as in \<^verbatim>\<open>min * this.itemSize\<close>.\<close>

fun jscale :: "jsnum \<Rightarrow> real \<Rightarrow> jsnum" where
  "jscale NaN _ = NaN"
| "jscale (Val x) k = Val (x * k)"
| "jscale PInf k = (if k = 0 then NaN else if 0 < k then PInf else NInf)"
| "jscale NInf k = (if k = 0 then NaN else if 0 < k then NInf else PInf)"

text \<open>\<^verbatim>\<open>a <= b\<close>; every comparison with \<^verbatim>\<open>NaN\<close> is false.\<close>

fun jle :: "jsnum \<Rightarrow> jsnum \<Rightarrow> bool" where
  "jle NaN _ = False"
| "jle _ NaN = False"
| "jle NInf _ = True"
| "jle _ PInf = True"
| "jle (Val x) (Val y) = (x \<le> y)"
| "jle _ _ = False"

definition jlt :: "jsnum \<Rightarrow> jsnum \<Rightarrow> bool" where
  "jlt a b \<longleftrightarrow> jle a b \<and> a \<noteq> b"

text \<open>\<^verbatim>\<open>Math.min\<close> and \<^verbatim>\<open>Math.max\<close>: \<^verbatim>\<open>NaN\<close> if an argument is \<^verbatim>\<open>NaN\<close>.\<close>

fun jmin :: "jsnum \<Rightarrow> jsnum \<Rightarrow> jsnum" where
  "jmin NaN _ = NaN"
| "jmin _ NaN = NaN"
| "jmin a b = (if jle a b then a else b)"

fun jmax :: "jsnum \<Rightarrow> jsnum \<Rightarrow> jsnum" where
  "jmax NaN _ = NaN"
| "jmax _ NaN = NaN"
| "jmax a b = (if jle a b then b else a)"

text \<open>
  Reading and writing a typed array at a numeric key. A key that is not an integer
  index inside the array reads \<^verbatim>\<open>undefined\<close> (modelled as \<open>NaN\<close>: the code only
  compares such a value with \<^verbatim>\<open>0.0\<close> or computes with it) and a write there is
  silently dropped; the array never grows.
\<close>

definition validIndex :: "jsnum list \<Rightarrow> real \<Rightarrow> bool" where
  "validIndex xs r \<longleftrightarrow> of_int \<lfloor>r\<rfloor> = r \<and> 0 \<le> r \<and> nat \<lfloor>r\<rfloor> < length xs"

definition rd :: "jsnum list \<Rightarrow> real \<Rightarrow> jsnum" where
  "rd xs r = (if validIndex xs r then xs ! nat \<lfloor>r\<rfloor> else NaN)"

definition wr :: "jsnum list \<Rightarrow> real \<Rightarrow> jsnum \<Rightarrow> jsnum list" where
  "wr xs r v = (if validIndex xs r then xs[nat \<lfloor>r\<rfloor> := v] else xs)"

section \<open>Float32ArrayHelper\<close>

datatype error = RangeError | TypeError

datatype diag =
    InfoAlreadyOfSize int
  | WarnMaxParticleCountExceeded int nat
  | WarnInvalidArgumentTypes
  | ErrorNotAnEmitter
  | ErrorAlreadyInThisGroup
  | ErrorInAnotherGroup
  | ErrorNotInThisGroup

text \<open>
  \<open>size_h\<close> is the field \<^verbatim>\<open>size\<close>: the constructor stores the element count in it,
  \<^verbatim>\<open>shrink\<close> and \<^verbatim>\<open>grow\<close> store the component count. Sizes are integers;
  \<^verbatim>\<open>new Float32Array(n)\<close> throws a RangeError for a negative \<open>n\<close>.
\<close>

record Float32ArrayHelper =
  size_h :: int
  array :: "jsnum list"
  itemSize_h :: nat

definition new_Float32ArrayHelper :: "int \<Rightarrow> nat \<Rightarrow> error + Float32ArrayHelper" where
  "new_Float32ArrayHelper sz isz =
     (if sz * int isz < 0 then Inl RangeError
      else Inr \<lparr>size_h = sz, array = replicate (nat (sz * int isz)) (Val 0), itemSize_h = isz\<rparr>)"

text \<open>
  \<^verbatim>\<open>subarray(0, size)\<close> keeps the first \<open>size\<close> cells (all of them if there are
  fewer); a negative \<open>size\<close> counts from the end of the array.
\<close>

definition shrink :: "int \<Rightarrow> Float32ArrayHelper \<Rightarrow> Float32ArrayHelper" where
  "shrink sz h =
     h\<lparr>array := take (nat (if sz < 0 then int (length (array h)) + sz else sz)) (array h),
       size_h := sz\<rparr>"

text \<open>
  \<^verbatim>\<open>newArray.set(existingArray)\<close> throws a RangeError when the existing array is
  longer than the new one.
\<close>

definition grow :: "int \<Rightarrow> Float32ArrayHelper \<Rightarrow> error + Float32ArrayHelper" where
  "grow sz h =
     (if sz < int (length (array h)) then Inl RangeError
      else Inr (h\<lparr>array := array h @ replicate (nat sz - length (array h)) (Val 0), size_h := sz\<rparr>))"

definition setSize :: "int \<Rightarrow> Float32ArrayHelper \<Rightarrow> error + (Float32ArrayHelper \<times> diag list)" where
  "setSize n h =
     (let sz = n * int (itemSize_h h) in
      if sz < int (length (array h)) then Inr (shrink sz h, [])
      else if sz > int (length (array h)) then
        (case grow sz h of Inl e \<Rightarrow> Inl e | Inr h' \<Rightarrow> Inr (h', []))
      else Inr (h, [InfoAlreadyOfSize sz]))"

text \<open>
  \<^verbatim>\<open>_setFromArray(index, array)\<close>: resize to \<open>index + length\<close>, then
  \<^verbatim>\<open>this.array.set(array, index)\<close>.
\<close>

definition setFromArray :: "nat \<Rightarrow> jsnum list \<Rightarrow> Float32ArrayHelper \<Rightarrow> error + Float32ArrayHelper" where
  "setFromArray index src h =
     (let newSize = index + length src;
          r = (if newSize > length (array h) then grow (int newSize) h
               else if newSize < length (array h) then Inr (shrink (int newSize) h)
               else Inr h)
      in case r of
           Inl e \<Rightarrow> Inl e
         | Inr h' \<Rightarrow>
             if index + length src > length (array h') then Inl RangeError
             else Inr (h'\<lparr>array := take index (array h') @ src @ drop (index + length src) (array h')\<rparr>))"

text \<open>The loop of \<^verbatim>\<open>splice\<close>: every cell outside \<open>[start, end)\<close> is pushed onto \<open>data\<close>.\<close>

definition spliceData :: "int \<Rightarrow> int \<Rightarrow> jsnum list \<Rightarrow> jsnum list" where
  "spliceData start end xs =
     fold (\<lambda>i data. if int i < start \<or> int i \<ge> end then data @ [xs ! i] else data)
       [0..<length xs] []"

definition splice :: "int \<Rightarrow> int \<Rightarrow> Float32ArrayHelper \<Rightarrow> error + Float32ArrayHelper" where
  "splice start end h =
     setFromArray 0
       (spliceData (start * int (itemSize_h h)) (end * int (itemSize_h h)) (array h)) h"

text \<open>
  \<^verbatim>\<open>setVec3Components\<close> and \<^verbatim>\<open>setVec4Components\<close> write at \<open>index * itemSize\<close>
  and the following cells, whatever the item size is.
\<close>

definition setVec3Components ::
  "real \<Rightarrow> jsnum \<Rightarrow> jsnum \<Rightarrow> jsnum \<Rightarrow> Float32ArrayHelper \<Rightarrow> Float32ArrayHelper" where
  "setVec3Components index x y z h =
     (let i = index * real (itemSize_h h) in
      h\<lparr>array := wr (wr (wr (array h) i x) (i + 1) y) (i + 2) z\<rparr>)"

definition setVec4Components ::
  "real \<Rightarrow> jsnum \<Rightarrow> jsnum \<Rightarrow> jsnum \<Rightarrow> jsnum \<Rightarrow> Float32ArrayHelper \<Rightarrow> Float32ArrayHelper" where
  "setVec4Components index x y z w h =
     (let i = index * real (itemSize_h h) in
      h\<lparr>array := wr (wr (wr (wr (array h) i x) (i + 1) y) (i + 2) z) (i + 3) w\<rparr>)"

section \<open>ShaderAttribute\<close>

text \<open>
  Of the three.js \<^verbatim>\<open>InstancedBufferAttribute\<close> the model keeps what the code sets to
  request an upload. The two branches on \<^verbatim>\<open>REVISION\<close> encode the same request:
  \<^verbatim>\<open>addUpdateRange(start, count)\<close> or \<^verbatim>\<open>updateRange = {offset, count}\<close> is
  \<open>Range\<close>, and \<^verbatim>\<open>addUpdateRange(0, array.length)\<close> or \<^verbatim>\<open>{offset: 0, count: -1}\<close> is
  \<open>Whole\<close>. The attribute's own \<^verbatim>\<open>array\<close> reference and \<^verbatim>\<open>count\<close> are read by the
  renderer only and are left out.
\<close>

datatype usage = DynamicDrawUsage | StaticDrawUsage

datatype upload = Whole | Range jsnum jsnum

record BufferAttribute =
  usage :: usage
  updateRange :: upload
  needsUpdate :: bool

record ShaderAttribute =
  typedArray :: "Float32ArrayHelper option"
  bufferAttribute :: "BufferAttribute option"
  dynamicBuffer :: bool
  updateMin :: jsnum
  updateMax :: jsnum
  itemSize :: nat

definition new_ShaderAttribute :: "nat \<Rightarrow> ShaderAttribute" where
  "new_ShaderAttribute k =
     \<lparr>typedArray = None, bufferAttribute = None, dynamicBuffer = True,
      updateMin = Val 0, updateMax = Val 0, itemSize = k\<rparr>"

definition setUpdateRange :: "jsnum \<Rightarrow> jsnum \<Rightarrow> ShaderAttribute \<Rightarrow> ShaderAttribute" where
  "setUpdateRange mn mx a =
     a\<lparr>updateMin := jmin (jscale mn (real (itemSize a))) (jscale (updateMin a) (real (itemSize a))),
       updateMax := jmax (jscale mx (real (itemSize a))) (jscale (updateMax a) (real (itemSize a)))\<rparr>"

definition resetUpdateRange :: "ShaderAttribute \<Rightarrow> ShaderAttribute" where
  "resetUpdateRange a = a\<lparr>updateMin := Val 0, updateMax := Val 0\<rparr>"

text \<open>
  \<^verbatim>\<open>flagUpdate\<close> reads \<^verbatim>\<open>this.typedArray!.array.length\<close>: a TypeError if there is a
  buffer attribute but no typed array.
\<close>

definition flagUpdate :: "ShaderAttribute \<Rightarrow> error + ShaderAttribute" where
  "flagUpdate a =
     (case bufferAttribute a of
        None \<Rightarrow> Inr a
      | Some attr \<Rightarrow>
          (case typedArray a of
             None \<Rightarrow> Inl TypeError
           | Some h \<Rightarrow>
               Inr (a\<lparr>bufferAttribute := Some (attr\<lparr>
                      updateRange := Range (updateMin a)
                        (jmin (jadd (jsub (updateMax a) (updateMin a)) (Val (real (itemSize a))))
                              (Val (real (length (array h))))),
                      needsUpdate := True\<rparr>)\<rparr>)))"

definition resetDynamic :: "ShaderAttribute \<Rightarrow> ShaderAttribute" where
  "resetDynamic a =
     (case bufferAttribute a of
        None \<Rightarrow> a
      | Some attr \<Rightarrow>
          a\<lparr>bufferAttribute :=
              Some (attr\<lparr>usage := (if dynamicBuffer a then DynamicDrawUsage else StaticDrawUsage)\<rparr>)\<rparr>)"

text \<open>
  \<^verbatim>\<open>forceUpdateAll\<close> re-points the buffer attribute at the typed array (a TypeError
  if there is none) and requests the upload of the whole array.
\<close>

definition forceUpdateAll :: "ShaderAttribute \<Rightarrow> error + ShaderAttribute" where
  "forceUpdateAll a =
     (case bufferAttribute a of
        None \<Rightarrow> Inr a
      | Some attr \<Rightarrow>
          (case typedArray a of
             None \<Rightarrow> Inl TypeError
           | Some h \<Rightarrow>
               Inr (a\<lparr>bufferAttribute :=
                      Some (attr\<lparr>usage := StaticDrawUsage, updateRange := Whole, needsUpdate := True\<rparr>)\<rparr>)))"

definition splice_attr :: "int \<Rightarrow> int \<Rightarrow> ShaderAttribute \<Rightarrow> error + ShaderAttribute" where
  "splice_attr start end a =
     (case typedArray a of
        None \<Rightarrow> forceUpdateAll a
      | Some h \<Rightarrow>
          (case splice start end h of
             Inl e \<Rightarrow> Inl e
           | Inr h' \<Rightarrow> forceUpdateAll (a\<lparr>typedArray := Some h'\<rparr>)))"

text \<open>
  \<^verbatim>\<open>_ensureFloat32ArrayWithSizeExists\<close>. The first test compares the helper's
  \<^verbatim>\<open>size\<close> with the component count, the second with the element count.
\<close>

definition ensureFloat32ArrayWithSizeExists ::
  "int \<Rightarrow> ShaderAttribute \<Rightarrow> error + (ShaderAttribute \<times> diag list)" where
  "ensureFloat32ArrayWithSizeExists sz a =
     (case typedArray a of
        Some h \<Rightarrow>
          if size_h h = sz * int (itemSize a) then Inr (a, [])
          else if size_h h \<noteq> sz then
            (case setSize sz h of
               Inl e \<Rightarrow> Inl e
             | Inr (h', d) \<Rightarrow> Inr (a\<lparr>typedArray := Some h'\<rparr>, d))
          else Inr (a, [])
      | None \<Rightarrow>
          (case new_Float32ArrayHelper sz (itemSize a) of
             Inl e \<Rightarrow> Inl e
           | Inr h \<Rightarrow> Inr (a\<lparr>typedArray := Some h\<rparr>, [])))"

definition createBufferAttribute ::
  "int \<Rightarrow> ShaderAttribute \<Rightarrow> error + (ShaderAttribute \<times> diag list)" where
  "createBufferAttribute sz a =
     (case ensureFloat32ArrayWithSizeExists sz a of
        Inl e \<Rightarrow> Inl e
      | Inr (a', d) \<Rightarrow>
          (case bufferAttribute a' of
             Some attr \<Rightarrow> Inr (a'\<lparr>bufferAttribute := Some (attr\<lparr>needsUpdate := True\<rparr>)\<rparr>, d)
           | None \<Rightarrow>
               Inr (a'\<lparr>bufferAttribute :=
                      Some \<lparr>usage = (if dynamicBuffer a' then DynamicDrawUsage else StaticDrawUsage),
                            updateRange = Whole, needsUpdate = False\<rparr>\<rparr>, d)))"

section \<open>EmitterUtils: value-over-lifetime arrays\<close>

text \<open>
  The values of a lifetime-curve channel: numbers for opacity, size and angle,
  \<^verbatim>\<open>Color\<close> and \<^verbatim>\<open>Vector3\<close> for the colour channel. \<open>Undefined\<close> is what
  \<^verbatim>\<open>lerpTypeAgnostic\<close> returns for operands it does not support, and what an
  out-of-range array read gives.
\<close>

datatype lval =
    Number real
  | Vector2 real real
  | Vector3 real real real
  | Vector4 real real real real
  | Color real real real
  | Undefined

datatype orArray = Single lval | Arr "lval list"

record property =
  "value" :: orArray
  spread :: orArray

definition valueOverLifetimeLength :: nat where
  "valueOverLifetimeLength = 4"

definition clamp :: "nat \<Rightarrow> nat \<Rightarrow> nat \<Rightarrow> nat" where
  "clamp v mn mx = max mn (min v mx)"

definition lerp :: "real \<Rightarrow> real \<Rightarrow> real \<Rightarrow> real" where
  "lerp start end delta = start + (end - start) * delta"

fun lerpTypeAgnostic :: "lval \<Rightarrow> lval \<Rightarrow> real \<Rightarrow> lval \<times> diag list" where
  "lerpTypeAgnostic (Number s) (Number e) d = (Number (s + (e - s) * d), [])"
| "lerpTypeAgnostic (Vector2 sx sy) (Vector2 ex ey) d =
     (Vector2 (lerp sx ex d) (lerp sy ey d), [])"
| "lerpTypeAgnostic (Vector3 sx sy sz) (Vector3 ex ey ez) d =
     (Vector3 (lerp sx ex d) (lerp sy ey d) (lerp sz ez d), [])"
| "lerpTypeAgnostic (Vector4 sx sy sz sw) (Vector4 ex ey ez ew) d =
     (Vector4 (lerp sx ex d) (lerp sy ey d) (lerp sz ez d) (lerp sw ew d), [])"
| "lerpTypeAgnostic (Color sr sg sb) (Color er eg eb) d =
     (Color (lerp sr er d) (lerp sg eg d) (lerp sb eb d), [])"
| "lerpTypeAgnostic _ _ _ = (Undefined, [WarnInvalidArgumentTypes])"

text \<open>\<^verbatim>\<open>srcArray[n]\<close>: \<^verbatim>\<open>undefined\<close> outside the array.\<close>

definition elemAt :: "lval list \<Rightarrow> int \<Rightarrow> lval" where
  "elemAt xs n = (if 0 \<le> n \<and> nat n < length xs then xs ! nat n else Undefined)"

text \<open>
  \<^verbatim>\<open>interpolateArray\<close>. Reading \<^verbatim>\<open>.clone\<close> of the first or of the last element
  throws a TypeError when that element is \<^verbatim>\<open>undefined\<close>, so for an empty array. The
  loop runs for \<open>1 \<le> i < newLength - 1\<close>; \<open>factor\<close> is used inside the loop only,
  where \<open>newLength - 1\<close> is at least 2.
\<close>

definition interpolateStep :: "lval list \<Rightarrow> real \<Rightarrow> nat \<Rightarrow> lval \<times> diag list" where
  "interpolateStep srcArray factor i =
     (let f = real i * factor;
          before = \<lfloor>f\<rfloor>;
          after = \<lceil>f\<rceil>;
          delta = f - of_int before
      in lerpTypeAgnostic (elemAt srcArray before) (elemAt srcArray after) delta)"

definition interpolateArray :: "lval list \<Rightarrow> nat \<Rightarrow> error + (lval list \<times> diag list)" where
  "interpolateArray srcArray newLength =
     (let sourceLength = length srcArray in
      if elemAt srcArray 0 = Undefined then Inl TypeError
      else
        let factor = (real sourceLength - 1) / (real newLength - 1);
            steps = map (interpolateStep srcArray factor) [1..<newLength - 1]
        in if elemAt srcArray (int sourceLength - 1) = Undefined then Inl TypeError
           else Inr (elemAt srcArray 0 # map fst steps @ [elemAt srcArray (int sourceLength - 1)],
                     concat (map snd steps)))"

definition asArray :: "orArray \<Rightarrow> lval list" where
  "asArray v = (case v of Single x \<Rightarrow> [x] | Arr xs \<Rightarrow> xs)"

text \<open>
  \<^verbatim>\<open>ensureValueOverLifetimeCompliance\<close>; \<^verbatim>\<open>minLength || 3\<close> replaces a zero by 3.
\<close>

definition ensureValueOverLifetimeCompliance ::
  "property \<Rightarrow> nat \<Rightarrow> nat \<Rightarrow> error + (property \<times> diag list)" where
  "ensureValueOverLifetimeCompliance p minLength0 maxLength0 =
     (let minLength = (if minLength0 = 0 then 3 else minLength0);
          maxLength = (if maxLength0 = 0 then 3 else maxLength0);
          v = asArray (value p);
          s = asArray (spread p);
          valueLength = clamp (length v) minLength maxLength;
          spreadLength = clamp (length s) minLength maxLength;
          desiredLength = max valueLength spreadLength
      in case (if length v \<noteq> desiredLength then interpolateArray v desiredLength else Inr (v, [])) of
           Inl e \<Rightarrow> Inl e
         | Inr (v', d1) \<Rightarrow>
             (case (if length s \<noteq> desiredLength then interpolateArray s desiredLength else Inr (s, [])) of
                Inl e \<Rightarrow> Inl e
              | Inr (s', d2) \<Rightarrow> Inr (\<lparr>value = Arr v', spread = Arr s'\<rparr>, d1 @ d2)))"

section \<open>Emitter\<close>

text \<open>
  The keys of the group's attribute map, in the order of \<^verbatim>\<open>Object.keys\<close>.
\<close>

datatype key =
    A_position | A_acceleration | A_velocity | A_orbit | A_orbitCenter | A_params
  | A_size | A_angle | A_color | A_opacity | A_rotation

definition allKeys :: "key list" where
  "allKeys = [A_position, A_acceleration, A_velocity, A_orbit, A_orbitCenter, A_params,
              A_size, A_angle, A_color, A_opacity, A_rotation]"

text \<open>
  The numbers an assignment routine writes for one particle come from
  \<^verbatim>\<open>mersenneGenerator.random()\<close> (the generator's source is not part of the repository
  files at hand) through floating-point arithmetic, trigonometry and colour packing.
  The model takes them as given: a \<open>sample\<close> holds, for one particle index, the values
  that the routines of \<^verbatim>\<open>EmitterUtils\<close> compute there, and the routines below write
  them into the cells the code writes. What the code itself fixes (the alive flag, the
  age, the static flags, the orbit centre) is written out.
\<close>

type_synonym vec3 = "jsnum \<times> jsnum \<times> jsnum"
type_synonym vec4 = "jsnum \<times> jsnum \<times> jsnum \<times> jsnum"

record sample =
  s_position :: vec3
  s_velocity :: vec3
  s_acceleration :: vec3
  s_drag :: jsnum
  s_opacity :: vec4
  s_size :: vec4
  s_angle :: vec4
  s_orbitAxis :: jsnum
  s_orbitAngle :: jsnum
  s_rotationAxis :: jsnum
  s_rotationAngle :: jsnum
  s_maxAge :: jsnum
  s_wiggle :: jsnum
  s_color :: vec4

type_synonym sampler = "real \<Rightarrow> sample"

type_synonym buffers = "key \<Rightarrow> Float32ArrayHelper"

text \<open>
  The emitter. Configuration numbers and time steps are finite reals;
  \<open>particlesPerSecond\<close> and \<open>activationIndex\<close> are \<open>jsnum\<close> because the division in
  \<^verbatim>\<open>calculatePPSValue\<close> can give a non-finite value. \<open>group\<close> is the uuid of the
  group; \<^verbatim>\<open>attributes\<close> is set and cleared together with it, and the typed arrays of
  the group's attributes are passed to the routines that use them.

  \<open>paramsArray\<close> is \<^verbatim>\<open>null\<close>, \<^verbatim>\<open>undefined\<close> (what \<^verbatim>\<open>tick\<close> stores when
  \<^verbatim>\<open>attributes\<close> is \<^verbatim>\<open>null\<close>) or a cached reference to the params array. The model
  follows the case in which a cached reference is the group's current params array,
  as it is as long as the group does not replace that array.

  \<open>attributeKeys\<close> is \<open>[]\<close> for \<^verbatim>\<open>null\<close> (\<^verbatim>\<open>attributeCount\<close> is its length).
  \<open>bufferUpdateRanges\<close> is an empty object until \<^verbatim>\<open>setBufferUpdateRanges\<close> fills
  it in \<^verbatim>\<open>addEmitter\<close>; it is read only by routines that need the params array
  or the attributes, which exist from the same call on. \<open>onFinishCbs\<close> lists the
  registered callbacks by an identifier; a callback is taken not to touch the emitter.
\<close>

datatype pref = PNull | PUndefined | PCached

record emitter =
  uuid :: string
  particleCount :: nat
  duration :: "real option"
  isStatic :: bool
  activeMultiplier :: real
  direction :: real
  alive :: bool
  particlesPerSecond :: jsnum
  activationIndex :: jsnum
  attributeOffset :: int
  activationEnd :: "int option"
  age :: real
  activeParticleCount :: int
  group :: "string option"
  paramsArray :: pref
  resetFlags :: "key \<Rightarrow> bool"
  updateFlags :: "key \<Rightarrow> bool"
  updateCounts :: "key \<Rightarrow> nat"
  bufferUpdateRanges :: "key \<Rightarrow> jsnum \<times> jsnum"
  attributeKeys :: "key list"
  onFinishCbs :: "nat list"
  maxAge_value :: real
  maxAge_spread :: real
  orbit_static :: bool
  orbit_center :: vec3
  rotation_static :: bool
  color :: property
  opacity :: property
  size_p :: property
  angle :: property

definition onFinish :: "nat option \<Rightarrow> emitter \<Rightarrow> emitter" where
  "onFinish fn e = (case fn of None \<Rightarrow> e | Some f \<Rightarrow> e\<lparr>onFinishCbs := onFinishCbs e @ [f]\<rparr>)"

definition setBufferUpdateRanges :: "key list \<Rightarrow> emitter \<Rightarrow> emitter" where
  "setBufferUpdateRanges keys e =
     e\<lparr>attributeKeys := keys,
       bufferUpdateRanges :=
         fold (\<lambda>k r. r(k := (PInf, NInf))) (rev keys) (bufferUpdateRanges e)\<rparr>"

text \<open>\<^verbatim>\<open>a / b\<close> on finite numbers: a zero divisor gives an infinity, or \<^verbatim>\<open>NaN\<close> for 0/0.\<close>

definition jdiv :: "real \<Rightarrow> real \<Rightarrow> jsnum" where
  "jdiv a b =
     (if b = 0 then (if a = 0 then NaN else if 0 < a then PInf else NInf)
      else Val (a / b))"

text \<open>\<^verbatim>\<open>if (this.duration)\<close> is false for \<^verbatim>\<open>null\<close> and for 0.\<close>

definition calculatePPSValue :: "real \<Rightarrow> emitter \<Rightarrow> emitter" where
  "calculatePPSValue groupMaxAge e =
     (case duration e of
        Some d \<Rightarrow>
          if d \<noteq> 0
          then e\<lparr>particlesPerSecond :=
                   jdiv (real (particleCount e)) (if groupMaxAge < d then groupMaxAge else d)\<rparr>
          else e\<lparr>particlesPerSecond := jdiv (real (particleCount e)) groupMaxAge\<rparr>
      | None \<Rightarrow> e\<lparr>particlesPerSecond := jdiv (real (particleCount e)) groupMaxAge\<rparr>)"

definition setAttributeOffset :: "int \<Rightarrow> emitter \<Rightarrow> emitter" where
  "setAttributeOffset startIndex e =
     e\<lparr>attributeOffset := startIndex,
       activationIndex := Val (real_of_int startIndex),
       activationEnd := Some (startIndex + int (particleCount e))\<rparr>"

definition put3 :: "key \<Rightarrow> real \<Rightarrow> vec3 \<Rightarrow> buffers \<Rightarrow> buffers" where
  "put3 k index v bufs =
     (case v of (x, y, z) \<Rightarrow> bufs(k := setVec3Components index x y z (bufs k)))"

definition put4 :: "key \<Rightarrow> real \<Rightarrow> vec4 \<Rightarrow> buffers \<Rightarrow> buffers" where
  "put4 k index v bufs =
     (case v of (x, y, z, w) \<Rightarrow> bufs(k := setVec4Components index x y z w (bufs k)))"

definition assignPositionValue :: "sampler \<Rightarrow> real \<Rightarrow> buffers \<Rightarrow> buffers" where
  "assignPositionValue smp index bufs = put3 A_position index (s_position (smp index)) bufs"

text \<open>
  \<^verbatim>\<open>assignForceValue\<close> is called with \<^verbatim>\<open>'velocity'\<close> and \<^verbatim>\<open>'acceleration'\<close>. For the
  acceleration the drag goes to cell \<open>index * 4 + 3\<close>.
\<close>

definition assignForceValue :: "sampler \<Rightarrow> real \<Rightarrow> key \<Rightarrow> buffers \<Rightarrow> buffers" where
  "assignForceValue smp index attrName bufs =
     (if attrName = A_velocity then put3 A_velocity index (s_velocity (smp index)) bufs
      else if attrName = A_acceleration then
        (let b = put3 A_acceleration index (s_acceleration (smp index)) bufs;
             h = b A_acceleration
         in b(A_acceleration := h\<lparr>array := wr (array h) (index * 4 + 3) (s_drag (smp index))\<rparr>))
      else bufs)"

definition assignAbsLifetimeValue :: "sampler \<Rightarrow> real \<Rightarrow> key \<Rightarrow> buffers \<Rightarrow> buffers" where
  "assignAbsLifetimeValue smp index propName bufs =
     (if propName = A_opacity then put4 A_opacity index (s_opacity (smp index)) bufs
      else if propName = A_size then put4 A_size index (s_size (smp index)) bufs
      else bufs)"

definition assignAngleValue :: "sampler \<Rightarrow> real \<Rightarrow> buffers \<Rightarrow> buffers" where
  "assignAngleValue smp index bufs = put4 A_angle index (s_angle (smp index)) bufs"

definition assignParamsValue :: "emitter \<Rightarrow> sampler \<Rightarrow> real \<Rightarrow> buffers \<Rightarrow> buffers" where
  "assignParamsValue e smp index bufs =
     put4 A_params index
       (Val (if isStatic e then 1 else 0), Val 0, s_maxAge (smp index), s_wiggle (smp index)) bufs"

definition assignOrbitValue :: "emitter \<Rightarrow> sampler \<Rightarrow> real \<Rightarrow> buffers \<Rightarrow> buffers" where
  "assignOrbitValue e smp index bufs =
     put3 A_orbitCenter index (orbit_center e)
       (put3 A_orbit index
          (s_orbitAxis (smp index), s_orbitAngle (smp index), Val (if orbit_static e then 0 else 1))
          bufs)"

definition assignRotationValue :: "emitter \<Rightarrow> sampler \<Rightarrow> real \<Rightarrow> buffers \<Rightarrow> buffers" where
  "assignRotationValue e smp index bufs =
     put3 A_rotation index
       (s_rotationAxis (smp index), s_rotationAngle (smp index),
        Val (if rotation_static e then 1 else 0)) bufs"

definition assignColorValue :: "sampler \<Rightarrow> real \<Rightarrow> buffers \<Rightarrow> buffers" where
  "assignColorValue smp index bufs = put4 A_color index (s_color (smp index)) bufs"

text \<open>\<^verbatim>\<open>_assignValue\<close>: the switch has no case for \<^verbatim>\<open>'orbitCenter'\<close>.\<close>

fun assignValue :: "emitter \<Rightarrow> sampler \<Rightarrow> key \<Rightarrow> real \<Rightarrow> buffers \<Rightarrow> buffers" where
  "assignValue e smp A_position index bufs = assignPositionValue smp index bufs"
| "assignValue e smp A_velocity index bufs = assignForceValue smp index A_velocity bufs"
| "assignValue e smp A_acceleration index bufs = assignForceValue smp index A_acceleration bufs"
| "assignValue e smp A_size index bufs = assignAbsLifetimeValue smp index A_size bufs"
| "assignValue e smp A_opacity index bufs = assignAbsLifetimeValue smp index A_opacity bufs"
| "assignValue e smp A_angle index bufs = assignAngleValue smp index bufs"
| "assignValue e smp A_params index bufs = assignParamsValue e smp index bufs"
| "assignValue e smp A_orbit index bufs = assignOrbitValue e smp index bufs"
| "assignValue e smp A_rotation index bufs = assignRotationValue e smp index bufs"
| "assignValue e smp A_color index bufs = assignColorValue smp index bufs"
| "assignValue e smp A_orbitCenter index bufs = bufs"

definition updateAttributeUpdateRange :: "key \<Rightarrow> real \<Rightarrow> emitter \<Rightarrow> emitter" where
  "updateAttributeUpdateRange attr i e =
     (case bufferUpdateRanges e attr of
        (mn, mx) \<Rightarrow>
          e\<lparr>bufferUpdateRanges := (bufferUpdateRanges e)(attr := (jmin (Val i) mn, jmax (Val i) mx))\<rparr>)"

text \<open>
  One pass of the loop of \<^verbatim>\<open>_resetParticle\<close> for one key, and the loop itself,
  which goes through the keys from the last to the first.
\<close>

definition resetParticleKey :: "sampler \<Rightarrow> real \<Rightarrow> key \<Rightarrow> emitter \<times> buffers \<Rightarrow> emitter \<times> buffers" where
  "resetParticleKey smp index k st =
     (case st of (e, bufs) \<Rightarrow>
        let updateFlag = updateFlags e k in
        if resetFlags e k \<or> updateFlag then
          let bufs' = assignValue e smp k index bufs;
              e1 = updateAttributeUpdateRange k index e;
              e2 = (if updateFlag \<and> updateCounts e1 k = particleCount e1 * 2
                    then e1\<lparr>updateFlags := (updateFlags e1)(k := False),
                            updateCounts := (updateCounts e1)(k := 0)\<rparr>
                    else if updateFlag
                    then e1\<lparr>updateCounts := (updateCounts e1)(k := updateCounts e1 k + 1)\<rparr>
                    else e1)
          in (e2, bufs')
        else (e, bufs))"

definition resetParticle :: "sampler \<Rightarrow> real \<Rightarrow> emitter \<times> buffers \<Rightarrow> emitter \<times> buffers" where
  "resetParticle smp index st =
     (case st of (e, bufs) \<Rightarrow> fold (resetParticleKey smp index) (rev (attributeKeys e)) (e, bufs))"

definition onRemove :: "emitter \<Rightarrow> emitter" where
  "onRemove e =
     e\<lparr>particlesPerSecond := Val 0, attributeOffset := 0, activationIndex := Val 0,
       activeParticleCount := 0, group := None, paramsArray := PNull, age := 0\<rparr>"

definition setParams :: "(jsnum list \<Rightarrow> jsnum list) \<Rightarrow> buffers \<Rightarrow> buffers" where
  "setParams f bufs = bufs(A_params := (bufs A_params)\<lparr>array := f (array (bufs A_params))\<rparr>)"

text \<open>The body of the loop of \<^verbatim>\<open>_checkParticleAges\<close> for the particle \<open>i\<close>.\<close>

definition checkParticleAge :: "real \<Rightarrow> int \<Rightarrow> emitter \<times> buffers \<Rightarrow> emitter \<times> buffers" where
  "checkParticleAge dt i st =
     (case st of (e, bufs) \<Rightarrow>
        let ps = array (bufs A_params);
            index = real_of_int (i * 4);
            alive0 = rd ps index
        in if alive0 = Val 0 then (e, bufs)
           else
             let age0 = rd ps (index + 1);
                 maxAge = rd ps (index + 2);
                 (age1, alive1, e1) =
                   (if direction e = 1 then
                      (let a = jadd age0 (Val dt) in
                       if jle maxAge a
                       then (Val 0, Val 0, e\<lparr>activeParticleCount := activeParticleCount e - 1\<rparr>)
                       else (a, alive0, e))
                    else
                      (let a = jsub age0 (Val dt) in
                       if jle a (Val 0)
                       then (maxAge, Val 0, e\<lparr>activeParticleCount := activeParticleCount e - 1\<rparr>)
                       else (a, alive0, e)))
             in (updateAttributeUpdateRange A_params (real_of_int i) e1,
                 setParams (\<lambda>xs. wr (wr xs index alive1) (index + 1) age1) bufs))"

definition checkParticleAges :: "int \<Rightarrow> int \<Rightarrow> real \<Rightarrow> emitter \<times> buffers \<Rightarrow> emitter \<times> buffers" where
  "checkParticleAges start end dt st = fold (checkParticleAge dt) (rev [start..end - 1]) st"

text \<open>The body of the loop of \<^verbatim>\<open>_activateParticles\<close> for the loop variable \<open>i\<close>.\<close>

definition activateParticle ::
  "sampler \<Rightarrow> real \<Rightarrow> real \<Rightarrow> real \<Rightarrow> emitter \<times> buffers \<Rightarrow> emitter \<times> buffers" where
  "activateParticle smp activationStart dtPerParticle i st =
     (case st of (e, bufs) \<Rightarrow>
        let index = i * 4 in
        if rd (array (bufs A_params)) index \<noteq> Val 0 \<and> particleCount e \<noteq> 1 then (e, bufs)
        else
          let e1 = e\<lparr>activeParticleCount := activeParticleCount e + 1\<rparr>;
              b1 = setParams (\<lambda>xs. wr xs index (Val 1)) bufs;
              (e2, b2) = resetParticle smp i (e1, b1);
              dtValue = dtPerParticle * (i - activationStart);
              b3 = setParams (\<lambda>xs. wr xs (index + 1)
                     (if direction e2 = - 1 then jsub (rd xs (index + 2)) (Val dtValue)
                      else Val dtValue)) b2
          in (updateAttributeUpdateRange A_params i e2, b3))"

function activateParticles ::
  "sampler \<Rightarrow> real \<Rightarrow> real \<Rightarrow> real \<Rightarrow> real \<Rightarrow> emitter \<times> buffers \<Rightarrow> emitter \<times> buffers" where
  "activateParticles smp activationStart dtPerParticle i aend st =
     (if i < aend
      then activateParticles smp activationStart dtPerParticle (i + 1) aend
             (activateParticle smp activationStart dtPerParticle i st)
      else st)"
  by pat_completeness auto
termination
proof (relation "measure (\<lambda>(smp, s, d, i, aend, st). nat \<lceil>aend - i\<rceil>)")
  show "wf (measure (\<lambda>(smp, s, d, i, aend, st). nat \<lceil>aend - i\<rceil>))" by simp
next
  fix smp :: sampler and activationStart dtPerParticle i aend :: real
    and st :: "emitter \<times> buffers"
  assume lt: "i < aend"
  have "aend - (i + 1) = (aend - i) - 1" by simp
  then have "\<lceil>aend - (i + 1)\<rceil> = \<lceil>aend - i\<rceil> - 1"
    by (simp only: ceiling_diff_one)
  moreover have "0 < \<lceil>aend - i\<rceil>" using lt by simp
  ultimately show "((smp, activationStart, dtPerParticle, i + 1, aend,
                     activateParticle smp activationStart dtPerParticle i st),
                    (smp, activationStart, dtPerParticle, i, aend, st))
                   \<in> measure (\<lambda>(smp, s, d, i, aend, st). nat \<lceil>aend - i\<rceil>)"
    by simp
qed

declare activateParticles.simps [simp del]

text \<open>
  \<^verbatim>\<open>x | 0\<close>: truncation towards zero, then the signed 32-bit residue; 0 for a
  value that is not finite.
\<close>

definition toInt32 :: "jsnum \<Rightarrow> int" where
  "toInt32 x =
     (case x of
        Val r \<Rightarrow>
          (let t = (if 0 \<le> r then \<lfloor>r\<rfloor> else \<lceil>r\<rceil>);
               m = t mod 4294967296
           in if 2147483648 \<le> m then m - 4294967296 else m)
      | _ \<Rightarrow> 0)"

text \<open>
  \<^verbatim>\<open>Emitter.tick\<close>, in the steps of its body. The argument \<open>attrs\<close> holds the typed
  arrays of \<^verbatim>\<open>this.attributes\<close>, \<open>None\<close> when \<^verbatim>\<open>this.attributes\<close> is \<^verbatim>\<open>null\<close>.

  \<open>fetchParamsArray\<close> is the assignment to \<^verbatim>\<open>this.paramsArray\<close>: the optional chain
  \<^verbatim>\<open>this.attributes?.params.typedArray.array\<close> is \<^verbatim>\<open>undefined\<close> when
  \<^verbatim>\<open>this.attributes\<close> is \<^verbatim>\<open>null\<close>. \<open>paramsOf\<close> is the array that \<^verbatim>\<open>params\<close> then
  refers to; with none, the first read \<^verbatim>\<open>params[index]\<close> in either loop throws a
  TypeError. An \<open>Inl\<close> result does not say in what state the exception leaves the
  objects.
\<close>

definition fetchParamsArray :: "emitter \<Rightarrow> buffers option \<Rightarrow> pref" where
  "fetchParamsArray e attrs =
     (if paramsArray e = PNull
      then (case attrs of None \<Rightarrow> PUndefined | Some _ \<Rightarrow> PCached)
      else paramsArray e)"

definition paramsOf :: "emitter \<Rightarrow> buffers option \<Rightarrow> buffers option" where
  "paramsOf e attrs = (if paramsArray e = PCached then attrs else None)"

text \<open>The call of \<^verbatim>\<open>_checkParticleAges\<close>; its loop body runs if there is a particle.\<close>

definition agesStep ::
  "real \<Rightarrow> emitter \<Rightarrow> buffers option \<Rightarrow> error + (emitter \<times> buffers option)" where
  "agesStep dt e attrs =
     (let start = attributeOffset e;
          end = start + int (particleCount e)
      in if particleCount e = 0 then Inr (e, attrs)
         else (case paramsOf e attrs of
                 None \<Rightarrow> Inl TypeError
               | Some bufs \<Rightarrow>
                   (case checkParticleAges start end dt (e, bufs) of
                      (e', bufs') \<Rightarrow> Inr (e', Some bufs'))))"

text \<open>
  The activation window and the call of \<^verbatim>\<open>_activateParticles\<close>. Its loop starts at
  \<open>activationStart\<close> and runs while \<open>i < activationEnd\<close>. A start that is not finite, or
  an end that is \<^verbatim>\<open>NaN\<close> or \<open>-Infinity\<close>, makes the test false at once. The end is the
  minimum of a number and the field \<open>activationEnd\<close>, so it is never \<open>+Infinity\<close>; if that
  field is \<^verbatim>\<open>undefined\<close> the minimum is \<^verbatim>\<open>NaN\<close>.
\<close>

definition activationStep ::
  "real \<Rightarrow> sampler \<Rightarrow> jsnum \<Rightarrow> emitter \<Rightarrow> buffers option \<Rightarrow> error + (emitter \<times> buffers option)" where
  "activationStep dt smp ppsDt e attrs =
     (let activationStart =
            (if particleCount e = 1 then activationIndex e
             else Val (real_of_int (toInt32 (activationIndex e))));
          activationEnd1 =
            (case activationEnd e of
               None \<Rightarrow> NaN
             | Some ae \<Rightarrow> jmin (jadd activationStart ppsDt) (Val (real_of_int ae)));
          activationCount = toInt32 (jsub activationEnd1 (activationIndex e));
          dtPerParticle = (if activationCount > 0 then dt / real_of_int activationCount else 0)
      in case (activationStart, activationEnd1) of
           (Val s, Val ae) \<Rightarrow>
             if s < ae then
               (case paramsOf e attrs of
                  None \<Rightarrow> Inl TypeError
                | Some bufs \<Rightarrow>
                    (case activateParticles smp s dtPerParticle s ae (e, bufs) of
                       (e', bufs') \<Rightarrow> Inr (e', Some bufs')))
             else Inr (e, attrs)
         | _ \<Rightarrow> Inr (e, attrs))"

text \<open>Moving the activation window forward, and the emitter's age.\<close>

definition advance :: "real \<Rightarrow> jsnum \<Rightarrow> int \<Rightarrow> int \<Rightarrow> emitter \<Rightarrow> emitter" where
  "advance dt ppsDt start end e =
     (let ai = jadd (activationIndex e) ppsDt;
          e' = e\<lparr>activationIndex :=
                   (if jlt (Val (real_of_int end)) ai then Val (real_of_int start) else ai)\<rparr>
      in e'\<lparr>age := age e' + dt\<rparr>)"

definition tick ::
  "real \<Rightarrow> sampler \<Rightarrow> emitter \<Rightarrow> buffers option \<Rightarrow> error + (emitter \<times> buffers option \<times> nat list)" where
  "tick dt smp e0 attrs =
     (if isStatic e0 then Inr (e0, attrs, [])
      else
        let e = e0\<lparr>paramsArray := fetchParamsArray e0 attrs\<rparr>;
            start = attributeOffset e;
            end = start + int (particleCount e);
            ppsDt = jscale (jscale (particlesPerSecond e) (activeMultiplier e)) dt
        in case agesStep dt e attrs of
             Inl err \<Rightarrow> Inl err
           | Inr (e1, attrs1) \<Rightarrow>
               if \<not> alive e1 then Inr (e1\<lparr>age := 0\<rparr>, attrs1, [])
               else if (case duration e1 of None \<Rightarrow> False | Some d \<Rightarrow> age e1 > d)
               then Inr (e1\<lparr>alive := False, age := 0\<rparr>, attrs1, onFinishCbs e1)
               else (case activationStep dt smp ppsDt e1 attrs1 of
                       Inl err \<Rightarrow> Inl err
                     | Inr (e2, attrs2) \<Rightarrow> Inr (advance dt ppsDt start end e2, attrs2, [])))"

definition enable :: "emitter \<Rightarrow> emitter" where
  "enable e = e\<lparr>alive := True\<rparr>"

definition disable :: "emitter \<Rightarrow> emitter" where
  "disable e = e\<lparr>alive := False\<rparr>"

text \<open>
  A caller's successive calls of \<^verbatim>\<open>tick\<close>, each with its time step and the values
  sampled during it; the callbacks fired are collected in order.
\<close>

fun ticks ::
  "(real \<times> sampler) list \<Rightarrow> emitter \<times> buffers option \<times> nat list
     \<Rightarrow> error + (emitter \<times> buffers option \<times> nat list)" where
  "ticks [] st = Inr st"
| "ticks ((dt, smp) # rest) (e, attrs, fired) =
     (case tick dt smp e attrs of
        Inl err \<Rightarrow> Inl err
      | Inr (e', attrs', f) \<Rightarrow> ticks rest (e', attrs', fired @ f))"

text \<open>
  The fields of the emitter that the particle loops (\<^verbatim>\<open>_checkParticleAges\<close>,
  \<^verbatim>\<open>_activateParticles\<close>, \<^verbatim>\<open>_resetParticle\<close>) never assign.
\<close>

definition scalars ::
  "emitter \<Rightarrow> (bool \<times> real \<times> real option \<times> nat list \<times> jsnum) \<times>
              (int \<times> nat \<times> bool \<times> int option \<times> jsnum \<times> real \<times> pref \<times> key list \<times> real)" where
  "scalars e =
     ((alive e, age e, duration e, onFinishCbs e, activationIndex e),
      (attributeOffset e, particleCount e, isStatic e, activationEnd e, particlesPerSecond e,
       activeMultiplier e, paramsArray e, attributeKeys e, direction e))"

subsection \<open>The constructor\<close>

text \<open>
  The options the constructor reads, as far as the model keeps the fields they set;
  \<open>None\<close> is an option left out. A uuid comes from \<^verbatim>\<open>MathUtils.generateUUID()\<close> and is
  an argument here. The channel objects made by \<^verbatim>\<open>_emitterStateFactory\<close> are kept by
  their values; their setters are not modelled.
\<close>

record channelOptions =
  c_value :: "orArray option"
  c_spread :: "orArray option"
  c_randomise :: "bool option"

record options =
  o_particleCount :: "nat option"
  o_duration :: "real option"
  o_isStatic :: "bool option"
  o_activeMultiplier :: "real option"
  o_direction :: "real option"
  o_alive :: "bool option"
  o_onFinish :: "nat option"
  o_maxAge_value :: "real option"
  o_maxAge_spread :: "real option"
  o_position_value :: "(real \<times> real \<times> real) option"
  o_position_randomise :: "bool option"
  o_radius_randomise :: "bool option"
  o_velocity_randomise :: "bool option"
  o_acceleration_randomise :: "bool option"
  o_drag_randomise :: "bool option"
  o_orbit_static :: "bool option"
  o_orbit_center :: "(real \<times> real \<times> real) option"
  o_orbit_randomise :: "bool option"
  o_rotation_static :: "bool option"
  o_rotation_randomise :: "bool option"
  o_color :: channelOptions
  o_opacity :: channelOptions
  o_size :: channelOptions
  o_angle :: channelOptions

definition orElse :: "'a option \<Rightarrow> 'a \<Rightarrow> 'a" where
  "orElse x d = (case x of None \<Rightarrow> d | Some v \<Rightarrow> v)"

definition channel :: "channelOptions \<Rightarrow> lval \<Rightarrow> lval \<Rightarrow> property" where
  "channel c v s = \<lparr>value = orElse (c_value c) (Single v), spread = orElse (c_spread c) (Single s)\<rparr>"

definition vec3_of :: "real \<times> real \<times> real \<Rightarrow> vec3" where
  "vec3_of v = (case v of (x, y, z) \<Rightarrow> (Val x, Val y, Val z))"

definition initialResetFlags :: "options \<Rightarrow> key \<Rightarrow> bool" where
  "initialResetFlags opts k =
     (case k of
        A_position \<Rightarrow> orElse (o_position_randomise opts) False \<or> orElse (o_radius_randomise opts) False
      | A_velocity \<Rightarrow> orElse (o_velocity_randomise opts) False
      | A_acceleration \<Rightarrow>
          orElse (o_acceleration_randomise opts) False \<or> orElse (o_drag_randomise opts) False
      | A_orbit \<Rightarrow> orElse (o_orbit_randomise opts) False
      | A_orbitCenter \<Rightarrow> orElse (o_orbit_randomise opts) False
      | A_rotation \<Rightarrow> orElse (o_rotation_randomise opts) False
      | A_size \<Rightarrow> orElse (c_randomise (o_size opts)) False
      | A_color \<Rightarrow> orElse (c_randomise (o_color opts)) False
      | A_opacity \<Rightarrow> orElse (c_randomise (o_opacity opts)) False
      | A_angle \<Rightarrow> orElse (c_randomise (o_angle opts)) False
      | A_params \<Rightarrow> False)"

text \<open>
  The constructor ends with the four calls of
  \<^verbatim>\<open>utils.ensureValueOverLifetimeCompliance\<close>, for colour, opacity, size and angle;
  an exception in one of them is an exception of the constructor.
\<close>

definition new_Emitter :: "string \<Rightarrow> options \<Rightarrow> error + (emitter \<times> diag list)" where
  "new_Emitter uid opts =
     (let n = valueOverLifetimeLength;
          position_value = orElse (o_position_value opts) (0, 0, 0)
      in case ensureValueOverLifetimeCompliance
                (channel (o_color opts) (Color 1 1 1) (Vector3 0 0 0)) n n of
           Inl err \<Rightarrow> Inl err
         | Inr (col, d1) \<Rightarrow>
        (case ensureValueOverLifetimeCompliance
                (channel (o_opacity opts) (Number 1) (Number 0)) n n of
           Inl err \<Rightarrow> Inl err
         | Inr (opa, d2) \<Rightarrow>
        (case ensureValueOverLifetimeCompliance
                (channel (o_size opts) (Number 1) (Number 0)) n n of
           Inl err \<Rightarrow> Inl err
         | Inr (siz, d3) \<Rightarrow>
        (case ensureValueOverLifetimeCompliance
                (channel (o_angle opts) (Number 0) (Number 0)) n n of
           Inl err \<Rightarrow> Inl err
         | Inr (ang, d4) \<Rightarrow>
             Inr (\<lparr>uuid = uid,
                   particleCount = orElse (o_particleCount opts) 100,
                   duration = o_duration opts,
                   isStatic = orElse (o_isStatic opts) False,
                   activeMultiplier = orElse (o_activeMultiplier opts) 1,
                   direction = orElse (o_direction opts) 1,
                   alive = orElse (o_alive opts) True,
                   particlesPerSecond = Val 0,
                   activationIndex = Val 0,
                   attributeOffset = 0,
                   activationEnd = None,
                   age = 0,
                   activeParticleCount = 0,
                   group = None,
                   paramsArray = PNull,
                   resetFlags = initialResetFlags opts,
                   updateFlags = (\<lambda>k. False),
                   updateCounts = (\<lambda>k. 0),
                   bufferUpdateRanges = (\<lambda>k. (PInf, NInf)),
                   attributeKeys = [],
                   onFinishCbs = (case o_onFinish opts of None \<Rightarrow> [] | Some f \<Rightarrow> [f]),
                   maxAge_value = orElse (o_maxAge_value opts) 2,
                   maxAge_spread = orElse (o_maxAge_spread opts) 0,
                   orbit_static = orElse (o_orbit_static opts) False,
                   orbit_center = vec3_of (orElse (o_orbit_center opts) position_value),
                   rotation_static = orElse (o_rotation_static opts) False,
                   color = col, opacity = opa, size_p = siz, angle = ang\<rparr>,
                  d1 @ d2 @ d3 @ d4)))))"

section \<open>EmitterGroup\<close>

text \<open>
  The group, without the material, the geometry and the shader defines, which belong
  to the renderer, and without the pool. \<open>particleCount_g\<close> is the group's
  \<^verbatim>\<open>particleCount\<close>.
\<close>

record EmitterGroup =
  uuid_g :: string
  fixedTimeStep :: real
  maxParticleCount :: "nat option"
  emitters :: "emitter list"
  emitterIDs :: "string list"
  particleCount_g :: int
  attributes :: "key \<Rightarrow> ShaderAttribute"
  attributesNeedRefresh :: bool
  attributesNeedDynamicReset :: bool

definition stride :: "key \<Rightarrow> nat" where
  "stride k =
     (case k of
        A_position \<Rightarrow> 3 | A_acceleration \<Rightarrow> 4 | A_velocity \<Rightarrow> 3 | A_orbit \<Rightarrow> 4
      | A_orbitCenter \<Rightarrow> 3 | A_params \<Rightarrow> 4 | A_size \<Rightarrow> 4 | A_angle \<Rightarrow> 4
      | A_color \<Rightarrow> 4 | A_opacity \<Rightarrow> 4 | A_rotation \<Rightarrow> 3)"

definition new_EmitterGroup :: "string \<Rightarrow> real option \<Rightarrow> nat option \<Rightarrow> EmitterGroup" where
  "new_EmitterGroup uid fts mx =
     \<lparr>uuid_g = uid, fixedTimeStep = orElse fts 0.016, maxParticleCount = mx,
      emitters = [], emitterIDs = [], particleCount_g = 0,
      attributes = (\<lambda>k. new_ShaderAttribute (stride k)),
      attributesNeedRefresh = False, attributesNeedDynamicReset = False\<rparr>"

text \<open>
  The argument of \<^verbatim>\<open>addEmitter\<close> and \<^verbatim>\<open>removeEmitter\<close>: an \<^verbatim>\<open>Emitter\<close>, some
  other object, or \<^verbatim>\<open>null\<close>/\<^verbatim>\<open>undefined\<close>.
\<close>

datatype arg = Nullish | OtherObject | AnEmitter emitter

text \<open>The loop over the attributes that calls \<^verbatim>\<open>createBufferAttribute\<close>.\<close>

fun createAll ::
  "int \<Rightarrow> key list \<Rightarrow> (key \<Rightarrow> ShaderAttribute) \<times> diag list
     \<Rightarrow> error + ((key \<Rightarrow> ShaderAttribute) \<times> diag list)" where
  "createAll sz [] st = Inr st"
| "createAll sz (k # ks) (attrs, ds) =
     (case createBufferAttribute sz (attrs k) of
        Inl err \<Rightarrow> Inl err
      | Inr (a, d) \<Rightarrow> createAll sz ks (attrs(k := a), ds @ d))"

text \<open>
  The typed arrays of the attributes, if every attribute has one, and putting them
  back.
\<close>

definition arraysOf :: "(key \<Rightarrow> ShaderAttribute) \<Rightarrow> buffers option" where
  "arraysOf attrs =
     (if list_all (\<lambda>k. typedArray (attrs k) \<noteq> None) allKeys
      then Some (\<lambda>k. the (typedArray (attrs k))) else None)"

definition setArrays :: "buffers \<Rightarrow> (key \<Rightarrow> ShaderAttribute) \<Rightarrow> key \<Rightarrow> ShaderAttribute" where
  "setArrays bufs attrs = (\<lambda>k. (attrs k)\<lparr>typedArray := Some (bufs k)\<rparr>)"

text \<open>The body of the loop of \<^verbatim>\<open>addEmitter\<close> that fills the slot \<open>i\<close>.\<close>

definition populate :: "emitter \<Rightarrow> sampler \<Rightarrow> int \<Rightarrow> buffers \<Rightarrow> buffers" where
  "populate e smp i bufs =
     (let x = real_of_int i;
          b1 = assignPositionValue smp x bufs;
          b2 = assignForceValue smp x A_velocity b1;
          b3 = assignForceValue smp x A_acceleration b2;
          b4 = assignAbsLifetimeValue smp x A_opacity b3;
          b5 = assignAbsLifetimeValue smp x A_size b4;
          b6 = assignAngleValue smp x b5;
          b7 = assignOrbitValue e smp x b6;
          b8 = assignRotationValue e smp x b7;
          b9 = assignParamsValue e smp x b8
      in assignColorValue smp x b9)"

text \<open>
  \<^verbatim>\<open>addEmitter\<close>. The result is the group, the argument as the call leaves it, and the
  diagnostics. After \<^verbatim>\<open>createBufferAttribute\<close> has run for every attribute each of
  them has its typed array, which the assignment routines then write to.
\<close>

definition addEmitter ::
  "sampler \<Rightarrow> arg \<Rightarrow> EmitterGroup \<Rightarrow> error + (EmitterGroup \<times> arg \<times> diag list)" where
  "addEmitter smp a g =
     (case a of
        Nullish \<Rightarrow> Inr (g, a, [ErrorNotAnEmitter])
      | OtherObject \<Rightarrow> Inr (g, a, [ErrorNotAnEmitter])
      | AnEmitter em \<Rightarrow>
          if uuid em \<in> set (emitterIDs g) then Inr (g, a, [ErrorAlreadyInThisGroup])
          else if group em \<noteq> None then Inr (g, a, [ErrorInAnotherGroup])
          else
            let start = particleCount_g g;
                end = start + int (particleCount em);
                warn = (case maxParticleCount g of
                          None \<Rightarrow> []
                        | Some m \<Rightarrow>
                            if end > int m then [WarnMaxParticleCountExceeded end m] else []);
                em1 = calculatePPSValue (maxAge_value em + maxAge_spread em) em;
                em2 = setBufferUpdateRanges allKeys em1;
                em3 = setAttributeOffset start em2;
                em4 = em3\<lparr>group := Some (uuid_g g)\<rparr>;
                sz = (case maxParticleCount g of None \<Rightarrow> end | Some m \<Rightarrow> int m)
            in case createAll sz allKeys (attributes g, warn) of
                 Inl err \<Rightarrow> Inl err
               | Inr (attrs, ds) \<Rightarrow>
                   (case arraysOf attrs of
                      None \<Rightarrow> Inl TypeError
                    | Some bufs \<Rightarrow>
                        Inr (g\<lparr>particleCount_g := end,
                               attributes := setArrays (fold (populate em4 smp) [start..end - 1] bufs) attrs,
                               emitters := emitters g @ [em4],
                               emitterIDs := emitterIDs g @ [uuid em4],
                               attributesNeedRefresh := True\<rparr>,
                             AnEmitter em4, ds)))"

text \<open>\<^verbatim>\<open>indexOf\<close>: the first position of an element, \<open>None\<close> for \<open>-1\<close>.\<close>

fun indexOf :: "'a \<Rightarrow> 'a list \<Rightarrow> nat option" where
  "indexOf x [] = None"
| "indexOf x (y # ys) = (if x = y then Some 0 else map_option Suc (indexOf x ys))"

text \<open>\<^verbatim>\<open>xs.splice(i, 1)\<close>.\<close>

definition removeAt :: "nat \<Rightarrow> 'a list \<Rightarrow> 'a list" where
  "removeAt i xs = take i xs @ drop (Suc i) xs"

text \<open>The loop over the attributes that splices every buffer but \<^verbatim>\<open>params\<close>.\<close>

fun spliceAll ::
  "int \<Rightarrow> int \<Rightarrow> key list \<Rightarrow> (key \<Rightarrow> ShaderAttribute) \<Rightarrow> error + (key \<Rightarrow> ShaderAttribute)" where
  "spliceAll start end [] attrs = Inr attrs"
| "spliceAll start end (k # ks) attrs =
     (if k = A_params then spliceAll start end ks attrs
      else case splice_attr start end (attrs k) of
             Inl err \<Rightarrow> Inl err
           | Inr a \<Rightarrow> spliceAll start end ks (attrs(k := a)))"

text \<open>
  \<^verbatim>\<open>removeEmitter\<close>. Reading \<^verbatim>\<open>emitter.uuid\<close> of \<^verbatim>\<open>null\<close> throws a TypeError, as
  does \<^verbatim>\<open>params.array\<close> in the loop when the params attribute has no typed array.
\<close>

definition killRange :: "int \<Rightarrow> int \<Rightarrow> jsnum list \<Rightarrow> jsnum list" where
  "killRange start end xs =
     fold (\<lambda>i ys. wr (wr ys (real_of_int (i * 4)) (Val 0)) (real_of_int (i * 4 + 1)) (Val 0))
       [start..end - 1] xs"

definition removeEmitter ::
  "arg \<Rightarrow> EmitterGroup \<Rightarrow> error + (EmitterGroup \<times> arg \<times> diag list)" where
  "removeEmitter a g =
     (case a of
        Nullish \<Rightarrow> Inl TypeError
      | OtherObject \<Rightarrow> Inr (g, a, [ErrorNotAnEmitter])
      | AnEmitter em \<Rightarrow>
          (case indexOf (uuid em) (emitterIDs g) of
             None \<Rightarrow> Inr (g, a, [ErrorNotInThisGroup])
           | Some emitterIndex \<Rightarrow>
               let start = attributeOffset em;
                   end = start + int (particleCount em)
               in case (if start < end
                        then (case typedArray (attributes g A_params) of
                                None \<Rightarrow> Inl TypeError
                              | Some h \<Rightarrow>
                                  Inr ((attributes g)(A_params := (attributes g A_params)
                                         \<lparr>typedArray := Some (h\<lparr>array := killRange start end (array h)\<rparr>)\<rparr>)))
                        else Inr (attributes g)) of
                    Inl err \<Rightarrow> Inl err
                  | Inr attrs1 \<Rightarrow>
                      (case spliceAll start end allKeys attrs1 of
                         Inl err \<Rightarrow> Inl err
                       | Inr attrs2 \<Rightarrow>
                           Inr (g\<lparr>emitters := removeAt emitterIndex (emitters g),
                                  emitterIDs := removeAt emitterIndex (emitterIDs g),
                                  attributes := attrs2,
                                  particleCount_g := particleCount_g g - int (particleCount em),
                                  attributesNeedRefresh := True\<rparr>,
                                AnEmitter (onRemove em), []))))"

section \<open>Notions used in the statements\<close>

text \<open>
  \<open>writeCells b vs\<close> writes the values \<open>vs\<close> to the cells \<open>b, b + 1, \<dots>\<close>, as
  \<^verbatim>\<open>setVec3Components\<close> and \<^verbatim>\<open>setVec4Components\<close> do from \<open>index * itemSize\<close>.
  \<open>cells h i\<close> is what can be read at the slot \<open>i\<close> of a helper, cell by cell:
  \<open>NaN\<close> stands for the \<^verbatim>\<open>undefined\<close> of a cell that does not exist.
  \<open>written e smp k i\<close> lists the values that the assignment routines write for the
  particle \<open>i\<close> into the buffer \<open>k\<close>, from the first cell of the slot on.
\<close>

fun writeCells :: "real \<Rightarrow> jsnum list \<Rightarrow> jsnum list \<Rightarrow> jsnum list" where
  "writeCells b [] xs = xs"
| "writeCells b (v # vs) xs = writeCells (b + 1) vs (wr xs b v)"

definition cells :: "Float32ArrayHelper \<Rightarrow> int \<Rightarrow> jsnum list" where
  "cells h i =
     map (\<lambda>j. rd (array h) (real_of_int (i * int (itemSize_h h) + int j))) [0..<itemSize_h h]"

definition list3 :: "vec3 \<Rightarrow> jsnum list" where
  "list3 v = (case v of (x, y, z) \<Rightarrow> [x, y, z])"

definition list4 :: "vec4 \<Rightarrow> jsnum list" where
  "list4 v = (case v of (x, y, z, w) \<Rightarrow> [x, y, z, w])"

definition written :: "emitter \<Rightarrow> sampler \<Rightarrow> key \<Rightarrow> int \<Rightarrow> jsnum list" where
  "written e smp k i =
     (let s = smp (real_of_int i) in
      case k of
        A_position \<Rightarrow> list3 (s_position s)
      | A_velocity \<Rightarrow> list3 (s_velocity s)
      | A_acceleration \<Rightarrow> list3 (s_acceleration s) @ [s_drag s]
      | A_opacity \<Rightarrow> list4 (s_opacity s)
      | A_size \<Rightarrow> list4 (s_size s)
      | A_angle \<Rightarrow> list4 (s_angle s)
      | A_orbit \<Rightarrow> [s_orbitAxis s, s_orbitAngle s, Val (if orbit_static e then 0 else 1)]
      | A_orbitCenter \<Rightarrow> list3 (orbit_center e)
      | A_rotation \<Rightarrow> [s_rotationAxis s, s_rotationAngle s, Val (if rotation_static e then 1 else 0)]
      | A_params \<Rightarrow> [Val (if isStatic e then 1 else 0), Val 0, s_maxAge s, s_wiggle s]
      | A_color \<Rightarrow> list4 (s_color s))"

text \<open>
  A value or spread is \<open>usable\<close> if, as an array, it is not empty and its first and
  last elements are defined. \<open>lengthsOf\<close> gives the lengths of a channel's two arrays.
\<close>

definition usable :: "orArray \<Rightarrow> bool" where
  "usable v \<longleftrightarrow> asArray v \<noteq> [] \<and> hd (asArray v) \<noteq> Undefined \<and> last (asArray v) \<noteq> Undefined"

definition usableChannel :: "channelOptions \<Rightarrow> bool" where
  "usableChannel c \<longleftrightarrow>
     (case c_value c of None \<Rightarrow> True | Some v \<Rightarrow> usable v) \<and>
     (case c_spread c of None \<Rightarrow> True | Some v \<Rightarrow> usable v)"

definition lengthsOf :: "property \<Rightarrow> nat \<times> nat" where
  "lengthsOf p = (length (asArray (value p)), length (asArray (spread p)))"

text \<open>
  \<open>slotOf g k i\<close> is what can be read at the slot \<open>i\<close> of the buffer \<open>k\<close> of a group and
  \<open>bufferLength g k\<close> the number of cells of that buffer. \<open>sizedFor C g\<close> says that the
  buffers of the group are not yet created or hold exactly \<open>C\<close> slots, as
  \<^verbatim>\<open>createBufferAttribute(C)\<close> makes them (with the \<^verbatim>\<open>size\<close> field at the element
  count, or at the component count after a resize). \<open>joined g e\<close> is the emitter \<open>e\<close>
  as \<^verbatim>\<open>addEmitter\<close> of the group \<open>g\<close> leaves it.
\<close>

definition slotOf :: "EmitterGroup \<Rightarrow> key \<Rightarrow> int \<Rightarrow> jsnum list" where
  "slotOf g k i = (case typedArray (attributes g k) of None \<Rightarrow> [] | Some h \<Rightarrow> cells h i)"

definition bufferLength :: "EmitterGroup \<Rightarrow> key \<Rightarrow> nat" where
  "bufferLength g k = (case typedArray (attributes g k) of None \<Rightarrow> 0 | Some h \<Rightarrow> length (array h))"

definition sizedAttr :: "nat \<Rightarrow> key \<Rightarrow> ShaderAttribute \<Rightarrow> bool" where
  "sizedAttr C k a \<longleftrightarrow>
     itemSize a = stride k \<and>
     (case typedArray a of
        None \<Rightarrow> bufferAttribute a = None
      | Some h \<Rightarrow>
          itemSize_h h = stride k \<and> length (array h) = C * stride k \<and>
          (size_h h = int C \<or> size_h h = int (C * stride k)))"

definition sizedFor :: "nat \<Rightarrow> EmitterGroup \<Rightarrow> bool" where
  "sizedFor C g \<longleftrightarrow> list_all (\<lambda>k. sizedAttr C k (attributes g k)) allKeys"

definition joined :: "EmitterGroup \<Rightarrow> emitter \<Rightarrow> emitter" where
  "joined g e =
     (setAttributeOffset (particleCount_g g)
        (setBufferUpdateRanges allKeys
           (calculatePPSValue (maxAge_value e + maxAge_spread e) e)))\<lparr>group := Some (uuid_g g)\<rparr>"

text \<open>The typed array of an attribute after \<^verbatim>\<open>createBufferAttribute(C)\<close>: a new one of zeros, or the one it had.\<close>

definition created :: "nat \<Rightarrow> key \<Rightarrow> ShaderAttribute \<Rightarrow> Float32ArrayHelper" where
  "created C k a =
     (case typedArray a of
        None \<Rightarrow> \<lparr>size_h = int C, array = replicate (C * stride k) (Val 0), itemSize_h = stride k\<rparr>
      | Some h \<Rightarrow> h)"

section \<open>Example scenes\<close>

text \<open>
  Options that give the particle count and nothing else, and the emitter that the
  constructor makes of them. \<open>indexSample\<close> stands for a run of the random routines
  that gives, for the particle \<open>i\<close>, the number \<open>i\<close> in every component, so that the slot
  a value was written for can be read off the value.
\<close>

definition noChannel :: channelOptions where
  "noChannel = \<lparr>c_value = None, c_spread = None, c_randomise = None\<rparr>"

definition plainOptions :: "nat \<Rightarrow> options" where
  "plainOptions n =
     \<lparr>o_particleCount = Some n, o_duration = None, o_isStatic = None,
      o_activeMultiplier = None, o_direction = None, o_alive = None, o_onFinish = None,
      o_maxAge_value = None, o_maxAge_spread = None, o_position_value = None,
      o_position_randomise = None, o_radius_randomise = None, o_velocity_randomise = None,
      o_acceleration_randomise = None, o_drag_randomise = None, o_orbit_static = None,
      o_orbit_center = None, o_orbit_randomise = None, o_rotation_static = None,
      o_rotation_randomise = None, o_color = noChannel, o_opacity = noChannel,
      o_size = noChannel, o_angle = noChannel\<rparr>"

definition plainEmitter :: "string \<Rightarrow> nat \<Rightarrow> emitter" where
  "plainEmitter uid n =
     \<lparr>uuid = uid, particleCount = n, duration = None, isStatic = False,
      activeMultiplier = 1, direction = 1, alive = True,
      particlesPerSecond = Val 0, activationIndex = Val 0, attributeOffset = 0,
      activationEnd = None, age = 0, activeParticleCount = 0, group = None,
      paramsArray = PNull, resetFlags = initialResetFlags (plainOptions n),
      updateFlags = (\<lambda>k. False), updateCounts = (\<lambda>k. 0),
      bufferUpdateRanges = (\<lambda>k. (PInf, NInf)), attributeKeys = [], onFinishCbs = [],
      maxAge_value = 2, maxAge_spread = 0, orbit_static = False,
      orbit_center = (Val 0, Val 0, Val 0), rotation_static = False,
      color = \<lparr>value = Arr [Color 1 1 1, Color 1 1 1, Color 1 1 1, Color 1 1 1],
               spread = Arr [Vector3 0 0 0, Vector3 0 0 0, Vector3 0 0 0, Vector3 0 0 0]\<rparr>,
      opacity = \<lparr>value = Arr [Number 1, Number 1, Number 1, Number 1],
                 spread = Arr [Number 0, Number 0, Number 0, Number 0]\<rparr>,
      size_p = \<lparr>value = Arr [Number 1, Number 1, Number 1, Number 1],
                spread = Arr [Number 0, Number 0, Number 0, Number 0]\<rparr>,
      angle = \<lparr>value = Arr [Number 0, Number 0, Number 0, Number 0],
               spread = Arr [Number 0, Number 0, Number 0, Number 0]\<rparr>\<rparr>"

definition indexSample :: sampler where
  "indexSample x =
     \<lparr>s_position = (Val x, Val x, Val x), s_velocity = (Val x, Val x, Val x),
      s_acceleration = (Val x, Val x, Val x), s_drag = Val x,
      s_opacity = (Val x, Val x, Val x, Val x), s_size = (Val x, Val x, Val x, Val x),
      s_angle = (Val x, Val x, Val x, Val x), s_orbitAxis = Val x, s_orbitAngle = Val x,
      s_rotationAxis = Val x, s_rotationAngle = Val x, s_maxAge = Val x, s_wiggle = Val x,
      s_color = (Val x, Val x, Val x, Val x)\<rparr>"

text \<open>
  The group after a call of \<^verbatim>\<open>addEmitter\<close> or \<^verbatim>\<open>removeEmitter\<close> (the group as it was
  if the call throws), and the scenes of the specification: a group declared for 10
  particles, with an emitter of 5 particles, with a second one of 5, then either with
  a third one of a single particle or with the first one removed again.
\<close>

definition after ::
  "(EmitterGroup \<Rightarrow> error + (EmitterGroup \<times> arg \<times> diag list)) \<Rightarrow> EmitterGroup \<Rightarrow> EmitterGroup" where
  "after call g = (case call g of Inl err \<Rightarrow> g | Inr (g', a, d) \<Rightarrow> g')"

definition sceneEmpty :: EmitterGroup where
  "sceneEmpty = new_EmitterGroup ''group'' None (Some 10)"

definition sceneA :: EmitterGroup where
  "sceneA = after (addEmitter indexSample (AnEmitter (plainEmitter ''a'' 5))) sceneEmpty"

definition sceneAB :: EmitterGroup where
  "sceneAB = after (addEmitter indexSample (AnEmitter (plainEmitter ''b'' 5))) sceneA"

definition sceneABC :: EmitterGroup where
  "sceneABC = after (addEmitter indexSample (AnEmitter (plainEmitter ''c'' 1))) sceneAB"

definition sceneB :: EmitterGroup where
  "sceneB = after (removeEmitter (AnEmitter (joined sceneEmpty (plainEmitter ''a'' 5)))) sceneAB"

text \<open>Buffers without a slot, and the cursor of the emitter that a call of \<^verbatim>\<open>tick\<close> returns.\<close>

definition noSlots :: buffers where
  "noSlots k = \<lparr>size_h = 0, array = [], itemSize_h = stride k\<rparr>"

definition cursorAfter :: "error + (emitter \<times> buffers option \<times> nat list) \<Rightarrow> jsnum option" where
  "cursorAfter r = (case r of Inl err \<Rightarrow> None | Inr (e, b, f) \<Rightarrow> Some (activationIndex e))"

text \<open>
  An emitter whose \<^verbatim>\<open>activeMultiplier\<close> option is \<open>-1\<close>, and the group declared for 10
  particles with this emitter as its only member.
\<close>

definition backwardsEmitter :: emitter where
  "backwardsEmitter = (plainEmitter ''a'' 5)\<lparr>activeMultiplier := - 1\<rparr>"

definition sceneBackwards :: EmitterGroup where
  "sceneBackwards = after (addEmitter indexSample (AnEmitter backwardsEmitter)) sceneEmpty"

section \<open>Verification\<close>

lemma spliceData_upto:
  "start \<le> end \<Longrightarrow> n \<le> length xs \<Longrightarrow>
   fold (\<lambda>i data. if i < start \<or> i \<ge> end then data @ [xs ! i] else data) [0..<n] []
     = take (min start n) xs @ drop end (take n xs)"
proof (induction n)
  case 0
  then show ?case by simp
next
  case (Suc n)
  then have n: "n < length xs" by simp
  have tk: "take (Suc n) xs = take n xs @ [xs ! n]"
    using n by (simp add: take_Suc_conv_app_nth)
  have ih: "fold (\<lambda>i data. if i < start \<or> i \<ge> end then data @ [xs ! i] else data) [0..<n] []
     = take (min start n) xs @ drop end (take n xs)"
    using Suc by simp
  show ?case
  proof (cases "n < start")
    case True
    then have "min start (Suc n) = Suc n" "min start n = n" "end \<ge> n" "end > n"
      using Suc.prems by simp_all
    then show ?thesis using True n by (simp add: ih tk)
  next
    case False
    then show ?thesis using Suc.prems n by (simp add: ih tk min_def)
  qed
qed

lemma spliceData_eq:
  "start \<le> end \<Longrightarrow> spliceData (int start) (int end) xs = take start xs @ drop end xs"
  using spliceData_upto [of start "end" "length xs" xs]
  by (simp add: spliceData_def min_def)

subsection \<open>Float32ArrayHelper.splice\<close>

lemma cut_length:
  "a \<le> b \<Longrightarrow> b \<le> length xs \<Longrightarrow> length (take a xs @ drop b xs) = a + (length xs - b)"
  by simp

lemma cut_nth_front:
  "a \<le> b \<Longrightarrow> b \<le> length xs \<Longrightarrow> j < a \<Longrightarrow> (take a xs @ drop b xs) ! j = xs ! j"
  by (simp add: nth_append)

lemma cut_nth_back:
  assumes "a \<le> b" "b \<le> length xs" "b \<le> j" "j < length xs"
  shows "(take a xs @ drop b xs) ! (j - (b - a)) = xs ! j"
proof -
  have la: "length (take a xs) = a" using assms by simp
  have "j - (b - a) = length (take a xs) + (j - b)" using assms la by simp
  then have "(take a xs @ drop b xs) ! (j - (b - a)) = drop b xs ! (j - b)"
    by (simp only: nth_append_length_plus)
  then show ?thesis using assms by simp
qed

lemma setFromArray_fits:
  "length d \<le> length (array h) \<Longrightarrow>
   \<exists>h'. setFromArray 0 d h = Inr h' \<and> array h' = d \<and> itemSize_h h' = itemSize_h h"
  by (auto simp add: setFromArray_def shrink_def Let_def)

lemma setFromArray_cut:
  assumes ab: "a \<le> b"
  shows "\<exists>h'. setFromArray 0 (take a (array h) @ drop b (array h)) h = Inr h'
           \<and> array h' = take a (array h) @ drop b (array h)
           \<and> itemSize_h h' = itemSize_h h"
proof -
  have "length (take a (array h) @ drop b (array h)) \<le> length (array h)"
    using ab by simp
  then show ?thesis by (rule setFromArray_fits)
qed

lemma splice_cut:
  assumes se: "start \<le> end"
  shows "\<exists>h'. splice (int start) (int end) h = Inr h'
           \<and> array h' = take (start * itemSize_h h) (array h) @ drop (end * itemSize_h h) (array h)
           \<and> itemSize_h h' = itemSize_h h"
proof -
  define k where "k = itemSize_h h"
  define a where "a = start * k"
  define b where "b = end * k"
  have ab: "a \<le> b" unfolding a_def b_def using se by (rule mult_le_mono1)
  have d: "spliceData (int a) (int b) (array h) = take a (array h) @ drop b (array h)"
    using ab by (rule spliceData_eq)
  have i: "int start * int k = int a" "int end * int k = int b"
    by (simp_all add: a_def b_def)
  show ?thesis
    using setFromArray_cut [OF ab, of h] d i
    unfolding splice_def k_def [symmetric] a_def [symmetric] b_def [symmetric]
    by (simp del: of_nat_mult)
qed

text \<open>
  C6. \<^verbatim>\<open>splice(start, end)\<close> on a helper of item size \<open>k\<close> holding \<open>n\<close> elements, with
  \<open>0 \<le> start \<le> end \<le> n\<close>, succeeds; the cells before \<open>start * k\<close> keep value and
  position, the cells from \<open>end * k\<close> on follow them directly in the same order, and the
  storage has exactly \<open>(n - (end - start)) * k\<close> cells.
\<close>

theorem splice_removes_range:
  assumes len: "length (array h) = n * itemSize_h h"
    and se: "start \<le> end" and en: "end \<le> n"
  shows "\<exists>h'. splice (int start) (int end) h = Inr h'
           \<and> length (array h') = (n - (end - start)) * itemSize_h h
           \<and> (\<forall>j < start * itemSize_h h. array h' ! j = array h ! j)
           \<and> (\<forall>j. end * itemSize_h h \<le> j \<and> j < n * itemSize_h h \<longrightarrow>
                  array h' ! (j - (end - start) * itemSize_h h) = array h ! j)
           \<and> array h' = take (start * itemSize_h h) (array h) @ drop (end * itemSize_h h) (array h)"
proof -
  define k where "k = itemSize_h h"
  define a where "a = start * k"
  define b where "b = end * k"
  have ab: "a \<le> b" unfolding a_def b_def using se by (rule mult_le_mono1)
  have "end * k \<le> n * k" using en by (rule mult_le_mono1)
  then have bl: "b \<le> length (array h)" unfolding b_def using len k_def by simp
  obtain h' where r': "splice (int start) (int end) h = Inr h'"
    and arr: "array h' = take a (array h) @ drop b (array h)"
    using splice_cut [OF se] unfolding a_def b_def k_def by blast
  have ba: "b - a = (end - start) * k"
    unfolding a_def b_def by (simp add: diff_mult_distrib)
  have "length (array h') = a + (length (array h) - b)"
    unfolding arr using ab bl by (rule cut_length)
  also have "\<dots> = length (array h) - (b - a)" using ab bl by simp
  also have "\<dots> = n * k - (end - start) * k" using len ba k_def by simp
  also have "\<dots> = (n - (end - start)) * k" by (simp add: diff_mult_distrib)
  finally have l: "length (array h') = (n - (end - start)) * k" .
  have p: "\<forall>j < a. array h' ! j = array h ! j"
    unfolding arr using cut_nth_front [OF ab bl] by blast
  have q: "\<forall>j. b \<le> j \<and> j < n * k \<longrightarrow> array h' ! (j - (end - start) * k) = array h ! j"
    unfolding arr using cut_nth_back [OF ab bl] len ba k_def by metis
  show ?thesis
    using r' l p q arr unfolding a_def b_def k_def by blast
qed

theorem splice_removes_range_witness:
  "\<exists>h'. splice (int 1) (int 2)
           \<lparr>size_h = 3, array = [Val 1, Val 2, Val 3, Val 4, Val 5, Val 6], itemSize_h = 2\<rparr> = Inr h'
     \<and> array h' = [Val 1, Val 2, Val 5, Val 6]"
  using splice_removes_range
    [of "\<lparr>size_h = 3, array = [Val 1, Val 2, Val 3, Val 4, Val 5, Val 6], itemSize_h = 2\<rparr>" 3 1 2]
  by auto

subsection \<open>Float32ArrayHelper.setSize\<close>

text \<open>
  C7. For a helper holding \<open>n\<close> elements, \<^verbatim>\<open>setSize(m)\<close> with \<open>m > n\<close> keeps the cells
  and appends zeros; \<^verbatim>\<open>setSize(n)\<close> afterwards gives back exactly the original cells;
  \<^verbatim>\<open>setSize(n)\<close> on the original helper changes nothing and reports the diagnostic.
\<close>

theorem setSize_grow_shrink_roundtrip:
  assumes len: "length (array h) = n * itemSize_h h" and mn: "n < m"
  shows "\<exists>h1 d1 h2 d2.
           setSize (int m) h = Inr (h1, d1)
         \<and> array h1 = array h @ replicate ((m - n) * itemSize_h h) (Val 0)
         \<and> setSize (int n) h1 = Inr (h2, d2)
         \<and> array h2 = array h
         \<and> setSize (int n) h = Inr (h, [InfoAlreadyOfSize (int (n * itemSize_h h))])"
proof -
  let ?k = "itemSize_h h"
  have same: "setSize (int n) h = Inr (h, [InfoAlreadyOfSize (int (n * ?k))])"
    using len by (simp add: setSize_def Let_def)
  show ?thesis
  proof (cases "?k = 0")
    case True
    then have "setSize (int m) h = Inr (h, [InfoAlreadyOfSize 0])"
      using len by (simp add: setSize_def Let_def)
    moreover have "array h = array h @ replicate ((m - n) * ?k) (Val 0)"
      using True by simp
    ultimately show ?thesis using same True by auto
  next
    case False
    then have lt: "n * ?k < m * ?k" using mn by simp
    define h1 where "h1 = h\<lparr>array := array h @ replicate (m * ?k - n * ?k) (Val 0),
                             size_h := int (m * ?k)\<rparr>"
    have nm: "nat (int m * int ?k) = m * ?k"
      by (simp add: nat_mult_distrib)
    have g: "setSize (int m) h = Inr (h1, [])"
      using len lt by (simp add: setSize_def Let_def grow_def h1_def nm)
    have a1: "array h1 = array h @ replicate ((m - n) * ?k) (Val 0)"
      by (simp add: h1_def diff_mult_distrib)
    have k1: "itemSize_h h1 = ?k" by (simp add: h1_def)
    have l1: "length (array h1) = m * ?k"
      using len lt by (simp add: h1_def)
    have s: "setSize (int n) h1 = Inr (shrink (int (n * ?k)) h1, [])"
      using l1 k1 lt by (simp add: setSize_def Let_def)
    have a2: "array (shrink (int (n * ?k)) h1) = array h"
      using len by (simp add: shrink_def h1_def del: of_nat_mult)
    show ?thesis using g a1 s a2 same by blast
  qed
qed

theorem setSize_grow_shrink_roundtrip_witness:
  "\<exists>h1 d1 h2 d2.
      setSize (int 3) \<lparr>size_h = 2, array = [Val 7, Val 8, Val 9, Val 10], itemSize_h = 2\<rparr> = Inr (h1, d1)
    \<and> array h1 = [Val 7, Val 8, Val 9, Val 10, Val 0, Val 0]
    \<and> setSize (int 2) h1 = Inr (h2, d2)
    \<and> array h2 = [Val 7, Val 8, Val 9, Val 10]"
  using setSize_grow_shrink_roundtrip
    [of "\<lparr>size_h = 2, array = [Val 7, Val 8, Val 9, Val 10], itemSize_h = 2\<rparr>" 2 3]
  by (auto simp add: numeral_2_eq_2)

subsection \<open>ShaderAttribute update range\<close>

text \<open>
  C1. On an attribute of stride 4, after \<^verbatim>\<open>resetUpdateRange()\<close> the call
  \<^verbatim>\<open>setUpdateRange(2, 3)\<close> leaves the range \<open>[0, 12]\<close>, not \<open>[8, 12]\<close>, and a second
  call \<^verbatim>\<open>setUpdateRange(1, 1)\<close> leaves \<open>[0, 48]\<close>, not \<open>[4, 12]\<close>: the minimum is taken
  against the reset value 0 and the bounds already scaled are scaled again.
\<close>

theorem setUpdateRange_rescales_running_range:
  "updateMin (setUpdateRange (Val 2) (Val 3) (resetUpdateRange (new_ShaderAttribute 4))) = Val 0
 \<and> updateMax (setUpdateRange (Val 2) (Val 3) (resetUpdateRange (new_ShaderAttribute 4))) = Val 12
 \<and> updateMin (setUpdateRange (Val 1) (Val 1)
      (setUpdateRange (Val 2) (Val 3) (resetUpdateRange (new_ShaderAttribute 4)))) = Val 0
 \<and> updateMax (setUpdateRange (Val 1) (Val 1)
      (setUpdateRange (Val 2) (Val 3) (resetUpdateRange (new_ShaderAttribute 4)))) = Val 48"
  by (simp add: setUpdateRange_def resetUpdateRange_def new_ShaderAttribute_def)

subsection \<open>Emitter.tick: what the particle loops leave alone\<close>

lemma scalars_updateAttributeUpdateRange [simp]:
  "scalars (updateAttributeUpdateRange k i e) = scalars e"
  by (simp add: updateAttributeUpdateRange_def scalars_def split: prod.splits)

lemma scalars_activeParticleCount [simp]:
  "scalars (e\<lparr>activeParticleCount := n\<rparr>) = scalars e"
  by (simp add: scalars_def)

lemma scalars_checkParticleAge:
  "scalars (fst (checkParticleAge dt i st)) = scalars (fst st)"
  by (cases st) (simp add: checkParticleAge_def Let_def split: prod.splits if_splits)

lemma scalars_fold:
  assumes "\<And>x st. scalars (fst (f x st)) = scalars (fst st)"
  shows "scalars (fst (fold f xs st)) = scalars (fst st)"
  using assms by (induction xs arbitrary: st) simp_all

lemma scalars_checkParticleAges:
  "scalars (fst (checkParticleAges start end dt st)) = scalars (fst st)"
  unfolding checkParticleAges_def by (rule scalars_fold) (rule scalars_checkParticleAge)

lemma scalars_updateFlags [simp]:
  "scalars (e\<lparr>updateFlags := uf\<rparr>) = scalars e"
  by (simp add: scalars_def)

lemma scalars_updateCounts [simp]:
  "scalars (e\<lparr>updateCounts := uc\<rparr>) = scalars e"
  by (simp add: scalars_def)

lemma scalars_resetParticleKey:
  "scalars (fst (resetParticleKey smp index k st)) = scalars (fst st)"
  by (cases st) (simp add: resetParticleKey_def Let_def)

lemma scalars_resetParticle:
  "scalars (fst (resetParticle smp index st)) = scalars (fst st)"
proof (cases st)
  case (Pair e bufs)
  have "scalars (fst (fold (resetParticleKey smp index) (rev (attributeKeys e)) (e, bufs)))
          = scalars (fst (e, bufs))"
    by (rule scalars_fold) (rule scalars_resetParticleKey)
  then show ?thesis using Pair by (simp add: resetParticle_def)
qed

lemma scalars_activateParticle:
  "scalars (fst (activateParticle smp s d i st)) = scalars (fst st)"
proof (cases st)
  case (Pair e bufs)
  show ?thesis
  proof (cases "rd (array (bufs A_params)) (i * 4) \<noteq> Val 0 \<and> particleCount e \<noteq> 1")
    case True
    then show ?thesis using Pair by (simp add: activateParticle_def Let_def)
  next
    case False
    obtain e2 b2 where r: "resetParticle smp i
        (e\<lparr>activeParticleCount := activeParticleCount e + 1\<rparr>,
         setParams (\<lambda>xs. wr xs (i * 4) (Val 1)) bufs) = (e2, b2)"
      by (cases "resetParticle smp i
        (e\<lparr>activeParticleCount := activeParticleCount e + 1\<rparr>,
         setParams (\<lambda>xs. wr xs (i * 4) (Val 1)) bufs)") blast
    have "scalars e2 = scalars e"
      using scalars_resetParticle [of smp i
        "(e\<lparr>activeParticleCount := activeParticleCount e + 1\<rparr>,
          setParams (\<lambda>xs. wr xs (i * 4) (Val 1)) bufs)"] r by simp
    then show ?thesis
      using Pair False r by (simp add: activateParticle_def Let_def)
  qed
qed

lemma scalars_activateParticles:
  "scalars (fst (activateParticles smp s d i aend st)) = scalars (fst st)"
proof (induction smp s d i aend st rule: activateParticles.induct)
  case (1 smp s d i aend st)
  show ?case
  proof (cases "i < aend")
    case True
    then show ?thesis
      using "1.IH" [OF True] scalars_activateParticle [of smp s d i st]
      by (simp add: activateParticles.simps [of smp s d i aend st])
  next
    case False
    then show ?thesis by (simp add: activateParticles.simps [of smp s d i aend st])
  qed
qed

lemma scalarsD:
  assumes "scalars a = scalars b"
  shows "alive a = alive b" "age a = age b" "duration a = duration b"
    "onFinishCbs a = onFinishCbs b" "activationIndex a = activationIndex b"
    "attributeOffset a = attributeOffset b" "particleCount a = particleCount b"
    "isStatic a = isStatic b" "activationEnd a = activationEnd b"
    "particlesPerSecond a = particlesPerSecond b" "activeMultiplier a = activeMultiplier b"
    "paramsArray a = paramsArray b"
  using assms by (simp_all add: scalars_def)

lemma fetch_member:
  "paramsArray e \<noteq> PUndefined \<Longrightarrow> fetchParamsArray e (Some bufs) = PCached"
  by (cases "paramsArray e") (simp_all add: fetchParamsArray_def)

lemma agesStep_member:
  assumes "paramsArray e = PCached"
  shows "\<exists>e1 b1. agesStep dt e (Some bufs) = Inr (e1, Some b1) \<and> scalars e1 = scalars e"
proof (cases "particleCount e = 0")
  case True
  then show ?thesis by (simp add: agesStep_def)
next
  case False
  obtain e1 b1 where c: "checkParticleAges (attributeOffset e) (attributeOffset e + int (particleCount e)) dt (e, bufs) = (e1, b1)"
    by (cases "checkParticleAges (attributeOffset e) (attributeOffset e + int (particleCount e)) dt (e, bufs)") blast
  have "scalars e1 = scalars e"
    using scalars_checkParticleAges [of "attributeOffset e" "attributeOffset e + int (particleCount e)" dt "(e, bufs)"] c
    by simp
  then show ?thesis using False assms c by (simp add: agesStep_def paramsOf_def Let_def)
qed

lemma activationStep_member:
  assumes "paramsArray e = PCached"
  shows "\<exists>e2 b2. activationStep dt smp ppsDt e (Some bufs) = Inr (e2, Some b2) \<and> scalars e2 = scalars e"
proof -
  have act: "\<exists>e2 b2. (case activateParticles smp s d s ae (e, bufs) of
                       (e', bufs') \<Rightarrow> Inr (e', Some bufs')) = (Inr (e2, Some b2) :: error + (emitter \<times> buffers option))
                \<and> scalars e2 = scalars e" for s d ae
  proof -
    obtain e2 b2 where a: "activateParticles smp s d s ae (e, bufs) = (e2, b2)"
      by (cases "activateParticles smp s d s ae (e, bufs)") blast
    have "scalars e2 = scalars e"
      using scalars_activateParticles [of smp s d s ae "(e, bufs)"] a by simp
    then show ?thesis using a by simp
  qed
  show ?thesis
    unfolding activationStep_def Let_def paramsOf_def
    using assms act by (simp split: jsnum.splits)
qed

text \<open>The three outcomes of a tick of a non-static member.\<close>

lemma tick_member:
  assumes ns: "\<not> isStatic e" and pu: "paramsArray e \<noteq> PUndefined"
  shows "\<exists>e1 b1. scalars e1 = scalars (e\<lparr>paramsArray := PCached\<rparr>) \<and>
     (if \<not> alive e then tick dt smp e (Some bufs) = Inr (e1\<lparr>age := 0\<rparr>, Some b1, [])
      else if (case duration e of None \<Rightarrow> False | Some d \<Rightarrow> age e > d)
      then tick dt smp e (Some bufs) = Inr (e1\<lparr>alive := False, age := 0\<rparr>, Some b1, onFinishCbs e)
      else tick dt smp e (Some bufs) =
             Inr (advance dt (jscale (jscale (particlesPerSecond e) (activeMultiplier e)) dt)
                    (attributeOffset e) (attributeOffset e + int (particleCount e)) e1, Some b1, []))"
proof -
  define ec where "ec = e\<lparr>paramsArray := PCached\<rparr>"
  have pc: "paramsArray ec = PCached" by (simp add: ec_def)
  have fe: "e\<lparr>paramsArray := fetchParamsArray e (Some bufs)\<rparr> = ec"
    using fetch_member [OF pu] by (simp add: ec_def)
  obtain e1 b1 where a: "agesStep dt ec (Some bufs) = Inr (e1, Some b1)" and s1: "scalars e1 = scalars ec"
    using agesStep_member [OF pc] by blast
  have p1: "paramsArray e1 = PCached" using scalarsD(12) [OF s1] pc by simp
  define ppsDt where "ppsDt = jscale (jscale (particlesPerSecond e) (activeMultiplier e)) dt"
  obtain e2 b2 where c: "activationStep dt smp ppsDt e1 (Some b1) = Inr (e2, Some b2)"
    and s2: "scalars e2 = scalars e1"
    using activationStep_member [OF p1] by blast
  have f: "alive e1 = alive e" "age e1 = age e" "duration e1 = duration e" "onFinishCbs e1 = onFinishCbs e"
    using scalarsD [OF s1] by (simp_all add: ec_def)
  have t: "tick dt smp e (Some bufs) =
     (if \<not> alive e then Inr (e1\<lparr>age := 0\<rparr>, Some b1, [])
      else if (case duration e of None \<Rightarrow> False | Some d \<Rightarrow> age e > d)
      then Inr (e1\<lparr>alive := False, age := 0\<rparr>, Some b1, onFinishCbs e)
      else Inr (advance dt ppsDt (attributeOffset e) (attributeOffset e + int (particleCount e)) e2, Some b2, []))"
    unfolding tick_def Let_def fe
    using ns a c f by (simp add: ec_def ppsDt_def cong: option.case_cong)
  show ?thesis
  proof (cases "\<not> alive e \<or> (case duration e of None \<Rightarrow> False | Some d \<Rightarrow> age e > d)")
    case True
    then show ?thesis using t s1 unfolding ec_def by (intro exI [of _ e1] exI [of _ b1]) auto
  next
    case False
    then show ?thesis using t s1 s2 unfolding ec_def ppsDt_def
      by (intro exI [of _ e2] exI [of _ b2]) auto
  qed
qed

subsection \<open>Emitter.tick: the end of the duration and the activation cursor\<close>

lemma tick_dead:
  assumes ns: "\<not> isStatic e" and pu: "paramsArray e \<noteq> PUndefined" and dead: "\<not> alive e"
  shows "\<exists>e' b'. tick dt smp e (Some bufs) = Inr (e', Some b', [])
           \<and> \<not> alive e' \<and> age e' = 0 \<and> \<not> isStatic e' \<and> paramsArray e' \<noteq> PUndefined
           \<and> onFinishCbs e' = onFinishCbs e \<and> duration e' = duration e"
proof -
  obtain e1 b1 where s: "scalars e1 = scalars (e\<lparr>paramsArray := PCached\<rparr>)"
    and t: "tick dt smp e (Some bufs) = Inr (e1\<lparr>age := 0\<rparr>, Some b1, [])"
    using tick_member [OF ns pu, of dt smp bufs] dead by auto
  show ?thesis
    using t scalarsD [OF s] ns dead by simp
qed

lemma ticks_dead:
  assumes "\<not> isStatic e" and "paramsArray e \<noteq> PUndefined" and "\<not> alive e" and "age e = 0"
  shows "\<exists>e' b'. ticks steps (e, Some bufs, fired) = Inr (e', Some b', fired)
           \<and> \<not> alive e' \<and> age e' = 0 \<and> onFinishCbs e' = onFinishCbs e"
  using assms
proof (induction steps arbitrary: e bufs)
  case Nil
  then show ?case by simp
next
  case (Cons step steps)
  obtain dt smp where st: "step = (dt, smp)" by (cases step)
  obtain e1 b1 where t: "tick dt smp e (Some bufs) = Inr (e1, Some b1, [])"
    and p: "\<not> alive e1" "age e1 = 0" "\<not> isStatic e1" "paramsArray e1 \<noteq> PUndefined"
    and c: "onFinishCbs e1 = onFinishCbs e"
    using tick_dead [OF Cons.prems(1) Cons.prems(2) Cons.prems(3), of dt smp bufs] by blast
  obtain e' b' where r: "ticks steps (e1, Some b1, fired) = Inr (e', Some b', fired)"
    and q: "\<not> alive e'" "age e' = 0" "onFinishCbs e' = onFinishCbs e1"
    using Cons.IH [OF p(3) p(4) p(1) p(2), of b1] by blast
  show ?case using st t r q c by simp
qed

lemma tick_before_duration:
  assumes ns: "\<not> isStatic e" and pu: "paramsArray e \<noteq> PUndefined" and al: "alive e"
    and du: "duration e = Some d" and ag: "age e \<le> d"
  shows "\<exists>e' b'. tick dt smp e (Some bufs) = Inr (e', Some b', [])
           \<and> alive e' \<and> age e' = age e + dt \<and> onFinishCbs e' = onFinishCbs e
           \<and> duration e' = Some d \<and> \<not> isStatic e' \<and> paramsArray e' \<noteq> PUndefined"
proof -
  obtain e1 b1 where s: "scalars e1 = scalars (e\<lparr>paramsArray := PCached\<rparr>)"
    and t: "tick dt smp e (Some bufs) =
             Inr (advance dt (jscale (jscale (particlesPerSecond e) (activeMultiplier e)) dt)
                    (attributeOffset e) (attributeOffset e + int (particleCount e)) e1, Some b1, [])"
    using tick_member [OF ns pu, of dt smp bufs] al du ag by auto
  show ?thesis
    using t scalarsD [OF s] ns al du by (simp add: advance_def Let_def)
qed

text \<open>
  C3. A non-static emitter with a finite duration \<open>d\<close> that is a member of a group (its
  attributes are the group's typed arrays, its params reference is \<^verbatim>\<open>null\<close> or
  cached) and alive: the tick that finds its age above \<open>d\<close> marks it dead, resets its
  age to 0 and fires the registered callbacks, each once per registration and in
  order; whatever ticks follow, the emitter stays dead with age 0 and the list of
  fired callbacks stays as it is.
\<close>

theorem tick_duration_exceeded:
  assumes ns: "\<not> isStatic e" and pu: "paramsArray e \<noteq> PUndefined" and al: "alive e"
    and du: "duration e = Some d" and ag: "d < age e"
  shows "\<exists>e1 b1. tick dt smp e (Some bufs) = Inr (e1, Some b1, onFinishCbs e)
           \<and> \<not> alive e1 \<and> age e1 = 0
           \<and> (\<forall>steps. \<exists>e2 b2.
                 ticks steps (e1, Some b1, onFinishCbs e) = Inr (e2, Some b2, onFinishCbs e)
                 \<and> \<not> alive e2 \<and> age e2 = 0)"
proof -
  obtain e0 b1 where s: "scalars e0 = scalars (e\<lparr>paramsArray := PCached\<rparr>)"
    and t: "tick dt smp e (Some bufs) = Inr (e0\<lparr>alive := False, age := 0\<rparr>, Some b1, onFinishCbs e)"
    using tick_member [OF ns pu, of dt smp bufs] al du ag by auto
  define e1 where "e1 = e0\<lparr>alive := False, age := 0\<rparr>"
  have p: "\<not> isStatic e1" "paramsArray e1 \<noteq> PUndefined" "\<not> alive e1" "age e1 = 0"
    using scalarsD [OF s] ns by (simp_all add: e1_def)
  have "\<exists>e2 b2. ticks steps (e1, Some b1, onFinishCbs e) = Inr (e2, Some b2, onFinishCbs e)
                 \<and> \<not> alive e2 \<and> age e2 = 0" for steps
    using ticks_dead [OF p, of steps b1 "onFinishCbs e"] by blast
  then show ?thesis using t p unfolding e1_def by blast
qed

text \<open>
  C10 (amended). If the emitter is a member of a group, the activation cursor lies in
  \<open>[attributeOffset, attributeOffset + particleCount]\<close> and the advance of this tick,
  \<open>particlesPerSecond * activeMultiplier * dt\<close>, is a non-negative number or
  \<open>+Infinity\<close>, then the tick returns, the range is as before and the cursor lies in
  it afterwards.
\<close>

theorem tick_cursor_in_range:
  assumes pu: "paramsArray e \<noteq> PUndefined"
    and ai: "activationIndex e = Val c"
    and lo: "real_of_int (attributeOffset e) \<le> c"
    and hi: "c \<le> real_of_int (attributeOffset e + int (particleCount e))"
    and nn: "jle (Val 0) (jscale (jscale (particlesPerSecond e) (activeMultiplier e)) dt)"
  shows "\<exists>e' b' f c'. tick dt smp e (Some bufs) = Inr (e', Some b', f)
           \<and> activationIndex e' = Val c'
           \<and> real_of_int (attributeOffset e') \<le> c'
           \<and> c' \<le> real_of_int (attributeOffset e' + int (particleCount e'))
           \<and> attributeOffset e' = attributeOffset e \<and> particleCount e' = particleCount e"
proof (cases "isStatic e")
  case True
  then show ?thesis using ai lo hi by (simp add: tick_def)
next
  case False
  define ppsDt where "ppsDt = jscale (jscale (particlesPerSecond e) (activeMultiplier e)) dt"
  obtain e1 b1 where s: "scalars e1 = scalars (e\<lparr>paramsArray := PCached\<rparr>)"
    and t: "if \<not> alive e then tick dt smp e (Some bufs) = Inr (e1\<lparr>age := 0\<rparr>, Some b1, [])
      else if (case duration e of None \<Rightarrow> False | Some d \<Rightarrow> age e > d)
      then tick dt smp e (Some bufs) = Inr (e1\<lparr>alive := False, age := 0\<rparr>, Some b1, onFinishCbs e)
      else tick dt smp e (Some bufs) =
             Inr (advance dt ppsDt
                    (attributeOffset e) (attributeOffset e + int (particleCount e)) e1, Some b1, [])"
    using tick_member [OF False pu, of dt smp bufs] unfolding ppsDt_def by blast
  have f: "activationIndex e1 = Val c" "attributeOffset e1 = attributeOffset e"
    "particleCount e1 = particleCount e"
    using scalarsD [OF s] ai by simp_all
  define lo' where "lo' = real_of_int (attributeOffset e)"
  define hi' where "hi' = real_of_int (attributeOffset e + int (particleCount e))"
  have lh: "lo' \<le> c" "c \<le> hi'" "lo' \<le> hi'" using lo hi by (simp_all add: lo'_def hi'_def)
  have adv: "\<exists>c'. activationIndex (advance dt ppsDt (attributeOffset e)
                  (attributeOffset e + int (particleCount e)) e1) = Val c' \<and> lo' \<le> c' \<and> c' \<le> hi'"
  proof (cases ppsDt)
    case NaN
    then show ?thesis using nn by (simp add: ppsDt_def)
  next
    case NInf
    then show ?thesis using nn by (simp add: ppsDt_def)
  next
    case PInf
    then show ?thesis using f lh
      by (simp add: advance_def Let_def jlt_def lo'_def hi'_def)
  next
    case (Val p)
    then have "0 \<le> p" using nn by (simp add: ppsDt_def)
    then show ?thesis using Val f lh
      by (auto simp add: advance_def Let_def jlt_def lo'_def hi'_def)
  qed
  have adv2: "attributeOffset (advance dt ppsDt a b e1) = attributeOffset e1"
    "particleCount (advance dt ppsDt a b e1) = particleCount e1" for a b
    by (simp_all add: advance_def Let_def)
  have keep: "\<exists>e' b' f c'. tick dt smp e (Some bufs) = Inr (e', Some b', f)
           \<and> activationIndex e' = Val c'
           \<and> real_of_int (attributeOffset e') \<le> c'
           \<and> c' \<le> real_of_int (attributeOffset e' + int (particleCount e'))
           \<and> attributeOffset e' = attributeOffset e \<and> particleCount e' = particleCount e"
    if eq: "tick dt smp e (Some bufs) = Inr (e', Some b1, fd)"
      and a: "activationIndex e' = Val c" "attributeOffset e' = attributeOffset e"
        "particleCount e' = particleCount e" for e' fd
    using eq a lo hi by auto
  consider (dead) "\<not> alive e"
    | (over) "alive e" "(case duration e of None \<Rightarrow> False | Some d \<Rightarrow> age e > d)"
    | (run) "alive e" "\<not> (case duration e of None \<Rightarrow> False | Some d \<Rightarrow> age e > d)"
    by blast
  then show ?thesis
  proof cases
    case dead
    then have "tick dt smp e (Some bufs) = Inr (e1\<lparr>age := 0\<rparr>, Some b1, [])"
      using t by simp
    then show ?thesis using f by (intro keep [of "e1\<lparr>age := 0\<rparr>" "[]"]) simp_all
  next
    case over
    then have "tick dt smp e (Some bufs) = Inr (e1\<lparr>alive := False, age := 0\<rparr>, Some b1, onFinishCbs e)"
      using t by simp
    then show ?thesis using f
      by (intro keep [of "e1\<lparr>alive := False, age := 0\<rparr>" "onFinishCbs e"]) simp_all
  next
    case run
    then have "tick dt smp e (Some bufs) =
             Inr (advance dt ppsDt
                    (attributeOffset e) (attributeOffset e + int (particleCount e)) e1, Some b1, [])"
      using t by simp
    then show ?thesis using adv adv2 f unfolding lo'_def hi'_def by auto
  qed
qed

subsection \<open>Writing cells and slots\<close>

lemma validIndex_nat [simp]: "validIndex xs (real n) \<longleftrightarrow> n < length xs"
  by (simp add: validIndex_def)

lemma rd_nat [simp]: "rd xs (real n) = (if n < length xs then xs ! n else NaN)"
  by (simp add: rd_def)

lemma wr_nat [simp]: "wr xs (real n) v = (if n < length xs then xs[n := v] else xs)"
  by (simp add: wr_def)

lemma length_wr [simp]: "length (wr xs r v) = length xs"
  by (simp add: wr_def)

lemma length_writeCells [simp]: "length (writeCells b vs xs) = length xs"
  by (induction vs arbitrary: b xs) simp_all

lemma writeCells_nth:
  "p < length xs \<Longrightarrow>
   writeCells (real n) vs xs ! p = (if n \<le> p \<and> p < n + length vs then vs ! (p - n) else xs ! p)"
proof (induction vs arbitrary: n xs)
  case Nil
  then show ?case by auto
next
  case (Cons v vs)
  have "writeCells (real n) (v # vs) xs = writeCells (real (Suc n)) vs (wr xs (real n) v)"
    by (simp add: add.commute)
  moreover have "p < length (wr xs (real n) v)" using Cons.prems by simp
  ultimately show ?case
    using Cons.IH [of "wr xs (real n) v" "Suc n"] Cons.prems
    by (auto simp add: nth_Cons' Suc_diff_le)
qed

lemma writeCells_negative:
  "b + real (length vs) \<le> 0 \<Longrightarrow> writeCells b vs xs = xs"
proof (induction vs arbitrary: b xs)
  case Nil
  then show ?case by simp
next
  case (Cons v vs)
  then have "b < 0" by simp
  then have "wr xs b v = xs" by (simp add: wr_def validIndex_def)
  then show ?case using Cons by simp
qed

text \<open>Writing the slots \<open>a, a + 1, \<dots>\<close> one after the other, \<open>m \<le> k\<close> values each.\<close>

lemma fold_slots_length [simp]:
  "length (fold (\<lambda>i. writeCells (f i) (vals i)) is xs) = length xs"
  by (induction "is" arbitrary: xs) simp_all

lemma fold_slots_nth:
  assumes m: "\<And>i. length (vals i) = m" and mk: "m \<le> k" and p: "p < length xs"
  shows "fold (\<lambda>i. writeCells (real (i * k)) (vals i)) [a..<b] xs ! p =
           (if a * k \<le> p \<and> p < b * k \<and> p mod k < m then vals (p div k) ! (p mod k) else xs ! p)"
proof (induction b)
  case 0
  then show ?case by simp
next
  case (Suc b)
  show ?case
  proof (cases "a \<le> b")
    case False
    then have "[a..<Suc b] = []" by simp
    moreover have "\<not> (a * k \<le> p \<and> p < Suc b * k)"
    proof
      assume h: "a * k \<le> p \<and> p < Suc b * k"
      have "Suc b * k \<le> a * k" using False by (intro mult_le_mono1) simp
      then show False using h by simp
    qed
    ultimately show ?thesis by auto
  next
    case True
    let ?ys = "fold (\<lambda>i. writeCells (real (i * k)) (vals i)) [a..<b] xs"
    have up: "[a..<Suc b] = [a..<b] @ [b]" using True by simp
    have ly: "p < length ?ys" using p by simp
    have st: "fold (\<lambda>i. writeCells (real (i * k)) (vals i)) [a..<Suc b] xs ! p =
          (if b * k \<le> p \<and> p < b * k + m then vals b ! (p - b * k) else ?ys ! p)"
      unfolding up using writeCells_nth [OF ly, of "b * k" "vals b"] m by simp
    show ?thesis
    proof (cases "b * k \<le> p \<and> p < b * k + m")
      case True
      then have pk: "p < b * k + k" using mk by simp
      have k0: "0 < k" using True mk by (cases k) auto
      have dv: "p div k = b"
        using True pk k0 by (metis add.commute div_nat_eqI mult.commute mult_Suc_right)
      have md: "p mod k = p - b * k"
        using dv by (metis minus_mult_div_eq_mod mult.commute)
      have ak: "a * k \<le> b * k" using \<open>a \<le> b\<close> by (rule mult_le_mono1)
      have c1: "a * k \<le> p" using ak True by linarith
      have c2: "p < Suc b * k" using pk by simp
      have c3: "p mod k < m" using md True by linarith
      show ?thesis using st True dv md c1 c2 c3 by simp
    next
      case False
      have "(a * k \<le> p \<and> p < Suc b * k \<and> p mod k < m) = (a * k \<le> p \<and> p < b * k \<and> p mod k < m)"
      proof (cases "p < b * k")
        case True
        then show ?thesis by auto
      next
        case nb: False
        then have ge: "b * k \<le> p" by simp
        have "\<not> (p < Suc b * k \<and> p mod k < m)"
        proof
          assume h: "p < Suc b * k \<and> p mod k < m"
          then have k0: "0 < k" by (cases k) auto
          have dv: "p div k = b"
            using ge h k0 by (metis add.commute div_nat_eqI mult.commute mult_Suc)
          have "p mod k = p - b * k"
            using dv by (metis minus_mult_div_eq_mod mult.commute)
          then show False using False ge h by auto
        qed
        then show ?thesis using nb by auto
      qed
      then show ?thesis using st False Suc by simp
    qed
  qed
qed

subsection \<open>Misuse of addEmitter and removeEmitter\<close>

lemma indexOf_None: "indexOf x xs = None \<longleftrightarrow> x \<notin> set xs"
  by (induction xs) auto

text \<open>
  C5. \<^verbatim>\<open>addEmitter\<close> with an argument that is not an emitter, with an emitter that is
  already a member, or with an emitter that belongs to another group, and
  \<^verbatim>\<open>removeEmitter\<close> with an emitter that is not a member, return with one error
  diagnostic and leave the group and the argument as they were.
\<close>

theorem membership_misuse_rejected:
  assumes "uuid e1 \<in> set (emitterIDs g)"
    and "uuid e2 \<notin> set (emitterIDs g)" and "group e2 \<noteq> None"
    and "uuid e3 \<notin> set (emitterIDs g)"
  shows "addEmitter smp Nullish g = Inr (g, Nullish, [ErrorNotAnEmitter])
       \<and> addEmitter smp OtherObject g = Inr (g, OtherObject, [ErrorNotAnEmitter])
       \<and> addEmitter smp (AnEmitter e1) g = Inr (g, AnEmitter e1, [ErrorAlreadyInThisGroup])
       \<and> addEmitter smp (AnEmitter e2) g = Inr (g, AnEmitter e2, [ErrorInAnotherGroup])
       \<and> removeEmitter (AnEmitter e3) g = Inr (g, AnEmitter e3, [ErrorNotInThisGroup])"
  using assms by (simp add: addEmitter_def removeEmitter_def indexOf_None [THEN iffD2])

subsection \<open>Value-over-lifetime arrays\<close>

lemma elemAt_0: "xs \<noteq> [] \<Longrightarrow> elemAt xs 0 = hd xs"
  by (cases xs) (simp_all add: elemAt_def)

lemma elemAt_last: "xs \<noteq> [] \<Longrightarrow> elemAt xs (int (length xs) - 1) = last xs"
  by (cases xs rule: rev_cases) (simp_all add: elemAt_def nth_append)

lemma interpolateArray_length:
  assumes "xs \<noteq> []" "hd xs \<noteq> Undefined" "last xs \<noteq> Undefined" "2 \<le> n"
  shows "\<exists>ys d. interpolateArray xs n = Inr (ys, d) \<and> length ys = n
            \<and> hd ys = hd xs \<and> last ys = last xs"
  using assms by (simp add: interpolateArray_def Let_def elemAt_0 elemAt_last)

lemma ensure_length:
  assumes v: "usable (value p)" and s: "usable (spread p)"
  shows "\<exists>p' d. ensureValueOverLifetimeCompliance p 4 4 = Inr (p', d) \<and> lengthsOf p' = (4, 4)
           \<and> hd (asArray (value p')) = hd (asArray (value p))
           \<and> last (asArray (value p')) = last (asArray (value p))
           \<and> hd (asArray (spread p')) = hd (asArray (spread p))
           \<and> last (asArray (spread p')) = last (asArray (spread p))
           \<and> (length (asArray (value p)) = 4 \<longrightarrow> asArray (value p') = asArray (value p))
           \<and> (length (asArray (spread p)) = 4 \<longrightarrow> asArray (spread p') = asArray (spread p))"
proof -
  have c: "clamp n 4 4 = 4" for n by (simp add: clamp_def)
  obtain vs d1 where iv: "interpolateArray (asArray (value p)) 4 = Inr (vs, d1)" and lv: "length vs = 4"
    "hd vs = hd (asArray (value p))" "last vs = last (asArray (value p))"
    using interpolateArray_length [of "asArray (value p)" 4] v by (auto simp add: usable_def)
  obtain ss d2 where isp: "interpolateArray (asArray (spread p)) 4 = Inr (ss, d2)" and ls: "length ss = 4"
    "hd ss = hd (asArray (spread p))" "last ss = last (asArray (spread p))"
    using interpolateArray_length [of "asArray (spread p)" 4] s by (auto simp add: usable_def)
  show ?thesis
    using iv lv isp ls
    by (simp add: ensureValueOverLifetimeCompliance_def Let_def c lengthsOf_def asArray_def)
qed

lemma usable_channel:
  "usableChannel c \<Longrightarrow> v \<noteq> Undefined \<Longrightarrow> s \<noteq> Undefined \<Longrightarrow>
   usable (value (channel c v s)) \<and> usable (spread (channel c v s))"
  by (simp add: usableChannel_def channel_def orElse_def usable_def asArray_def split: option.splits)

text \<open>
  C9 (amended). If every value and spread given for a lifetime-curve channel is a
  value or a non-empty array whose first and last elements are defined, the
  constructor does not fail, and afterwards the value and the spread of each of the
  four channels have exactly \<open>valueOverLifetimeLength = 4\<close> elements.
\<close>

theorem new_Emitter_lifetime_lengths:
  assumes "usableChannel (o_color opts)" and "usableChannel (o_opacity opts)"
    and "usableChannel (o_size opts)" and "usableChannel (o_angle opts)"
  shows "\<exists>e d. new_Emitter uid opts = Inr (e, d)
           \<and> lengthsOf (color e) = (4, 4) \<and> lengthsOf (opacity e) = (4, 4)
           \<and> lengthsOf (size_p e) = (4, 4) \<and> lengthsOf (angle e) = (4, 4)"
proof -
  obtain col d1 where 1: "ensureValueOverLifetimeCompliance
        (channel (o_color opts) (Color 1 1 1) (Vector3 0 0 0)) 4 4 = Inr (col, d1)"
    and l1: "lengthsOf col = (4, 4)"
    using ensure_length usable_channel [OF assms(1), of "Color 1 1 1" "Vector3 0 0 0"] by blast
  obtain opa d2 where 2: "ensureValueOverLifetimeCompliance
        (channel (o_opacity opts) (Number 1) (Number 0)) 4 4 = Inr (opa, d2)"
    and l2: "lengthsOf opa = (4, 4)"
    using ensure_length usable_channel [OF assms(2), of "Number 1" "Number 0"] by blast
  obtain siz d3 where 3: "ensureValueOverLifetimeCompliance
        (channel (o_size opts) (Number 1) (Number 0)) 4 4 = Inr (siz, d3)"
    and l3: "lengthsOf siz = (4, 4)"
    using ensure_length usable_channel [OF assms(3), of "Number 1" "Number 0"] by blast
  obtain ang d4 where 4: "ensureValueOverLifetimeCompliance
        (channel (o_angle opts) (Number 0) (Number 0)) 4 4 = Inr (ang, d4)"
    and l4: "lengthsOf ang = (4, 4)"
    using ensure_length usable_channel [OF assms(4), of "Number 0" "Number 0"] by blast
  show ?thesis
    using 1 2 3 4 l1 l2 l3 l4
    by (simp add: new_Emitter_def Let_def valueOverLifetimeLength_def)
qed

theorem new_Emitter_lifetime_lengths_witness:
  "usableChannel (o_color ((plainOptions 5)\<lparr>o_size :=
      \<lparr>c_value = Some (Arr [Number 1, Number 2]),
       c_spread = Some (Arr [Number 0, Number 0, Number 0]), c_randomise = None\<rparr>\<rparr>))
   \<and> usableChannel (o_opacity ((plainOptions 5)\<lparr>o_size :=
      \<lparr>c_value = Some (Arr [Number 1, Number 2]),
       c_spread = Some (Arr [Number 0, Number 0, Number 0]), c_randomise = None\<rparr>\<rparr>))
   \<and> usableChannel (o_size ((plainOptions 5)\<lparr>o_size :=
      \<lparr>c_value = Some (Arr [Number 1, Number 2]),
       c_spread = Some (Arr [Number 0, Number 0, Number 0]), c_randomise = None\<rparr>\<rparr>))
   \<and> usableChannel (o_angle ((plainOptions 5)\<lparr>o_size :=
      \<lparr>c_value = Some (Arr [Number 1, Number 2]),
       c_spread = Some (Arr [Number 0, Number 0, Number 0]), c_randomise = None\<rparr>\<rparr>))
   \<and> (\<exists>e d. new_Emitter ''a'' ((plainOptions 5)\<lparr>o_size :=
                 \<lparr>c_value = Some (Arr [Number 1, Number 2]),
                  c_spread = Some (Arr [Number 0, Number 0, Number 0]), c_randomise = None\<rparr>\<rparr>)
               = Inr (e, d)
          \<and> lengthsOf (color e) = (4, 4) \<and> lengthsOf (opacity e) = (4, 4)
          \<and> lengthsOf (size_p e) = (4, 4) \<and> lengthsOf (angle e) = (4, 4))"
proof -
  let ?o = "(plainOptions 5)\<lparr>o_size :=
      \<lparr>c_value = Some (Arr [Number 1, Number 2]),
       c_spread = Some (Arr [Number 0, Number 0, Number 0]), c_randomise = None\<rparr>\<rparr>"
  have h: "usableChannel (o_color ?o)" "usableChannel (o_opacity ?o)"
    "usableChannel (o_size ?o)" "usableChannel (o_angle ?o)"
    by (simp_all add: plainOptions_def noChannel_def usableChannel_def usable_def asArray_def)
  show ?thesis
    using new_Emitter_lifetime_lengths [OF h, of "''a''"] h by blast
qed

text \<open>
  C9, as stated, fails: with a size value of five numbers and a size spread of two,
  the constructor leaves four numbers in each; the longer array is not kept at its
  length.
\<close>

theorem lifetime_longer_array_cut:
  "new_Emitter ''a'' ((plainOptions 5)\<lparr>o_size :=
      \<lparr>c_value = Some (Arr [Number 1, Number 2, Number 3, Number 4, Number 5]),
       c_spread = Some (Arr [Number 0, Number 0]), c_randomise = None\<rparr>\<rparr>)
   = Inr ((plainEmitter ''a'' 5)\<lparr>size_p :=
            \<lparr>value = Arr [Number 1, Number (7 / 3), Number (11 / 3), Number 5],
             spread = Arr [Number 0, Number 0, Number 0, Number 0]\<rparr>\<rparr>, [])"
proof -
  have "initialResetFlags ((plainOptions 5)\<lparr>o_size :=
      \<lparr>c_value = Some (Arr [Number 1, Number 2, Number 3, Number 4, Number 5]),
       c_spread = Some (Arr [Number 0, Number 0]), c_randomise = None\<rparr>\<rparr>)
      = initialResetFlags (plainOptions 5)"
    by (simp add: fun_eq_iff initialResetFlags_def plainOptions_def noChannel_def split: key.splits)
  then show ?thesis
    by (simp add: new_Emitter_def plainOptions_def plainEmitter_def noChannel_def channel_def
      orElse_def ensureValueOverLifetimeCompliance_def asArray_def clamp_def interpolateArray_def
      interpolateStep_def elemAt_def Let_def upt_rec ceiling_def valueOverLifetimeLength_def
      vec3_of_def lerp_def)
qed

subsection \<open>addEmitter\<close>

lemma allKeys_all: "k \<in> set allKeys"
  by (cases k) (simp_all add: allKeys_def)

lemma allKeys_distinct: "distinct allKeys"
  by (simp add: allKeys_def)

lemma list_all_allKeys: "list_all P allKeys \<longleftrightarrow> (\<forall>k. P k)"
  using allKeys_all by (auto simp add: list_all_iff)

lemma sizedForD: "sizedFor C g \<Longrightarrow> sizedAttr C k (attributes g k)"
  by (simp add: sizedFor_def list_all_allKeys)

lemma createBufferAttribute_sized:
  assumes "sizedAttr C k a"
  shows "\<exists>a'. createBufferAttribute (int C) a = Inr (a', [])
           \<and> typedArray a' = Some (created C k a) \<and> sizedAttr C k a'"
proof (cases "typedArray a")
  case None
  have nn: "\<not> int C * int (stride k) < 0"
    by (simp add: not_less mult_nonneg_nonneg)
  show ?thesis
    using assms None nn
    by (simp add: createBufferAttribute_def ensureFloat32ArrayWithSizeExists_def
        new_Float32ArrayHelper_def sizedAttr_def created_def nat_mult_distrib)
next
  case (Some h)
  then have e: "ensureFloat32ArrayWithSizeExists (int C) a = Inr (a, [])"
    using assms by (auto simp add: ensureFloat32ArrayWithSizeExists_def sizedAttr_def)
  show ?thesis
    using Some assms e
    by (cases "bufferAttribute a") (simp_all add: createBufferAttribute_def sizedAttr_def created_def)
qed

lemma createAll_ok:
  assumes "distinct ks"
    and "\<And>k. k \<in> set ks \<Longrightarrow> createBufferAttribute sz (attrs k) = Inr (F k, [])"
  shows "createAll sz ks (attrs, ds) = Inr (\<lambda>k. if k \<in> set ks then F k else attrs k, ds)"
  using assms
proof (induction ks arbitrary: attrs)
  case Nil
  then show ?case by simp
next
  case (Cons k ks)
  have r: "createAll sz ks (attrs(k := F k), ds)
        = Inr (\<lambda>j. if j \<in> set ks then F j else (attrs(k := F k)) j, ds)"
    using Cons.prems by (intro Cons.IH) auto
  have "(\<lambda>j. if j \<in> set ks then F j else (attrs(k := F k)) j)
      = (\<lambda>j. if j \<in> set (k # ks) then F j else attrs j)"
    by (rule ext) auto
  then show ?case using r Cons.prems(2) [of k] by simp
qed

lemma createAll_sized:
  assumes "\<And>k. sizedAttr C k (attrs k)"
  shows "\<exists>attrs'. (\<forall>ds. createAll (int C) allKeys (attrs, ds) = Inr (attrs', ds))
           \<and> (\<forall>k. typedArray (attrs' k) = Some (created C k (attrs k)) \<and> sizedAttr C k (attrs' k))"
proof -
  have "\<exists>F. \<forall>k. createBufferAttribute (int C) (attrs k) = Inr (F k, [])
           \<and> typedArray (F k) = Some (created C k (attrs k)) \<and> sizedAttr C k (F k)"
    using createBufferAttribute_sized [OF assms] by metis
  then obtain F where F: "\<And>k. createBufferAttribute (int C) (attrs k) = Inr (F k, [])
           \<and> typedArray (F k) = Some (created C k (attrs k)) \<and> sizedAttr C k (F k)"
    by blast
  have "createAll (int C) allKeys (attrs, ds)
          = Inr (\<lambda>k. if k \<in> set allKeys then F k else attrs k, ds)" for ds
    using allKeys_distinct F by (intro createAll_ok) auto
  then show ?thesis using F allKeys_all by auto
qed

lemma arraysOf_Some:
  assumes "\<And>k. typedArray (attrs k) = Some (H k)"
  shows "arraysOf attrs = Some H"
proof -
  have "(\<lambda>k. the (typedArray (attrs k))) = H" using assms by auto
  then show ?thesis using assms by (simp add: arraysOf_def list_all_allKeys)
qed

lemma upto_map_int: "0 \<le> a \<Longrightarrow> [a..b - 1] = map int [nat a..<nat b]"
  by (rule nth_equalityI) (auto simp add: nth_upto)

lemma setVec3_writeCells:
  "setVec3Components r x y z h
     = h\<lparr>array := writeCells (r * real (itemSize_h h)) [x, y, z] (array h)\<rparr>"
  by (simp add: setVec3Components_def Let_def add.assoc)

lemma setVec4_writeCells:
  "setVec4Components r x y z w h
     = h\<lparr>array := writeCells (r * real (itemSize_h h)) [x, y, z, w] (array h)\<rparr>"
  by (simp add: setVec4Components_def Let_def add.assoc)

lemma put3_apply:
  "put3 k r v bufs j =
     (if j = k then (bufs k)\<lparr>array := writeCells (r * real (itemSize_h (bufs k))) (list3 v) (array (bufs k))\<rparr>
      else bufs j)"
  by (cases v) (simp add: put3_def list3_def setVec3_writeCells)

lemma put4_apply:
  "put4 k r v bufs j =
     (if j = k then (bufs k)\<lparr>array := writeCells (r * real (itemSize_h (bufs k))) (list4 v) (array (bufs k))\<rparr>
      else bufs j)"
  by (cases v) (simp add: put4_def list4_def setVec4_writeCells)

lemma writeCells_snoc:
  "writeCells b (vs @ [v]) xs = wr (writeCells b vs xs) (b + real (length vs)) v"
  by (induction vs arbitrary: b xs) (simp_all add: add.assoc add.commute add.left_commute)

lemma assignForce_acceleration_apply:
  assumes "itemSize_h (bufs A_acceleration) = 4"
  shows "assignForceValue smp r A_acceleration bufs j =
     (if j = A_acceleration
      then (bufs j)\<lparr>array := writeCells (r * real (itemSize_h (bufs j)))
                (list3 (s_acceleration (smp r)) @ [s_drag (smp r)]) (array (bufs j))\<rparr>
      else bufs j)"
proof -
  have l: "length (list3 v) = 3" for v by (cases v) (simp add: list3_def)
  show ?thesis
    using assms by (simp add: assignForceValue_def Let_def put3_apply writeCells_snoc l)
qed

lemma populate_key:
  assumes "itemSize_h (bufs A_acceleration) = 4"
  shows "populate e smp i bufs k =
           (bufs k)\<lparr>array := writeCells (real_of_int i * real (itemSize_h (bufs k)))
                                (written e smp k i) (array (bufs k))\<rparr>"
proof -
  have vel: "assignForceValue smp r A_velocity b j = put3 A_velocity r (s_velocity (smp r)) b j" for b r j
    by (simp add: assignForceValue_def)
  define b2 where "b2 = assignForceValue smp (real_of_int i) A_velocity
                          (assignPositionValue smp (real_of_int i) bufs)"
  have i4: "itemSize_h (b2 A_acceleration) = 4"
    using assms by (simp add: b2_def vel put3_apply assignPositionValue_def)
  have b2k: "b2 j = (if j = A_velocity \<or> j = A_position
                     then (bufs j)\<lparr>array := writeCells (real_of_int i * real (itemSize_h (bufs j)))
                            (written e smp j i) (array (bufs j))\<rparr>
                     else bufs j)" for j
    by (simp add: b2_def vel put3_apply assignPositionValue_def written_def Let_def)
  have b3k: "assignForceValue smp (real_of_int i) A_acceleration b2 j =
     (if j = A_acceleration
      then (b2 j)\<lparr>array := writeCells (real_of_int i * real (itemSize_h (b2 j)))
                (written e smp j i) (array (b2 j))\<rparr>
      else b2 j)" for j
    using assignForce_acceleration_apply
      [where bufs = b2 and smp = smp and r = "real_of_int i" and j = j, OF i4]
    by (simp add: written_def Let_def)
  show ?thesis
    unfolding populate_def Let_def b2_def [symmetric]
    by (cases k)
       (simp_all add: b3k b2k put3_apply put4_apply written_def Let_def list3_def list4_def
          assignAbsLifetimeValue_def
          assignAngleValue_def assignOrbitValue_def assignRotationValue_def assignParamsValue_def
          assignColorValue_def)
qed

lemma fold_populate_key:
  assumes "itemSize_h (bufs A_acceleration) = 4"
  shows "fold (populate e smp) js bufs k =
           (bufs k)\<lparr>array := fold (\<lambda>i. writeCells (real_of_int i * real (itemSize_h (bufs k)))
                                         (written e smp k i)) js (array (bufs k))\<rparr>"
  using assms
proof (induction js arbitrary: bufs)
  case Nil
  then show ?case by simp
next
  case (Cons i js)
  define b' where "b' = populate e smp i bufs"
  have pk: "b' j = (bufs j)\<lparr>array := writeCells (real_of_int i * real (itemSize_h (bufs j)))
                                (written e smp j i) (array (bufs j))\<rparr>" for j
    unfolding b'_def using Cons.prems by (rule populate_key)
  have "itemSize_h (b' A_acceleration) = 4" using pk [of A_acceleration] Cons.prems by simp
  then have "fold (populate e smp) js b' k =
           (b' k)\<lparr>array := fold (\<lambda>i. writeCells (real_of_int i * real (itemSize_h (b' k)))
                                         (written e smp k i)) js (array (b' k))\<rparr>"
    by (rule Cons.IH)
  then show ?case using pk [of k] by (simp add: b'_def [symmetric])
qed

lemma div_slot:
  "j < K \<Longrightarrow> (n * K + j) div K = (n::nat)"
  by simp

lemma mod_slot:
  "j < K \<Longrightarrow> (n * K + j) mod K = (j::nat)"
  by simp

lemma slot_le_iff: 
  assumes "j < K" shows "(a * K \<le> n * K + j) = (a \<le> (n::nat))"
proof
  assume h: "a * K \<le> n * K + j"
  show "a \<le> n"
  proof (rule ccontr)
    assume "\<not> a \<le> n"
    then have "Suc n \<le> a" by simp
    then have "Suc n * K \<le> a * K" by (rule mult_le_mono1)
    then have "n * K + K \<le> a * K" by (simp add: add.commute)
    then show False using h assms by linarith
  qed
next
  assume "a \<le> n"
  then have "a * K \<le> n * K" by (rule mult_le_mono1)
  then show "a * K \<le> n * K + j" by linarith
qed

lemma slot_less_iff: 
  assumes "j < K" shows "(n * K + j < b * K) = (n < (b::nat))"
proof
  assume h: "n * K + j < b * K"
  show "n < b"
  proof (rule ccontr)
    assume "\<not> n < b"
    then have "b \<le> n" by simp
    then have "b * K \<le> n * K" by (rule mult_le_mono1)
    then show False using h by linarith
  qed
next
  assume "n < b"
  then have "Suc n \<le> b" by simp
  then have "Suc n * K \<le> b * K" by (rule mult_le_mono1)
  then have "n * K + K \<le> b * K" by (simp add: add.commute)
  then show "n * K + j < b * K" using assms by linarith
qed



lemma length_written: "length (written e smp k i) = (if stride k = 3 \<or> k = A_orbit then 3 else 4)"
  by (cases k) (simp_all add: written_def Let_def list3_def list4_def stride_def split: prod.splits)

lemma length_written_le: "length (written e smp k i) \<le> stride k"
  by (cases k) (simp_all add: written_def Let_def list3_def list4_def stride_def split: prod.splits)

lemma fold_slots_int:
  assumes "0 \<le> a"
  shows "fold (\<lambda>i. writeCells (real_of_int i * real K) (W i)) [a..b - 1] xs
       = fold (\<lambda>n. writeCells (real (n * K)) (W (int n))) [nat a..<nat b] xs"
proof -
  have "(\<lambda>i. writeCells (real_of_int i * real K) (W i)) \<circ> int
      = (\<lambda>n. writeCells (real (n * K)) (W (int n)))"
    by (rule ext) simp
  then show ?thesis
    using assms by (simp add: upto_map_int fold_map)
qed

text \<open>The cells of a slot after the slots \<open>a, \<dots>, b - 1\<close> have been written.\<close>

lemma slots_written_nth:
  assumes m: "\<And>i. length (W i) = m" and mk: "m \<le> K" and a0: "0 \<le> a"
    and j: "j < K" and p: "n * K + j < length xs"
  shows "fold (\<lambda>i. writeCells (real_of_int i * real K) (W i)) [a..b - 1] xs ! (n * K + j)
       = (if a \<le> int n \<and> int n < b \<and> j < m then W (int n) ! j else xs ! (n * K + j))"
proof -
  have c3: "(nat a \<le> n) = (a \<le> int n)" using a0 by linarith
  have c4: "(n < nat b) = (int n < b)" by linarith
  have "fold (\<lambda>n. writeCells (real (n * K)) (W (int n))) [nat a..<nat b] xs ! (n * K + j)
      = (if nat a * K \<le> n * K + j \<and> n * K + j < nat b * K \<and> (n * K + j) mod K < m
         then W (int ((n * K + j) div K)) ! ((n * K + j) mod K) else xs ! (n * K + j))"
    using m mk p
    by (intro fold_slots_nth [where vals = "\<lambda>n. W (int n)" and m = m and k = K and p = "n * K + j"
        and xs = xs and a = "nat a" and b = "nat b"]) simp_all
  then show ?thesis
    unfolding fold_slots_int [OF a0] slot_le_iff [OF j] slot_less_iff [OF j] c3 c4
      div_slot [OF j] mod_slot [OF j] .
qed

lemma rd_negative: "r < 0 \<Longrightarrow> rd xs r = NaN"
  by (simp add: rd_def validIndex_def)

lemma cells_nonneg:
  "0 \<le> i \<Longrightarrow> cells h i = map (\<lambda>j. rd (array h) (real (nat i * itemSize_h h + j))) [0..<itemSize_h h]"
  by (simp add: cells_def)

lemma cells_negative:
  assumes "i < 0"
  shows "cells h i = replicate (itemSize_h h) NaN"
proof -
  have "rd (array h) (real_of_int (i * int (itemSize_h h) + int j)) = NaN" if "j < itemSize_h h" for j
  proof -
    have "i * int (itemSize_h h) \<le> - 1 * int (itemSize_h h)"
      using assms by (intro mult_right_mono) simp_all
    then have "i * int (itemSize_h h) + int j < 0" using that by simp
    then have "real_of_int (i * int (itemSize_h h) + int j) < 0" by linarith
    then show ?thesis by (rule rd_negative)
  qed
  then show ?thesis
    by (intro nth_equalityI) (simp_all add: cells_def)
qed

lemma cells_beyond:
  assumes "length (array h) = C * itemSize_h h" and "int C \<le> i"
  shows "cells h i = replicate (itemSize_h h) NaN"
proof -
  have i0: "0 \<le> i" using assms(2) by simp
  have "C \<le> nat i" using assms(2) by simp
  then have ck: "C * itemSize_h h \<le> nat i * itemSize_h h" by (rule mult_le_mono1)
  have "\<not> nat i * itemSize_h h + j < length (array h)" for j
    using assms(1) ck by linarith
  then show ?thesis
    by (intro nth_equalityI) (simp_all add: cells_nonneg [OF i0] del: of_nat_add of_nat_mult)
qed

lemma populated_cells:
  fixes h :: Float32ArrayHelper
  assumes K: "itemSize_h h = K" and len: "length (array h) = C * K" and a0: "0 \<le> a"
    and m: "\<And>i. length (W i) = m" and mk: "m \<le> K"
    and h': "h' = h\<lparr>array := fold (\<lambda>i. writeCells (real_of_int i * real K) (W i)) [a..b - 1] (array h)\<rparr>"
  shows "a \<le> i \<Longrightarrow> i < b \<Longrightarrow> i < int C \<Longrightarrow> take m (cells h' i) = W i"
    and "int C \<le> i \<Longrightarrow> cells h' i = replicate K NaN"
    and "i < a \<or> b \<le> i \<Longrightarrow> cells h' i = cells h i"
proof -
  let ?arr = "fold (\<lambda>i. writeCells (real_of_int i * real K) (W i)) [a..b - 1] (array h)"
  have k': "itemSize_h h' = K" and a': "array h' = ?arr" and l': "length (array h') = C * K"
    using K len by (simp_all add: h')
  have inr: "nat i * K + j < C * K" if "0 \<le> i" "i < int C" "j < K" for i j
  proof -
    have "Suc (nat i) \<le> C" using that by simp
    then have "Suc (nat i) * K \<le> C * K" by (rule mult_le_mono1)
    then show ?thesis using that by simp
  qed
  show "take m (cells h' i) = W i" if "a \<le> i" "i < b" "i < int C"
  proof -
    have i0: "0 \<le> i" using that a0 by simp
    show ?thesis
    proof (rule nth_equalityI)
      show "length (take m (cells h' i)) = length (W i)"
        using m mk by (simp add: cells_def k')
    next
      fix j assume "j < length (take m (cells h' i))"
      then have j: "j < m" "j < K" using mk by (simp_all add: cells_def k')
      have p: "nat i * K + j < length (array h)" using inr [OF i0 that(3) j(2)] len by simp
      have "?arr ! (nat i * K + j) = W (int (nat i)) ! j"
        using slots_written_nth [OF m mk a0 j(2) p, where b = b] that i0 j by simp
      then show "take m (cells h' i) ! j = W i ! j"
        using j i0 p len by (simp add: cells_nonneg [OF i0] k' a' del: of_nat_add of_nat_mult)
    qed
  qed
  show "cells h' i = replicate K NaN" if "int C \<le> i"
    using cells_beyond [of h' C i] l' k' that by simp
  show "cells h' i = cells h i" if "i < a \<or> b \<le> i"
  proof (cases "0 \<le> i")
    case False
    then show ?thesis using cells_negative [of i h'] cells_negative [of i h] k' K by simp
  next
    case True
    show ?thesis
    proof (cases "i < int C")
      case False
      then show ?thesis
        using cells_beyond [of h' C i] cells_beyond [of h C i] l' k' K len by simp
    next
      case lt: True
      have "rd (array h') (real (nat i * K + j)) = rd (array h) (real (nat i * K + j))"
        if j: "j < K" for j
      proof -
        have p: "nat i * K + j < length (array h)" using inr [OF True lt j] len by simp
        have "?arr ! (nat i * K + j) = array h ! (nat i * K + j)"
          using slots_written_nth [OF m mk a0 j p, where b = b] \<open>i < a \<or> b \<le> i\<close> True by auto
        then show ?thesis using p by (simp add: a' del: of_nat_add of_nat_mult)
      qed
      then show ?thesis
        by (simp add: cells_nonneg [OF True] k' K del: of_nat_add of_nat_mult)
    qed
  qed
qed

lemma joined_fields [simp]:
  "uuid (joined g e) = uuid e" "particleCount (joined g e) = particleCount e"
  "group (joined g e) = Some (uuid_g g)" "attributeOffset (joined g e) = particleCount_g g"
  "isStatic (joined g e) = isStatic e" "alive (joined g e) = alive e"
  "paramsArray (joined g e) = paramsArray e" "duration (joined g e) = duration e"
  "age (joined g e) = age e" "activeMultiplier (joined g e) = activeMultiplier e"
  "activationIndex (joined g e) = Val (real_of_int (particleCount_g g))"
  "onFinishCbs (joined g e) = onFinishCbs e" "orbit_static (joined g e) = orbit_static e"
  "rotation_static (joined g e) = rotation_static e" "orbit_center (joined g e) = orbit_center e"
  by (simp_all add: joined_def setAttributeOffset_def setBufferUpdateRanges_def
      calculatePPSValue_def split: option.splits)

lemma written_joined [simp]: "written (joined g e) smp k i = written e smp k i"
  by (cases k) (simp_all add: written_def)

lemma created_sized:
  assumes "sizedAttr C k a"
  shows "itemSize_h (created C k a) = stride k" "length (array (created C k a)) = C * stride k"
    "size_h (created C k a) = int C \<or> size_h (created C k a) = int (C * stride k)"
  using assms by (auto simp add: created_def sizedAttr_def split: option.splits)

lemma addEmitter_sized:
  assumes mx: "maxParticleCount g = Some C" and sz: "sizedFor C g"
    and nm: "uuid e \<notin> set (emitterIDs g)" and ng: "group e = None"
    and p0: "0 \<le> particleCount_g g"
  shows "\<exists>g'. addEmitter smp (AnEmitter e) g =
            Inr (g', AnEmitter (joined g e),
                 (if int C < particleCount_g g + int (particleCount e)
                  then [WarnMaxParticleCountExceeded (particleCount_g g + int (particleCount e)) C]
                  else []))
     \<and> emitters g' = emitters g @ [joined g e] \<and> emitterIDs g' = emitterIDs g @ [uuid e]
     \<and> particleCount_g g' = particleCount_g g + int (particleCount e)
     \<and> maxParticleCount g' = Some C \<and> uuid_g g' = uuid_g g \<and> sizedFor C g'
     \<and> (\<forall>k. bufferLength g' k = C * stride k)
     \<and> (\<forall>k i. particleCount_g g \<le> i \<and> i < particleCount_g g + int (particleCount e) \<and> i < int C
            \<longrightarrow> take (length (written e smp k i)) (slotOf g' k i) = written e smp k i)
     \<and> (\<forall>k i. int C \<le> i \<longrightarrow> slotOf g' k i = replicate (stride k) NaN)
     \<and> (\<forall>k i. typedArray (attributes g k) \<noteq> None
              \<and> (i < particleCount_g g \<or> particleCount_g g + int (particleCount e) \<le> i)
            \<longrightarrow> slotOf g' k i = slotOf g k i)"
proof -
  define start where "start = particleCount_g g"
  define endp where "endp = start + int (particleCount e)"
  define warn where "warn = (if int C < endp then [WarnMaxParticleCountExceeded endp C] else [])"
  define bufs where "bufs k = created C k (attributes g k)" for k
  have sa: "sizedAttr C k (attributes g k)" for k using sz by (rule sizedForD)
  obtain attrs' where ca: "\<And>ds. createAll (int C) allKeys (attributes g, ds) = Inr (attrs', ds)"
    and ta: "\<And>k. typedArray (attrs' k) = Some (bufs k)" and sa': "\<And>k. sizedAttr C k (attrs' k)"
    using createAll_sized [of C "attributes g", OF sa] unfolding bufs_def by blast
  have ao: "arraysOf attrs' = Some bufs" using ta by (rule arraysOf_Some)
  have bk: "itemSize_h (bufs k) = stride k" "length (array (bufs k)) = C * stride k"
    "size_h (bufs k) = int C \<or> size_h (bufs k) = int (C * stride k)" for k
    unfolding bufs_def using created_sized [OF sa] by blast+
  have b4: "itemSize_h (bufs A_acceleration) = 4" using bk(1) [of A_acceleration] by (simp add: stride_def)
  define fin where "fin = fold (populate (joined g e) smp) [start..endp - 1] bufs"
  have fk: "fin k = (bufs k)\<lparr>array := fold (\<lambda>i. writeCells (real_of_int i * real (stride k))
                                         (written e smp k i)) [start..endp - 1] (array (bufs k))\<rparr>" for k
    unfolding fin_def
    using fold_populate_key [where bufs = bufs and e = "joined g e" and smp = smp
        and js = "[start..endp - 1]" and k = k, OF b4]
    by (simp add: bk)
  define g' where "g' = g\<lparr>particleCount_g := endp,
                               attributes := setArrays fin attrs',
                               emitters := emitters g @ [joined g e],
                               emitterIDs := emitterIDs g @ [uuid (joined g e)],
                               attributesNeedRefresh := True\<rparr>"
  have r: "addEmitter smp (AnEmitter e) g = Inr (g', AnEmitter (joined g e), warn)"
    using nm ng mx ca ao
    by (simp add: addEmitter_def Let_def joined_def g'_def fin_def start_def endp_def warn_def)
  have tg: "typedArray (attributes g' k) = Some (fin k)" for k
    by (simp add: g'_def setArrays_def)
  have ig: "itemSize (attributes g' k) = itemSize (attrs' k)"
    "bufferAttribute (attributes g' k) = bufferAttribute (attrs' k)" for k
    by (simp_all add: g'_def setArrays_def)
  have fl: "itemSize_h (fin k) = stride k" "length (array (fin k)) = C * stride k"
    "size_h (fin k) = size_h (bufs k)" for k
    using bk by (simp_all add: fk)
  have s': "sizedFor C g'"
    unfolding sizedFor_def list_all_allKeys
    using sa' bk(3) by (auto simp add: sizedAttr_def tg ig fl ta)
  have bl: "bufferLength g' k = C * stride k" for k
    by (simp add: bufferLength_def tg fl)
  have so: "slotOf g' k i = cells (fin k) i" for k i
    by (simp add: slotOf_def tg)
  have lw: "length (written e smp k i) = length (written e smp k 0)" for k i
    by (simp add: length_written)
  have st0: "0 \<le> start" using p0 by (simp add: start_def)
  have pc1: "take (length (written e smp k 0)) (cells (fin k) i) = written e smp k i"
    if "start \<le> i" "i < endp" "i < int C" for k i
    using populated_cells(1) [where h = "bufs k" and K = "stride k" and C = C and a = start
      and b = endp and W = "written e smp k" and m = "length (written e smp k 0)" and h' = "fin k",
      OF bk(1) bk(2) st0 lw length_written_le fk that] .
  have pc2: "cells (fin k) i = replicate (stride k) NaN" if "int C \<le> i" for k i
    using populated_cells(2) [where h = "bufs k" and K = "stride k" and C = C and a = start
      and b = endp and W = "written e smp k" and m = "length (written e smp k 0)" and h' = "fin k",
      OF bk(1) bk(2) st0 lw length_written_le fk that] .
  have pc3: "cells (fin k) i = cells (bufs k) i" if "i < start \<or> endp \<le> i" for k i
    using populated_cells(3) [where h = "bufs k" and K = "stride k" and C = C and a = start
      and b = endp and W = "written e smp k" and m = "length (written e smp k 0)" and h' = "fin k",
      OF bk(1) bk(2) st0 lw length_written_le fk that] .
  have c1: "take (length (written e smp k i)) (slotOf g' k i) = written e smp k i"
    if "start \<le> i" "i < endp" "i < int C" for k i
    using pc1 [OF that] lw [of k i] by (simp add: so)
  have c2: "slotOf g' k i = replicate (stride k) NaN" if "int C \<le> i" for k i
    using pc2 [OF that] by (simp add: so)
  have c3: "slotOf g' k i = slotOf g k i"
    if ne: "typedArray (attributes g k) \<noteq> None" and out: "i < start \<or> endp \<le> i" for k i
  proof -
    from ne obtain h where h: "typedArray (attributes g k) = Some h" by blast
    then have bh: "bufs k = h" by (simp add: bufs_def created_def)
    have "slotOf g k i = cells h i" using h by (simp add: slotOf_def)
    then show ?thesis using pc3 [OF out, of k] bh by (simp add: so)
  qed
  have f: "emitters g' = emitters g @ [joined g e]" "emitterIDs g' = emitterIDs g @ [uuid e]"
    "particleCount_g g' = particleCount_g g + int (particleCount e)"
    "maxParticleCount g' = Some C" "uuid_g g' = uuid_g g"
    by (simp_all add: g'_def endp_def start_def mx)
  have r': "addEmitter smp (AnEmitter e) g =
            Inr (g', AnEmitter (joined g e),
                 (if int C < particleCount_g g + int (particleCount e)
                  then [WarnMaxParticleCountExceeded (particleCount_g g + int (particleCount e)) C]
                  else []))"
    using r by (simp add: warn_def endp_def start_def)
  have c1': "\<forall>k i. particleCount_g g \<le> i \<and> i < particleCount_g g + int (particleCount e) \<and> i < int C
            \<longrightarrow> take (length (written e smp k i)) (slotOf g' k i) = written e smp k i"
    using c1 by (simp add: endp_def start_def)
  have c2': "\<forall>k i. int C \<le> i \<longrightarrow> slotOf g' k i = replicate (stride k) NaN"
    using c2 by simp
  have c3': "\<forall>k i. typedArray (attributes g k) \<noteq> None
              \<and> (i < particleCount_g g \<or> particleCount_g g + int (particleCount e) \<le> i)
            \<longrightarrow> slotOf g' k i = slotOf g k i"
    using c3 by (simp add: endp_def start_def)
  have bl': "\<forall>k. bufferLength g' k = C * stride k" using bl by simp
  show ?thesis
    using r' f s' bl' c1' c2' c3' by blast
qed

subsection \<open>removeEmitter\<close>

lemma rd_cut:
  assumes ab: "A \<le> B" and q: "q = p + (B - A)"
  shows "rd (take A xs @ drop B xs) (real p) = (if p < A then rd xs (real p) else rd xs (real q))"
proof (cases "A \<le> length xs")
  case True
  then have la: "length (take A xs) = A" by simp
  show ?thesis
  proof (cases "p < A")
    case True
    then show ?thesis using la \<open>A \<le> length xs\<close> by (simp add: nth_append)
  next
    case False
    have n: "(take A xs @ drop B xs) ! p = drop B xs ! (p - A)"
      using la False by (simp add: nth_append)
    have c: "(p < length (take A xs @ drop B xs)) = (q < length xs)"
      using False ab True q by simp linarith
    have i: "B + (p - A) = q" using False ab q by simp
    show ?thesis
    proof (cases "q < length xs")
      case True
      then have "B \<le> length xs" using q False ab by linarith
      then have "drop B xs ! (p - A) = xs ! q" using i True by simp
      then show ?thesis using False True c n by (simp only: rd_nat if_True if_False)
    next
      case nq: False
      then show ?thesis using False c by (simp only: rd_nat if_True if_False)
    qed
  qed
next
  case False
  then have e: "take A xs @ drop B xs = xs" using ab by simp
  have "\<not> p < length xs" if "\<not> p < A" using that False by simp
  moreover have "\<not> q < length xs" if "\<not> p < A" using that False q by simp
  ultimately show ?thesis by (simp add: e)
qed

lemma cells_cut:
  assumes K: "itemSize_h h = K" and K': "itemSize_h h' = K"
    and arr: "array h' = take (a * K) (array h) @ drop (b * K) (array h)" and ab: "a \<le> b"
  shows "i < int a \<Longrightarrow> cells h' i = cells h i"
    and "int a \<le> i \<Longrightarrow> cells h' i = cells h (i + int (b - a))"
proof -
  have AB: "a * K \<le> b * K" using ab by (rule mult_le_mono1)
  have step: "rd (array h') (real (n * K + j))
        = (if n < a then rd (array h) (real (n * K + j))
           else rd (array h) (real ((n + (b - a)) * K + j)))" if j: "j < K" for n j
  proof -
    have q: "(n + (b - a)) * K + j = (n * K + j) + (b * K - a * K)"
      by (simp add: add_mult_distrib diff_mult_distrib)
    show ?thesis
      unfolding arr rd_cut [OF AB q] slot_less_iff [OF j] ..
  qed
  show "cells h' i = cells h i" if "i < int a"
  proof (cases "0 \<le> i")
    case False
    then show ?thesis using cells_negative [of i h'] cells_negative [of i h] K K' by simp
  next
    case True
    then have "nat i < a" using that by simp
    then show ?thesis
      using step by (simp add: cells_nonneg [OF True] K K' del: of_nat_add of_nat_mult)
  qed
  show "cells h' i = cells h (i + int (b - a))" if "int a \<le> i"
  proof -
    have i0: "0 \<le> i" "0 \<le> i + int (b - a)" using that by simp_all
    have n: "\<not> nat i < a" using that by simp
    have e: "nat (i + int (b - a)) = nat i + (b - a)" using i0 by (simp add: nat_add_distrib)
    show ?thesis
      using step n
      by (simp add: cells_nonneg [OF i0(1)] cells_nonneg [OF i0(2)] K K' e
          del: of_nat_add of_nat_mult)
  qed
qed

lemma killRange_writeCells:
  "killRange start end xs
     = fold (\<lambda>i. writeCells (real_of_int i * real 4) [Val 0, Val 0]) [start..end - 1] xs"
proof -
  have "(\<lambda>i ys. wr (wr ys (real_of_int (i * 4)) (Val 0)) (real_of_int (i * 4 + 1)) (Val 0))
      = (\<lambda>i. writeCells (real_of_int i * real 4) [Val 0, Val 0])"
    by (intro ext) simp
  then show ?thesis by (simp add: killRange_def)
qed

lemma spliceAll_ok:
  assumes "distinct ks"
    and "\<And>k. k \<in> set ks \<Longrightarrow> k \<noteq> A_params \<Longrightarrow> splice_attr s e (attrs k) = Inr (F k)"
  shows "spliceAll s e ks attrs = Inr (\<lambda>k. if k \<in> set ks \<and> k \<noteq> A_params then F k else attrs k)"
  using assms
proof (induction ks arbitrary: attrs)
  case Nil
  then show ?case by simp
next
  case (Cons k ks)
  show ?case
  proof (cases "k = A_params")
    case True
    have "spliceAll s e ks attrs = Inr (\<lambda>j. if j \<in> set ks \<and> j \<noteq> A_params then F j else attrs j)"
      using Cons.prems by (intro Cons.IH) auto
    moreover have "(\<lambda>j. if j \<in> set ks \<and> j \<noteq> A_params then F j else attrs j)
      = (\<lambda>j. if j \<in> set (k # ks) \<and> j \<noteq> A_params then F j else attrs j)"
      using True by (intro ext) auto
    ultimately show ?thesis using True by simp
  next
    case False
    have r: "spliceAll s e ks (attrs(k := F k))
        = Inr (\<lambda>j. if j \<in> set ks \<and> j \<noteq> A_params then F j else (attrs(k := F k)) j)"
      using Cons.prems by (intro Cons.IH) auto
    have "(\<lambda>j. if j \<in> set ks \<and> j \<noteq> A_params then F j else (attrs(k := F k)) j)
      = (\<lambda>j. if j \<in> set (k # ks) \<and> j \<noteq> A_params then F j else attrs j)"
      using False by (intro ext) auto
    then show ?thesis using r False Cons.prems(2) [of k] by simp
  qed
qed

lemma splice_attr_ok:
  assumes ta: "typedArray a = Some h" and se: "s \<le> e"
  shows "\<exists>a' h'. splice_attr (int s) (int e) a = Inr a' \<and> typedArray a' = Some h'
            \<and> array h' = take (s * itemSize_h h) (array h) @ drop (e * itemSize_h h) (array h)
            \<and> itemSize_h h' = itemSize_h h"
proof -
  obtain h' where sp: "splice (int s) (int e) h = Inr h'"
    and ar: "array h' = take (s * itemSize_h h) (array h) @ drop (e * itemSize_h h) (array h)"
    and ik: "itemSize_h h' = itemSize_h h"
    using splice_cut [OF se, of h] by blast
  show ?thesis
    using ta sp ar ik
    by (cases "bufferAttribute a") (simp_all add: splice_attr_def forceUpdateAll_def)
qed

lemma removeEmitter_member:
  assumes idx: "indexOf (uuid e) (emitterIDs g) = Some n"
    and a0: "0 \<le> attributeOffset e"
    and ta: "\<And>k. typedArray (attributes g k) = Some (H k)"
    and ik: "\<And>k. itemSize_h (H k) = stride k"
    and pl: "length (array (H A_params)) = Cp * 4"
  shows "\<exists>g'. removeEmitter (AnEmitter e) g = Inr (g', AnEmitter (onRemove e), [])
     \<and> particleCount_g g' = particleCount_g g - int (particleCount e)
     \<and> emitters g' = removeAt n (emitters g) \<and> emitterIDs g' = removeAt n (emitterIDs g)
     \<and> (\<forall>i. attributeOffset e \<le> i \<and> i < attributeOffset e + int (particleCount e) \<and> i < int Cp
            \<longrightarrow> take 2 (slotOf g' A_params i) = [Val 0, Val 0])
     \<and> (\<forall>i. i < attributeOffset e \<or> attributeOffset e + int (particleCount e) \<le> i
            \<longrightarrow> slotOf g' A_params i = slotOf g A_params i)
     \<and> (\<forall>k i. k \<noteq> A_params \<and> i < attributeOffset e \<longrightarrow> slotOf g' k i = slotOf g k i)
     \<and> (\<forall>k i. k \<noteq> A_params \<and> attributeOffset e \<le> i
            \<longrightarrow> slotOf g' k i = slotOf g k (i + int (particleCount e)))"
proof -
  define start where "start = attributeOffset e"
  define endp where "endp = start + int (particleCount e)"
  define s where "s = nat start"
  define cnt where "cnt = particleCount e"
  have si: "start = int s" "endp = int (s + cnt)" using a0 by (simp_all add: s_def start_def endp_def cnt_def)
  define hp where "hp = (H A_params)\<lparr>array := killRange start endp (array (H A_params))\<rparr>"
  define attrs1 where "attrs1 = (attributes g)(A_params := (attributes g A_params)\<lparr>typedArray := Some hp\<rparr>)"
  have a1: "(if start < endp
             then (case typedArray (attributes g A_params) of
                     None \<Rightarrow> Inl TypeError
                   | Some h \<Rightarrow>
                       Inr ((attributes g)(A_params := (attributes g A_params)
                              \<lparr>typedArray := Some (h\<lparr>array := killRange start endp (array h)\<rparr>)\<rparr>)))
             else Inr (attributes g)) = Inr attrs1"
  proof (cases "start < endp")
    case True
    then show ?thesis using ta [of A_params] by (simp add: attrs1_def hp_def)
  next
    case False
    then have "[start..endp - 1] = []" by simp
    then have "hp = H A_params" by (simp add: hp_def killRange_def)
    then have "attrs1 = attributes g" using ta [of A_params] by (auto simp add: attrs1_def)
    then show ?thesis using False by simp
  qed
  have "\<exists>F. \<forall>k. k \<noteq> A_params \<longrightarrow> (\<exists>h'. splice_attr start endp (attrs1 k) = Inr (F k)
           \<and> typedArray (F k) = Some h'
           \<and> array h' = take (s * stride k) (array (H k)) @ drop ((s + cnt) * stride k) (array (H k))
           \<and> itemSize_h h' = stride k)"
  proof -
    have "\<exists>a' h'. splice_attr start endp (attrs1 k) = Inr a' \<and> typedArray a' = Some h'
           \<and> array h' = take (s * stride k) (array (H k)) @ drop ((s + cnt) * stride k) (array (H k))
           \<and> itemSize_h h' = stride k" if "k \<noteq> A_params" for k
      using splice_attr_ok [of "attributes g k" "H k" s "s + cnt"] ta [of k] ik [of k] that
      by (simp add: attrs1_def si)
    then show ?thesis by metis
  qed
  then obtain F where F: "\<And>k. k \<noteq> A_params \<Longrightarrow> \<exists>h'. splice_attr start endp (attrs1 k) = Inr (F k)
           \<and> typedArray (F k) = Some h'
           \<and> array h' = take (s * stride k) (array (H k)) @ drop ((s + cnt) * stride k) (array (H k))
           \<and> itemSize_h h' = stride k"
    by blast
  define attrs2 where "attrs2 = (\<lambda>k. if k \<in> set allKeys \<and> k \<noteq> A_params then F k else attrs1 k)"
  have a2: "spliceAll start endp allKeys attrs1 = Inr attrs2"
    unfolding attrs2_def using allKeys_distinct F by (intro spliceAll_ok) auto
  define g' where "g' = g\<lparr>emitters := removeAt n (emitters g),
                               emitterIDs := removeAt n (emitterIDs g),
                               attributes := attrs2,
                               particleCount_g := particleCount_g g - int (particleCount e),
                               attributesNeedRefresh := True\<rparr>"
  have r: "removeEmitter (AnEmitter e) g = Inr (g', AnEmitter (onRemove e), [])"
    unfolding removeEmitter_def Let_def
    by (simp only: arg.case idx option.case a1 [unfolded endp_def start_def]
          a2 [unfolded endp_def start_def] sum.case g'_def)
  have sp: "slotOf g' A_params i = cells hp i" for i
    by (simp add: slotOf_def g'_def attrs2_def attrs1_def)
  have sg: "slotOf g k i = cells (H k) i" for k i
    by (simp add: slotOf_def ta)
  have hpw: "hp = (H A_params)\<lparr>array := fold (\<lambda>i. writeCells (real_of_int i * real 4) [Val 0, Val 0])
                  [start..endp - 1] (array (H A_params))\<rparr>"
    by (simp add: hp_def killRange_writeCells)
  have s0: "0 \<le> start" using a0 by (simp add: start_def)
  have ip: "itemSize_h (H A_params) = 4" using ik [of A_params] by (simp add: stride_def)
  have p1: "take 2 (slotOf g' A_params i) = [Val 0, Val 0]"
    if "start \<le> i" "i < endp" "i < int Cp" for i
    using populated_cells(1) [where h = "H A_params" and K = 4 and C = Cp and a = start and b = endp
        and W = "\<lambda>i. [Val 0, Val 0]" and m = 2 and h' = hp, OF ip pl s0 _ _ hpw that]
    by (simp add: sp)
  have p2: "slotOf g' A_params i = slotOf g A_params i" if "i < start \<or> endp \<le> i" for i
    using populated_cells(3) [where h = "H A_params" and K = 4 and C = Cp and a = start and b = endp
        and W = "\<lambda>i. [Val 0, Val 0]" and m = 2 and h' = hp, OF ip pl s0 _ _ hpw that]
    by (simp add: sp sg)
  have o: "(i < start \<longrightarrow> slotOf g' k i = slotOf g k i)
         \<and> (start \<le> i \<longrightarrow> slotOf g' k i = slotOf g k (i + int (particleCount e)))"
    if kp: "k \<noteq> A_params" for k i
  proof -
    obtain h' where t': "typedArray (F k) = Some h'"
      and ar: "array h' = take (s * stride k) (array (H k)) @ drop ((s + cnt) * stride k) (array (H k))"
      and ik': "itemSize_h h' = stride k"
      using F [OF kp] by blast
    have sl: "slotOf g' k j = cells h' j" for j
      using kp t' allKeys_all by (simp add: slotOf_def g'_def attrs2_def)
    have le: "s \<le> s + cnt" by simp
    show ?thesis
      using cells_cut [where h = "H k" and h' = h' and K = "stride k" and a = s and b = "s + cnt"
          and i = i, OF ik ik' ar le]
      by (simp add: sl sg si cnt_def)
  qed
  have f: "particleCount_g g' = particleCount_g g - int (particleCount e)"
    "emitters g' = removeAt n (emitters g)" "emitterIDs g' = removeAt n (emitterIDs g)"
    by (simp_all add: g'_def)
  have p1': "\<forall>i. attributeOffset e \<le> i \<and> i < attributeOffset e + int (particleCount e) \<and> i < int Cp
            \<longrightarrow> take 2 (slotOf g' A_params i) = [Val 0, Val 0]"
    using p1 by (simp add: start_def endp_def)
  have p2': "\<forall>i. i < attributeOffset e \<or> attributeOffset e + int (particleCount e) \<le> i
            \<longrightarrow> slotOf g' A_params i = slotOf g A_params i"
    using p2 by (simp add: start_def endp_def)
  have o1: "\<forall>k i. k \<noteq> A_params \<and> i < attributeOffset e \<longrightarrow> slotOf g' k i = slotOf g k i"
    using o by (simp add: start_def)
  have o2: "\<forall>k i. k \<noteq> A_params \<and> attributeOffset e \<le> i
            \<longrightarrow> slotOf g' k i = slotOf g k (i + int (particleCount e))"
    using o by (simp add: start_def)
  show ?thesis using r f p1' p2' o1 o2 by blast
qed

lemma stride_pos: "0 < stride k"
  by (cases k) (simp_all add: stride_def)

lemma sized_arrays:
  assumes sz: "sizedFor C g" and ex: "typedArray (attributes g k) \<noteq> None"
  shows "\<exists>h. typedArray (attributes g k) = Some h \<and> itemSize_h h = stride k
           \<and> length (array h) = C * stride k"
  using sizedForD [OF sz, of k] ex by (auto simp add: sizedAttr_def)

lemma buffer_exists:
  assumes bl: "bufferLength g k = C * stride k" and C: "0 < C"
  shows "typedArray (attributes g k) \<noteq> None"
  using bl C stride_pos [of k] by (cases "typedArray (attributes g k)") (simp_all add: bufferLength_def)

lemma slotOf_length:
  assumes "typedArray (attributes g k) = Some h" and "itemSize_h h = stride k"
  shows "length (slotOf g k i) = stride k"
  using assms by (simp add: slotOf_def cells_def)

lemma after_Inr: "call g = Inr (g', a, d) \<Longrightarrow> after call g = g'"
  by (simp add: after_def)

lemma addEmitter_after:
  assumes mx: "maxParticleCount g = Some C" and sz: "sizedFor C g"
    and nm: "uuid e \<notin> set (emitterIDs g)" and ng: "group e = None"
    and p0: "0 \<le> particleCount_g g"
    and g': "g' = after (addEmitter smp (AnEmitter e)) g"
  shows "addEmitter smp (AnEmitter e) g =
            Inr (g', AnEmitter (joined g e),
                 (if int C < particleCount_g g + int (particleCount e)
                  then [WarnMaxParticleCountExceeded (particleCount_g g + int (particleCount e)) C]
                  else []))"
    and "emitters g' = emitters g @ [joined g e]" and "emitterIDs g' = emitterIDs g @ [uuid e]"
    and "particleCount_g g' = particleCount_g g + int (particleCount e)"
    and "maxParticleCount g' = Some C" and "uuid_g g' = uuid_g g" and "sizedFor C g'"
    and "\<And>k. bufferLength g' k = C * stride k"
    and "\<And>k i. particleCount_g g \<le> i \<Longrightarrow> i < particleCount_g g + int (particleCount e) \<Longrightarrow> i < int C
            \<Longrightarrow> take (length (written e smp k i)) (slotOf g' k i) = written e smp k i"
    and "\<And>k i. int C \<le> i \<Longrightarrow> slotOf g' k i = replicate (stride k) NaN"
    and "\<And>k i. typedArray (attributes g k) \<noteq> None
              \<Longrightarrow> i < particleCount_g g \<or> particleCount_g g + int (particleCount e) \<le> i
            \<Longrightarrow> slotOf g' k i = slotOf g k i"
proof -
  obtain g1 where a: "addEmitter smp (AnEmitter e) g =
            Inr (g1, AnEmitter (joined g e),
                 (if int C < particleCount_g g + int (particleCount e)
                  then [WarnMaxParticleCountExceeded (particleCount_g g + int (particleCount e)) C]
                  else []))"
    and r: "emitters g1 = emitters g @ [joined g e]" "emitterIDs g1 = emitterIDs g @ [uuid e]"
      "particleCount_g g1 = particleCount_g g + int (particleCount e)"
      "maxParticleCount g1 = Some C" "uuid_g g1 = uuid_g g" "sizedFor C g1"
      "\<forall>k. bufferLength g1 k = C * stride k"
      "\<forall>k i. particleCount_g g \<le> i \<and> i < particleCount_g g + int (particleCount e) \<and> i < int C
            \<longrightarrow> take (length (written e smp k i)) (slotOf g1 k i) = written e smp k i"
      "\<forall>k i. int C \<le> i \<longrightarrow> slotOf g1 k i = replicate (stride k) NaN"
      "\<forall>k i. typedArray (attributes g k) \<noteq> None
              \<and> (i < particleCount_g g \<or> particleCount_g g + int (particleCount e) \<le> i)
            \<longrightarrow> slotOf g1 k i = slotOf g k i"
    using addEmitter_sized [OF mx sz nm ng p0, of smp] by blast
  have e: "g' = g1" using a g' by (simp add: after_def)
  show "addEmitter smp (AnEmitter e) g =
            Inr (g', AnEmitter (joined g e),
                 (if int C < particleCount_g g + int (particleCount e)
                  then [WarnMaxParticleCountExceeded (particleCount_g g + int (particleCount e)) C]
                  else []))"
    using a e by simp
  show "emitters g' = emitters g @ [joined g e]" using r(1) e by simp
  show "emitterIDs g' = emitterIDs g @ [uuid e]" using r(2) e by simp
  show "particleCount_g g' = particleCount_g g + int (particleCount e)" using r(3) e by simp
  show "maxParticleCount g' = Some C" using r(4) e by simp
  show "uuid_g g' = uuid_g g" using r(5) e by simp
  show "sizedFor C g'" using r(6) e by simp
  show "\<And>k. bufferLength g' k = C * stride k" using r(7) e by simp
  show "\<And>k i. particleCount_g g \<le> i \<Longrightarrow> i < particleCount_g g + int (particleCount e) \<Longrightarrow> i < int C
            \<Longrightarrow> take (length (written e smp k i)) (slotOf g' k i) = written e smp k i"
    using r(8) e by simp
  show "\<And>k i. int C \<le> i \<Longrightarrow> slotOf g' k i = replicate (stride k) NaN" using r(9) e by simp
  show "\<And>k i. typedArray (attributes g k) \<noteq> None
              \<Longrightarrow> i < particleCount_g g \<or> particleCount_g g + int (particleCount e) \<le> i
            \<Longrightarrow> slotOf g' k i = slotOf g k i"
    using r(10) e by simp
qed

lemma removeEmitter_sized:
  assumes sz: "sizedFor C g" and ex: "\<And>k. typedArray (attributes g k) \<noteq> None"
    and idx: "indexOf (uuid e) (emitterIDs g) = Some n"
    and a0: "0 \<le> attributeOffset e"
  shows "\<exists>g'. removeEmitter (AnEmitter e) g = Inr (g', AnEmitter (onRemove e), [])
     \<and> particleCount_g g' = particleCount_g g - int (particleCount e)
     \<and> emitters g' = removeAt n (emitters g) \<and> emitterIDs g' = removeAt n (emitterIDs g)
     \<and> (\<forall>i. attributeOffset e \<le> i \<and> i < attributeOffset e + int (particleCount e) \<and> i < int C
            \<longrightarrow> take 2 (slotOf g' A_params i) = [Val 0, Val 0])
     \<and> (\<forall>i. i < attributeOffset e \<or> attributeOffset e + int (particleCount e) \<le> i
            \<longrightarrow> slotOf g' A_params i = slotOf g A_params i)
     \<and> (\<forall>k i. k \<noteq> A_params \<and> i < attributeOffset e \<longrightarrow> slotOf g' k i = slotOf g k i)
     \<and> (\<forall>k i. k \<noteq> A_params \<and> attributeOffset e \<le> i
            \<longrightarrow> slotOf g' k i = slotOf g k (i + int (particleCount e)))"
proof -
  have "\<exists>H. \<forall>k. typedArray (attributes g k) = Some (H k) \<and> itemSize_h (H k) = stride k
           \<and> length (array (H k)) = C * stride k"
    using sized_arrays [OF sz ex] by metis
  then obtain H where ta: "\<And>k. typedArray (attributes g k) = Some (H k)"
    and ik: "\<And>k. itemSize_h (H k) = stride k"
    and ln: "\<And>k. length (array (H k)) = C * stride k"
    by blast
  have pl: "length (array (H A_params)) = C * 4" using ln [of A_params] by (simp add: stride_def)
  show ?thesis by (rule removeEmitter_member [OF idx a0 ta ik pl])
qed

subsection \<open>The example scenes\<close>

lemma new_Emitter_plain: "new_Emitter uid (plainOptions n) = Inr (plainEmitter uid n, [])"
  by (simp add: new_Emitter_def plainOptions_def plainEmitter_def noChannel_def channel_def
      orElse_def ensureValueOverLifetimeCompliance_def asArray_def clamp_def interpolateArray_def
      interpolateStep_def elemAt_def Let_def upt_rec ceiling_def valueOverLifetimeLength_def
      vec3_of_def lerp_def)

lemma plainEmitter_fields [simp]:
  "uuid (plainEmitter uid n) = uid" "particleCount (plainEmitter uid n) = n"
  "group (plainEmitter uid n) = None" "attributeOffset (plainEmitter uid n) = 0"
  by (simp_all add: plainEmitter_def)

lemma written_position [simp]:
  "written e indexSample A_position i = [Val (real_of_int i), Val (real_of_int i), Val (real_of_int i)]"
  by (simp add: written_def indexSample_def list3_def)

lemma sceneEmpty_facts:
  "maxParticleCount sceneEmpty = Some 10" "sizedFor 10 sceneEmpty"
  "emitterIDs sceneEmpty = []" "emitters sceneEmpty = []" "particleCount_g sceneEmpty = 0"
  by (simp_all add: sceneEmpty_def new_EmitterGroup_def sizedFor_def list_all_allKeys
      sizedAttr_def new_ShaderAttribute_def)

lemma stored_position:
  assumes sz: "sizedFor C g" and ex: "typedArray (attributes g A_position) \<noteq> None"
    and st: "take (length (written e indexSample A_position i)) (slotOf g A_position i)
               = written e indexSample A_position i"
  shows "slotOf g A_position i = [Val (real_of_int i), Val (real_of_int i), Val (real_of_int i)]"
proof -
  obtain h where "typedArray (attributes g A_position) = Some h" "itemSize_h h = stride A_position"
    using sized_arrays [OF sz ex] by blast
  then have "length (slotOf g A_position i) = 3"
    using slotOf_length [of g A_position h i] by (simp add: stride_def)
  then show ?thesis using st by simp
qed

lemma sceneA_facts:
  "addEmitter indexSample (AnEmitter (plainEmitter ''a'' 5)) sceneEmpty
     = Inr (sceneA, AnEmitter (joined sceneEmpty (plainEmitter ''a'' 5)), [])"
  "emitters sceneA = [joined sceneEmpty (plainEmitter ''a'' 5)]" "emitterIDs sceneA = [''a'']"
  "particleCount_g sceneA = 5" "maxParticleCount sceneA = Some 10" "sizedFor 10 sceneA"
  "typedArray (attributes sceneA k) \<noteq> None"
proof -
  note a = addEmitter_after [OF sceneEmpty_facts(1) sceneEmpty_facts(2) _ _ _ sceneA_def,
      unfolded sceneEmpty_facts(3) sceneEmpty_facts(4) sceneEmpty_facts(5),
      simplified]
  show "addEmitter indexSample (AnEmitter (plainEmitter ''a'' 5)) sceneEmpty
     = Inr (sceneA, AnEmitter (joined sceneEmpty (plainEmitter ''a'' 5)), [])"
    using a(1) by simp
  show "emitters sceneA = [joined sceneEmpty (plainEmitter ''a'' 5)]" using a(2) by simp
  show "emitterIDs sceneA = [''a'']" using a(3) by simp
  show "particleCount_g sceneA = 5" using a(4) by simp
  show "maxParticleCount sceneA = Some 10" using a(5) by simp
  show "sizedFor 10 sceneA" using a(7) by simp
  show "typedArray (attributes sceneA k) \<noteq> None"
    using buffer_exists [of sceneA k 10] a(8) [of k] by simp
qed

lemma sceneAB_facts:
  "addEmitter indexSample (AnEmitter (plainEmitter ''b'' 5)) sceneA
     = Inr (sceneAB, AnEmitter (joined sceneA (plainEmitter ''b'' 5)), [])"
  "emitters sceneAB = [joined sceneEmpty (plainEmitter ''a'' 5), joined sceneA (plainEmitter ''b'' 5)]"
  "emitterIDs sceneAB = [''a'', ''b'']"
  "particleCount_g sceneAB = 10" "maxParticleCount sceneAB = Some 10" "sizedFor 10 sceneAB"
  "typedArray (attributes sceneAB k) \<noteq> None"
  "5 \<le> i \<Longrightarrow> i < 10 \<Longrightarrow>
     slotOf sceneAB A_position i = [Val (real_of_int i), Val (real_of_int i), Val (real_of_int i)]"
  "10 \<le> i \<Longrightarrow> slotOf sceneAB k i = replicate (stride k) NaN"
proof -
  note a = addEmitter_after [OF sceneA_facts(5) sceneA_facts(6) _ _ _ sceneAB_def,
      unfolded sceneA_facts(2) sceneA_facts(3) sceneA_facts(4),
      simplified]
  show "addEmitter indexSample (AnEmitter (plainEmitter ''b'' 5)) sceneA
     = Inr (sceneAB, AnEmitter (joined sceneA (plainEmitter ''b'' 5)), [])"
    using a(1) by simp
  show "emitters sceneAB = [joined sceneEmpty (plainEmitter ''a'' 5), joined sceneA (plainEmitter ''b'' 5)]"
    using a(2) by simp
  show "emitterIDs sceneAB = [''a'', ''b'']" using a(3) by simp
  show "particleCount_g sceneAB = 10" using a(4) by simp
  show "maxParticleCount sceneAB = Some 10" using a(5) by simp
  show sz: "sizedFor 10 sceneAB" using a(7) by simp
  show ex: "typedArray (attributes sceneAB k) \<noteq> None" for k
    using buffer_exists [of sceneAB k 10] a(8) [of k] by simp
  show "slotOf sceneAB A_position i = [Val (real_of_int i), Val (real_of_int i), Val (real_of_int i)]"
    if "5 \<le> i" "i < 10"
    using stored_position [OF sz ex, of "plainEmitter ''b'' 5" i] a(9) [of i A_position] that by simp
  show "slotOf sceneAB k i = replicate (stride k) NaN" if "10 \<le> i"
    using a(10) [of i k] that by simp
qed

subsection \<open>addEmitter beyond the declared capacity\<close>

text \<open>
  C2 (amended). For a group declared for \<open>C\<close> particles whose buffers are not yet created
  or hold \<open>C\<close> slots, \<^verbatim>\<open>addEmitter(e)\<close> with a new emitter that brings the total above
  \<open>C\<close> reports the warning and proceeds: \<open>e\<close> becomes a member and the total counts its
  particles. The buffers hold \<open>C\<close> slots afterwards; the values assigned for the slots of
  \<open>e\<close> below \<open>C\<close> are stored, and a slot from \<open>C\<close> on reads as undefined in every buffer.
\<close>

theorem addEmitter_beyond_capacity:
  assumes mx: "maxParticleCount g = Some C" and sz: "sizedFor C g"
    and nm: "uuid e \<notin> set (emitterIDs g)" and ng: "group e = None"
    and p0: "0 \<le> particleCount_g g"
    and ex: "int C < particleCount_g g + int (particleCount e)"
  shows "\<exists>g'. addEmitter smp (AnEmitter e) g =
            Inr (g', AnEmitter (joined g e),
                 [WarnMaxParticleCountExceeded (particleCount_g g + int (particleCount e)) C])
     \<and> emitters g' = emitters g @ [joined g e] \<and> emitterIDs g' = emitterIDs g @ [uuid e]
     \<and> particleCount_g g' = particleCount_g g + int (particleCount e)
     \<and> (\<forall>k. bufferLength g' k = C * stride k)
     \<and> (\<forall>k i. particleCount_g g \<le> i \<and> i < int C
            \<longrightarrow> take (length (written e smp k i)) (slotOf g' k i) = written e smp k i)
     \<and> (\<forall>k i. int C \<le> i \<longrightarrow> slotOf g' k i = replicate (stride k) NaN)"
proof -
  define g' where "g' = after (addEmitter smp (AnEmitter e)) g"
  note a = addEmitter_after [OF mx sz nm ng p0 g'_def]
  have 1: "addEmitter smp (AnEmitter e) g =
            Inr (g', AnEmitter (joined g e),
                 [WarnMaxParticleCountExceeded (particleCount_g g + int (particleCount e)) C])"
    using a(1) ex by simp
  have 2: "\<forall>k i. particleCount_g g \<le> i \<and> i < int C
            \<longrightarrow> take (length (written e smp k i)) (slotOf g' k i) = written e smp k i"
    using a(9) ex by simp
  show ?thesis using 1 2 a(2) a(3) a(4) a(8) a(10) by blast
qed

theorem addEmitter_beyond_capacity_witness:
  "maxParticleCount sceneAB = Some 10 \<and> sizedFor 10 sceneAB
   \<and> uuid (plainEmitter ''c'' 1) \<notin> set (emitterIDs sceneAB)
   \<and> group (plainEmitter ''c'' 1) = None \<and> 0 \<le> particleCount_g sceneAB
   \<and> int 10 < particleCount_g sceneAB + int (particleCount (plainEmitter ''c'' 1))
   \<and> (\<exists>g'. addEmitter indexSample (AnEmitter (plainEmitter ''c'' 1)) sceneAB =
            Inr (g', AnEmitter (joined sceneAB (plainEmitter ''c'' 1)),
                 [WarnMaxParticleCountExceeded 11 10])
        \<and> emitterIDs g' = [''a'', ''b'', ''c''] \<and> particleCount_g g' = 11
        \<and> bufferLength g' A_position = 30
        \<and> slotOf g' A_position 10 = [NaN, NaN, NaN])"
proof -
  have h: "maxParticleCount sceneAB = Some 10" "sizedFor 10 sceneAB"
    "uuid (plainEmitter ''c'' 1) \<notin> set (emitterIDs sceneAB)"
    "group (plainEmitter ''c'' 1) = None" "0 \<le> particleCount_g sceneAB"
    "int 10 < particleCount_g sceneAB + int (particleCount (plainEmitter ''c'' 1))"
    using sceneAB_facts by simp_all
  obtain g' where "addEmitter indexSample (AnEmitter (plainEmitter ''c'' 1)) sceneAB =
            Inr (g', AnEmitter (joined sceneAB (plainEmitter ''c'' 1)),
                 [WarnMaxParticleCountExceeded
                    (particleCount_g sceneAB + int (particleCount (plainEmitter ''c'' 1))) 10])"
    "emitterIDs g' = emitterIDs sceneAB @ [uuid (plainEmitter ''c'' 1)]"
    "particleCount_g g' = particleCount_g sceneAB + int (particleCount (plainEmitter ''c'' 1))"
    "\<forall>k. bufferLength g' k = 10 * stride k"
    "\<forall>k i. int 10 \<le> i \<longrightarrow> slotOf g' k i = replicate (stride k) NaN"
    using addEmitter_beyond_capacity [OF h, of indexSample] by blast
  then have "addEmitter indexSample (AnEmitter (plainEmitter ''c'' 1)) sceneAB =
            Inr (g', AnEmitter (joined sceneAB (plainEmitter ''c'' 1)),
                 [WarnMaxParticleCountExceeded 11 10])
        \<and> emitterIDs g' = [''a'', ''b'', ''c''] \<and> particleCount_g g' = 11
        \<and> bufferLength g' A_position = 30
        \<and> slotOf g' A_position 10 = [NaN, NaN, NaN]"
    using sceneAB_facts(3) sceneAB_facts(4) by (simp add: stride_def numeral_3_eq_3)
  then show ?thesis using h by blast
qed

lemma sceneABC_facts:
  "addEmitter indexSample (AnEmitter (plainEmitter ''c'' 1)) sceneAB
     = Inr (sceneABC, AnEmitter (joined sceneAB (plainEmitter ''c'' 1)),
            [WarnMaxParticleCountExceeded 11 10])"
  "particleCount_g sceneABC = 11" "emitterIDs sceneABC = [''a'', ''b'', ''c'']"
  "bufferLength sceneABC k = 10 * stride k"
  "10 \<le> i \<Longrightarrow> slotOf sceneABC k i = replicate (stride k) NaN"
proof -
  note a = addEmitter_after [OF sceneAB_facts(5) sceneAB_facts(6) _ _ _ sceneABC_def,
      unfolded sceneAB_facts(2) sceneAB_facts(3) sceneAB_facts(4), simplified]
  show "addEmitter indexSample (AnEmitter (plainEmitter ''c'' 1)) sceneAB
     = Inr (sceneABC, AnEmitter (joined sceneAB (plainEmitter ''c'' 1)),
            [WarnMaxParticleCountExceeded 11 10])"
    using a(1) by simp
  show "particleCount_g sceneABC = 11" using a(4) by simp
  show "emitterIDs sceneABC = [''a'', ''b'', ''c'']" using a(3) by simp
  show "bufferLength sceneABC k = 10 * stride k" using a(8) [of k] by simp
  show "slotOf sceneABC k i = replicate (stride k) NaN" if "10 \<le> i"
    using a(10) [of i k] that by simp
qed

text \<open>
  C2, as stated, fails. In a group declared for 10 particles that holds two emitters of
  5 particles, adding an emitter of one particle is reported (11 > 10) and counted, but
  the position buffer keeps its 30 cells and the value assigned for the slot 10 is not
  in it: the slot reads as undefined.
\<close>

theorem eleventh_slot_not_stored:
  "addEmitter indexSample (AnEmitter (plainEmitter ''c'' 1)) sceneAB
     = Inr (sceneABC, AnEmitter (joined sceneAB (plainEmitter ''c'' 1)),
            [WarnMaxParticleCountExceeded 11 10])
   \<and> particleCount_g sceneABC = 11
   \<and> bufferLength sceneABC A_position = 30
   \<and> written (plainEmitter ''c'' 1) indexSample A_position 10 = [Val 10, Val 10, Val 10]
   \<and> slotOf sceneABC A_position 10 = [NaN, NaN, NaN]"
  using sceneABC_facts(1) sceneABC_facts(2) sceneABC_facts(4) [of A_position]
    sceneABC_facts(5) [of 10 A_position]
  by (simp add: stride_def numeral_3_eq_3)

subsection \<open>removeEmitter of the first of two emitters\<close>

text \<open>
  C4 (amended). For a group that holds two emitters, the first of them at the slots
  from 0 on, and whose buffers hold \<open>C\<close> slots, \<^verbatim>\<open>removeEmitter\<close> of the first
  one returns at once with the particle count decremented by the emitter's and the
  second emitter as the only member. In the params buffer the alive flag and the age
  of every slot of the removed range are 0 and the slots after the range are as before.
  Every other buffer is compacted: its slot \<open>i\<close> holds what the slot
  \<open>i + particleCount\<close> held before, so the values of the remaining emitter are kept but
  are found from the slot 0 on, while its \<open>attributeOffset\<close> is as before.
\<close>

theorem removeEmitter_first_of_two:
  assumes sz: "sizedFor C g" and ex: "\<forall>k. typedArray (attributes g k) \<noteq> None"
    and em: "emitters g = [e1, e2]" and ids: "emitterIDs g = [uuid e1, uuid e2]"
    and o1: "attributeOffset e1 = 0"
  shows "\<exists>g'. removeEmitter (AnEmitter e1) g = Inr (g', AnEmitter (onRemove e1), [])
     \<and> particleCount_g g' = particleCount_g g - int (particleCount e1)
     \<and> emitters g' = [e2] \<and> emitterIDs g' = [uuid e2]
     \<and> (\<forall>i. 0 \<le> i \<and> i < int (particleCount e1) \<and> i < int C
            \<longrightarrow> take 2 (slotOf g' A_params i) = [Val 0, Val 0])
     \<and> (\<forall>i. int (particleCount e1) \<le> i \<longrightarrow> slotOf g' A_params i = slotOf g A_params i)
     \<and> (\<forall>k i. k \<noteq> A_params \<and> 0 \<le> i
            \<longrightarrow> slotOf g' k i = slotOf g k (i + int (particleCount e1)))"
proof -
  have idx: "indexOf (uuid e1) (emitterIDs g) = Some 0" using ids by simp
  have a0: "0 \<le> attributeOffset e1" using o1 by simp
  have ex': "typedArray (attributes g k) \<noteq> None" for k using ex by simp
  obtain g' where r: "removeEmitter (AnEmitter e1) g = Inr (g', AnEmitter (onRemove e1), [])"
    and c: "particleCount_g g' = particleCount_g g - int (particleCount e1)"
    and m: "emitters g' = removeAt 0 (emitters g)" "emitterIDs g' = removeAt 0 (emitterIDs g)"
    and p1: "\<forall>i. attributeOffset e1 \<le> i \<and> i < attributeOffset e1 + int (particleCount e1) \<and> i < int C
            \<longrightarrow> take 2 (slotOf g' A_params i) = [Val 0, Val 0]"
    and p2: "\<forall>i. i < attributeOffset e1 \<or> attributeOffset e1 + int (particleCount e1) \<le> i
            \<longrightarrow> slotOf g' A_params i = slotOf g A_params i"
    and o: "\<forall>k i. k \<noteq> A_params \<and> attributeOffset e1 \<le> i
            \<longrightarrow> slotOf g' k i = slotOf g k (i + int (particleCount e1))"
    using removeEmitter_sized [OF sz ex' idx a0] by blast
  have m': "emitters g' = [e2]" "emitterIDs g' = [uuid e2]"
    using m em ids by (simp_all add: removeAt_def)
  have p1': "\<forall>i. 0 \<le> i \<and> i < int (particleCount e1) \<and> i < int C
            \<longrightarrow> take 2 (slotOf g' A_params i) = [Val 0, Val 0]"
    using p1 o1 by simp
  have p2': "\<forall>i. int (particleCount e1) \<le> i \<longrightarrow> slotOf g' A_params i = slotOf g A_params i"
    using p2 o1 by simp
  have o': "\<forall>k i. k \<noteq> A_params \<and> 0 \<le> i
            \<longrightarrow> slotOf g' k i = slotOf g k (i + int (particleCount e1))"
    using o o1 by simp
  show ?thesis using r c m' p1' p2' o' by blast
qed

theorem removeEmitter_first_of_two_witness:
  "sizedFor 10 sceneAB \<and> (\<forall>k. typedArray (attributes sceneAB k) \<noteq> None)
   \<and> emitters sceneAB = [joined sceneEmpty (plainEmitter ''a'' 5), joined sceneA (plainEmitter ''b'' 5)]
   \<and> emitterIDs sceneAB = [uuid (joined sceneEmpty (plainEmitter ''a'' 5)),
                            uuid (joined sceneA (plainEmitter ''b'' 5))]
   \<and> attributeOffset (joined sceneEmpty (plainEmitter ''a'' 5)) = 0
   \<and> (\<exists>g'. removeEmitter (AnEmitter (joined sceneEmpty (plainEmitter ''a'' 5))) sceneAB
             = Inr (g', AnEmitter (onRemove (joined sceneEmpty (plainEmitter ''a'' 5))), [])
        \<and> particleCount_g g' = 5
        \<and> emitters g' = [joined sceneA (plainEmitter ''b'' 5)] \<and> emitterIDs g' = [''b'']
        \<and> take 2 (slotOf g' A_params 4) = [Val 0, Val 0]
        \<and> slotOf g' A_position 0 = [Val 5, Val 5, Val 5])"
proof -
  let ?a = "joined sceneEmpty (plainEmitter ''a'' 5)"
  let ?b = "joined sceneA (plainEmitter ''b'' 5)"
  have h: "sizedFor 10 sceneAB" "\<forall>k. typedArray (attributes sceneAB k) \<noteq> None"
    "emitters sceneAB = [?a, ?b]" "emitterIDs sceneAB = [uuid ?a, uuid ?b]"
    "attributeOffset ?a = 0"
    using sceneAB_facts sceneEmpty_facts by simp_all
  obtain g' where r: "removeEmitter (AnEmitter ?a) sceneAB = Inr (g', AnEmitter (onRemove ?a), [])"
    and c: "particleCount_g g' = particleCount_g sceneAB - int (particleCount ?a)"
    and m: "emitters g' = [?b]" "emitterIDs g' = [uuid ?b]"
    and p: "\<forall>i. 0 \<le> i \<and> i < int (particleCount ?a) \<and> i < int 10
            \<longrightarrow> take 2 (slotOf g' A_params i) = [Val 0, Val 0]"
    and o: "\<forall>k i. k \<noteq> A_params \<and> 0 \<le> i
            \<longrightarrow> slotOf g' k i = slotOf sceneAB k (i + int (particleCount ?a))"
    using removeEmitter_first_of_two [OF h] by blast
  have 1: "particleCount_g g' = 5" using c sceneAB_facts(4) by simp
  have 2: "take 2 (slotOf g' A_params 4) = [Val 0, Val 0]" using p by simp
  have "slotOf g' A_position 0 = slotOf sceneAB A_position 5" using o by simp
  then have 3: "slotOf g' A_position 0 = [Val 5, Val 5, Val 5]"
    using sceneAB_facts(8) [of 5] by simp
  have 4: "emitterIDs g' = [''b'']" using m(2) by simp
  show ?thesis using h r 1 m(1) 4 2 3 by blast
qed

lemma sceneB_facts:
  "removeEmitter (AnEmitter (joined sceneEmpty (plainEmitter ''a'' 5))) sceneAB
     = Inr (sceneB, AnEmitter (onRemove (joined sceneEmpty (plainEmitter ''a'' 5))), [])"
  "emitters sceneB = [joined sceneA (plainEmitter ''b'' 5)]"
  "0 \<le> i \<Longrightarrow> k \<noteq> A_params \<Longrightarrow> slotOf sceneB k i = slotOf sceneAB k (i + 5)"
proof -
  let ?a = "joined sceneEmpty (plainEmitter ''a'' 5)"
  have idx: "indexOf (uuid ?a) (emitterIDs sceneAB) = Some 0" using sceneAB_facts(3) by simp
  have a0: "0 \<le> attributeOffset ?a" using sceneEmpty_facts by simp
  obtain g' where r: "removeEmitter (AnEmitter ?a) sceneAB = Inr (g', AnEmitter (onRemove ?a), [])"
    and m: "emitters g' = removeAt 0 (emitters sceneAB)"
    and o: "\<forall>k i. k \<noteq> A_params \<and> attributeOffset ?a \<le> i
            \<longrightarrow> slotOf g' k i = slotOf sceneAB k (i + int (particleCount ?a))"
    using removeEmitter_sized [OF sceneAB_facts(6) sceneAB_facts(7) idx a0] by blast
  have e: "sceneB = g'" using r by (simp add: sceneB_def after_def)
  show "removeEmitter (AnEmitter ?a) sceneAB = Inr (sceneB, AnEmitter (onRemove ?a), [])"
    using r e by simp
  show "emitters sceneB = [joined sceneA (plainEmitter ''b'' 5)]"
    using m e sceneAB_facts(2) by (simp add: removeAt_def)
  show "slotOf sceneB k i = slotOf sceneAB k (i + 5)" if "0 \<le> i" "k \<noteq> A_params"
    using o e that sceneEmpty_facts(5) by simp
qed

text \<open>
  C4, as stated, fails. With two emitters of 5 particles in a group declared for 10,
  the second emitter has the slots from 5 on, and its slot 5 of the position buffer
  holds the value written for it. After the first emitter is removed the second is
  still at the offset 5, the position buffer has been compacted, and the slot 5
  reads as undefined.
\<close>

theorem remaining_slots_not_kept:
  "removeEmitter (AnEmitter (joined sceneEmpty (plainEmitter ''a'' 5))) sceneAB
     = Inr (sceneB, AnEmitter (onRemove (joined sceneEmpty (plainEmitter ''a'' 5))), [])
   \<and> emitters sceneB = [joined sceneA (plainEmitter ''b'' 5)]
   \<and> attributeOffset (joined sceneA (plainEmitter ''b'' 5)) = 5
   \<and> slotOf sceneAB A_position 5 = [Val 5, Val 5, Val 5]
   \<and> slotOf sceneB A_position 5 = [NaN, NaN, NaN]"
  using sceneB_facts(1) sceneB_facts(2) sceneB_facts(3) [of 5 A_position]
    sceneAB_facts(8) [of 5] sceneAB_facts(9) [of 10 A_position] sceneA_facts(4)
  by (simp add: stride_def numeral_3_eq_3)

subsection \<open>The statements above at the example scenes\<close>

theorem tick_duration_exceeded_witness:
  "\<not> isStatic ((plainEmitter ''a'' 5)\<lparr>duration := Some 1, age := 2, onFinishCbs := [7]\<rparr>)
   \<and> paramsArray ((plainEmitter ''a'' 5)\<lparr>duration := Some 1, age := 2, onFinishCbs := [7]\<rparr>) \<noteq> PUndefined
   \<and> alive ((plainEmitter ''a'' 5)\<lparr>duration := Some 1, age := 2, onFinishCbs := [7]\<rparr>)
   \<and> duration ((plainEmitter ''a'' 5)\<lparr>duration := Some 1, age := 2, onFinishCbs := [7]\<rparr>) = Some 1
   \<and> 1 < age ((plainEmitter ''a'' 5)\<lparr>duration := Some 1, age := 2, onFinishCbs := [7]\<rparr>)
   \<and> (\<exists>e1 b1. tick 1 indexSample
                 ((plainEmitter ''a'' 5)\<lparr>duration := Some 1, age := 2, onFinishCbs := [7]\<rparr>)
                 (Some noSlots) = Inr (e1, Some b1, [7])
          \<and> \<not> alive e1 \<and> age e1 = 0
          \<and> (\<exists>e2 b2. ticks [(1, indexSample), (1, indexSample)] (e1, Some b1, [7])
                         = Inr (e2, Some b2, [7]) \<and> \<not> alive e2 \<and> age e2 = 0))"
proof -
  let ?e = "(plainEmitter ''a'' 5)\<lparr>duration := Some 1, age := 2, onFinishCbs := [7]\<rparr>"
  have h: "\<not> isStatic ?e" "paramsArray ?e \<noteq> PUndefined" "alive ?e" "duration ?e = Some 1"
    "1 < age ?e"
    by (simp_all add: plainEmitter_def)
  have c: "onFinishCbs ?e = [7]" by simp
  show ?thesis
    using tick_duration_exceeded [OF h, of 1 indexSample noSlots] h unfolding c by blast
qed

theorem membership_misuse_rejected_witness:
  "uuid (joined sceneEmpty (plainEmitter ''a'' 5)) \<in> set (emitterIDs sceneAB)
   \<and> uuid ((plainEmitter ''c'' 1)\<lparr>group := Some ''other''\<rparr>) \<notin> set (emitterIDs sceneAB)
   \<and> group ((plainEmitter ''c'' 1)\<lparr>group := Some ''other''\<rparr>) \<noteq> None
   \<and> uuid (plainEmitter ''d'' 1) \<notin> set (emitterIDs sceneAB)
   \<and> addEmitter indexSample OtherObject sceneAB = Inr (sceneAB, OtherObject, [ErrorNotAnEmitter])
   \<and> addEmitter indexSample (AnEmitter (joined sceneEmpty (plainEmitter ''a'' 5))) sceneAB
        = Inr (sceneAB, AnEmitter (joined sceneEmpty (plainEmitter ''a'' 5)), [ErrorAlreadyInThisGroup])
   \<and> addEmitter indexSample (AnEmitter ((plainEmitter ''c'' 1)\<lparr>group := Some ''other''\<rparr>)) sceneAB
        = Inr (sceneAB, AnEmitter ((plainEmitter ''c'' 1)\<lparr>group := Some ''other''\<rparr>),
               [ErrorInAnotherGroup])
   \<and> removeEmitter (AnEmitter (plainEmitter ''d'' 1)) sceneAB
        = Inr (sceneAB, AnEmitter (plainEmitter ''d'' 1), [ErrorNotInThisGroup])"
proof -
  have h: "uuid (joined sceneEmpty (plainEmitter ''a'' 5)) \<in> set (emitterIDs sceneAB)"
    "uuid ((plainEmitter ''c'' 1)\<lparr>group := Some ''other''\<rparr>) \<notin> set (emitterIDs sceneAB)"
    "group ((plainEmitter ''c'' 1)\<lparr>group := Some ''other''\<rparr>) \<noteq> None"
    "uuid (plainEmitter ''d'' 1) \<notin> set (emitterIDs sceneAB)"
    using sceneAB_facts(3) by simp_all
  show ?thesis
    using membership_misuse_rejected [OF h, of indexSample] h by blast
qed

lemma plain_run:
  "\<not> isStatic (plainEmitter uid n)" "paramsArray (plainEmitter uid n) = PNull"
  "alive (plainEmitter uid n)" "duration (plainEmitter uid n) = None"
  "activeMultiplier (plainEmitter uid n) = 1"
  "particlesPerSecond (joined g (plainEmitter uid 5)) = Val (5 / 2)"
  by (simp_all add: joined_def setAttributeOffset_def setBufferUpdateRanges_def
      calculatePPSValue_def plainEmitter_def jdiv_def)

theorem tick_cursor_in_range_witness:
  "paramsArray (joined sceneEmpty (plainEmitter ''a'' 5)) \<noteq> PUndefined
   \<and> activationIndex (joined sceneEmpty (plainEmitter ''a'' 5)) = Val 0
   \<and> real_of_int (attributeOffset (joined sceneEmpty (plainEmitter ''a'' 5))) \<le> 0
   \<and> 0 \<le> real_of_int (attributeOffset (joined sceneEmpty (plainEmitter ''a'' 5))
                + int (particleCount (joined sceneEmpty (plainEmitter ''a'' 5))))
   \<and> jle (Val 0) (jscale (jscale (particlesPerSecond (joined sceneEmpty (plainEmitter ''a'' 5)))
                      (activeMultiplier (joined sceneEmpty (plainEmitter ''a'' 5)))) 1)
   \<and> (\<exists>e' b' f c'. tick 1 indexSample (joined sceneEmpty (plainEmitter ''a'' 5)) (Some noSlots)
                      = Inr (e', Some b', f)
           \<and> activationIndex e' = Val c' \<and> 0 \<le> c' \<and> c' \<le> 5)"
proof -
  let ?e = "joined sceneEmpty (plainEmitter ''a'' 5)"
  have h: "paramsArray ?e \<noteq> PUndefined" "activationIndex ?e = Val 0"
    "real_of_int (attributeOffset ?e) \<le> 0"
    "0 \<le> real_of_int (attributeOffset ?e + int (particleCount ?e))"
    "jle (Val 0) (jscale (jscale (particlesPerSecond ?e) (activeMultiplier ?e)) 1)"
    using sceneEmpty_facts(5) by (simp_all add: plain_run)
  obtain e' b' f c' where t: "tick 1 indexSample ?e (Some noSlots) = Inr (e', Some b', f)"
    and c: "activationIndex e' = Val c'" "real_of_int (attributeOffset e') \<le> c'"
      "c' \<le> real_of_int (attributeOffset e' + int (particleCount e'))"
    and k: "attributeOffset e' = attributeOffset ?e" "particleCount e' = particleCount ?e"
    using tick_cursor_in_range [OF h, of indexSample noSlots] by blast
  have "0 \<le> c'" "c' \<le> 5" using c k sceneEmpty_facts(5) by simp_all
  then show ?thesis using h t c(1) by blast
qed

end
